(* ===== verification/Baals_Prelude.thy ===== *)
theory Baals_Prelude
  imports "HOL-Library.Word" "HOL-Library.List_Lexorder" "HOL-Library.Char_ord" "HOL-Library.Sublist"
begin

text \<open>
  Shared vocabulary of the development: the machine types of the Rust sources, the outcome of
  a call (a value, an \<^verbatim>\<open>Err\<close>, a panic, or a call that does not return), state-passing programs
  and the frame reasoning over them, and overflow-checked arithmetic.
\<close>

named_theorems prog_simps \<open>evaluation of state-passing programs\<close>
named_theorems keeps_rules \<open>frame rules: which programs leave an observation of the state alone\<close>
named_theorems preserves_rules \<open>invariant rules: which programs preserve a property of the state\<close>
named_theorems returns_rules \<open>which programs come back to their caller\<close>

section \<open>Machine types\<close>

type_synonym u8 = "8 word"
type_synonym u32 = "32 word"
type_synonym u64 = "64 word"
type_synonym bytes = "u8 list"

text \<open>
  \<^verbatim>\<open>[u8; 32]\<close> and \<^verbatim>\<open>[u8; 64]\<close> are words of 256 and 512 bits, read big-endian: the literal
  \<^verbatim>\<open>[0; 32]\<close> is 0 and the lexicographic order of the arrays is the order of the words.
\<close>

type_synonym arr32 = "256 word"
type_synonym arr64 = "512 word"

section \<open>Outcomes and programs\<close>

text \<open>
  \<open>Panic\<close> is an unwinding panic. \<open>Hang\<close> is a call that never returns to its caller: the second
  \<^verbatim>\<open>Mutex::lock\<close> of a thread that already holds the guard, of which the standard library only
  says that it does not return.
\<close>

datatype ('a, 'e) outcome = Ok 'a | Err 'e | Panic | Hang

type_synonym ('s, 'a, 'e) prog = "'s \<Rightarrow> ('a, 'e) outcome \<times> 's"

definition bind_o :: "('a, 'e) outcome \<Rightarrow> ('a \<Rightarrow> ('b, 'e) outcome) \<Rightarrow> ('b, 'e) outcome" where
  "bind_o r f = (case r of Ok a \<Rightarrow> f a | Err e \<Rightarrow> Err e | Panic \<Rightarrow> Panic | Hang \<Rightarrow> Hang)"

definition map_err_o :: "('e \<Rightarrow> 'f) \<Rightarrow> ('a, 'e) outcome \<Rightarrow> ('a, 'f) outcome" where
  "map_err_o g r = (case r of Ok a \<Rightarrow> Ok a | Err e \<Rightarrow> Err (g e) | Panic \<Rightarrow> Panic | Hang \<Rightarrow> Hang)"

definition ret :: "'a \<Rightarrow> ('s, 'a, 'e) prog" where
  "ret a = (\<lambda>s. (Ok a, s))"

definition fail :: "'e \<Rightarrow> ('s, 'a, 'e) prog" where
  "fail e = (\<lambda>s. (Err e, s))"

definition lift :: "('a, 'e) outcome \<Rightarrow> ('s, 'a, 'e) prog" where
  "lift r = (\<lambda>s. (r, s))"

definition reads :: "('s \<Rightarrow> ('a, 'e) outcome) \<Rightarrow> ('s, 'a, 'e) prog" where
  "reads f = (\<lambda>s. (f s, s))"

definition modify :: "('s \<Rightarrow> 's) \<Rightarrow> ('s, unit, 'e) prog" where
  "modify g = (\<lambda>s. (Ok (), g s))"

text \<open>\<open>then_do m f\<close> is \<^verbatim>\<open>let x = m?; f(x)\<close>.\<close>

definition then_do :: "('s, 'a, 'e) prog \<Rightarrow> ('a \<Rightarrow> ('s, 'b, 'e) prog) \<Rightarrow> ('s, 'b, 'e) prog" where
  "then_do m f = (\<lambda>s. case m s of
       (Ok a, s') \<Rightarrow> f a s'
     | (Err e, s') \<Rightarrow> (Err e, s')
     | (Panic, s') \<Rightarrow> (Panic, s')
     | (Hang, s') \<Rightarrow> (Hang, s'))"

definition map_err :: "('e \<Rightarrow> 'f) \<Rightarrow> ('s, 'a, 'e) prog \<Rightarrow> ('s, 'a, 'f) prog" where
  "map_err g m = (\<lambda>s. case m s of (r, s') \<Rightarrow> (map_err_o g r, s'))"

primrec for_each :: "('a \<Rightarrow> ('s, unit, 'e) prog) \<Rightarrow> 'a list \<Rightarrow> ('s, unit, 'e) prog" where
  "for_each f [] = ret ()"
| "for_each f (x # xs) = then_do (f x) (\<lambda>_. for_each f xs)"

text \<open>The \<^verbatim>\<open>?\<close> inside a loop that collects one value per item.\<close>

primrec map_o :: "('a \<Rightarrow> ('b, 'e) outcome) \<Rightarrow> 'a list \<Rightarrow> ('b list, 'e) outcome" where
  "map_o f [] = Ok []"
| "map_o f (x # xs) = bind_o (f x) (\<lambda>y. bind_o (map_o f xs) (\<lambda>ys. Ok (y # ys)))"

text \<open>
  \<open>discard m\<close> is \<^verbatim>\<open>let _ = m;\<close>: an \<^verbatim>\<open>Err\<close> is dropped. \<open>on_fst m\<close> runs a program on the first part
  of the state, which is all it has access to.
\<close>

definition discard :: "('s, 'a, 'e) prog \<Rightarrow> ('s, unit, 'f) prog" where
  "discard m = (\<lambda>s. case m s of
       (Ok _, s') \<Rightarrow> (Ok (), s')
     | (Err _, s') \<Rightarrow> (Ok (), s')
     | (Panic, s') \<Rightarrow> (Panic, s')
     | (Hang, s') \<Rightarrow> (Hang, s'))"

definition on_fst :: "('s, 'a, 'e) prog \<Rightarrow> ('s \<times> 'c, 'a, 'e) prog" where
  "on_fst m = (\<lambda>(s, c). case m s of (r, s') \<Rightarrow> (r, (s', c)))"

lemma bind_o_simps [simp]:
  "bind_o (Ok a) f = f a" "bind_o (Err e) f = Err e" "bind_o Panic f = Panic" "bind_o Hang f = Hang"
  by (simp_all add: bind_o_def)

lemma map_err_o_simps [simp]:
  "map_err_o g (Ok a) = Ok a" "map_err_o g (Err e) = Err (g e)"
  "map_err_o g Panic = Panic" "map_err_o g Hang = Hang"
  by (simp_all add: map_err_o_def)

lemma map_err_o_Ok_iff [simp]: "map_err_o g r = Ok a \<longleftrightarrow> r = Ok a"
  by (cases r) auto

lemma bind_o_Ok_iff: "bind_o r f = Ok b \<longleftrightarrow> (\<exists>a. r = Ok a \<and> f a = Ok b)"
  by (cases r) auto

lemma ret_apply [prog_simps]: "ret a s = (Ok a, s)"
  and fail_apply [prog_simps]: "fail e s = (Err e, s)"
  and lift_apply [prog_simps]: "lift r s = (r, s)"
  and reads_apply [prog_simps]: "reads g s = (g s, s)"
  and modify_apply [prog_simps]: "modify u s = (Ok (), u s)"
  by (simp_all add: ret_def fail_def lift_def reads_def modify_def)

lemma then_do_Ok [prog_simps]: "m s = (Ok a, s') \<Longrightarrow> then_do m f s = f a s'"
  and then_do_Err [prog_simps]: "m s = (Err e, s') \<Longrightarrow> then_do m f s = (Err e, s')"
  and then_do_Panic [prog_simps]: "m s = (Panic, s') \<Longrightarrow> then_do m f s = (Panic, s')"
  and then_do_Hang [prog_simps]: "m s = (Hang, s') \<Longrightarrow> then_do m f s = (Hang, s')"
  by (simp_all add: then_do_def)

lemma then_do_ret [simp]: "then_do (ret a) f = f a"
  by (simp add: then_do_def ret_def)

lemma then_do_ret_right [simp]: "then_do m ret = m"
  by (auto simp: then_do_def ret_def fun_eq_iff split: prod.split outcome.split)

lemma then_do_unit_right [simp]: "then_do m (\<lambda>_. ret ()) = m"
  by (auto simp: then_do_def ret_def fun_eq_iff split: prod.split outcome.split)

lemma then_do_lift [simp]:
  "then_do (lift (Ok a)) f = f a"
  "then_do (lift (Err e)) f = fail e"
  "then_do (lift Panic) f = lift Panic"
  "then_do (lift Hang) f = lift Hang"
  by (simp_all add: then_do_def lift_def fail_def)

lemma then_do_fail [simp]: "then_do (fail e) f = fail e"
  by (simp add: then_do_def fail_def)

lemma map_err_apply [prog_simps]: "m s = (r, s') \<Longrightarrow> map_err g m s = (map_err_o g r, s')"
  by (simp add: map_err_def)

lemma then_do_Ok_iff:
  "then_do m f s = (Ok b, t) \<longleftrightarrow> (\<exists>a s'. m s = (Ok a, s') \<and> f a s' = (Ok b, t))"
  by (auto simp: then_do_def split: prod.splits outcome.splits)

lemma then_do_cases:
  assumes "then_do m f s = (r, t)"
  obtains (Ok) a s' where "m s = (Ok a, s')" "f a s' = (r, t)"
    | (Err) e where "m s = (Err e, t)" "r = Err e"
    | (Panic) "m s = (Panic, t)" "r = Panic"
    | (Hang) "m s = (Hang, t)" "r = Hang"
  using assms by (auto simp: then_do_def split: prod.splits outcome.splits)

lemma map_err_Ok_iff: "map_err g m s = (Ok a, t) \<longleftrightarrow> m s = (Ok a, t)"
  by (auto simp: map_err_def split: prod.splits)

section \<open>Frames\<close>

text \<open>\<open>keeps obs m\<close>: whatever \<open>m\<close> returns, the observation \<open>obs\<close> of the state is unchanged.\<close>

definition keeps :: "('s \<Rightarrow> 'o) \<Rightarrow> ('s, 'a, 'e) prog \<Rightarrow> bool" where
  "keeps obs m \<longleftrightarrow> (\<forall>s. obs (snd (m s)) = obs s)"

lemma keepsI: "(\<And>s r s'. m s = (r, s') \<Longrightarrow> obs s' = obs s) \<Longrightarrow> keeps obs m"
  by (auto simp: keeps_def) (metis prod.collapse)

lemma keepsD: "keeps obs m \<Longrightarrow> m s = (r, s') \<Longrightarrow> obs s' = obs s"
  by (auto simp: keeps_def) (metis snd_conv)

lemma keeps_pure [keeps_rules]:
  "keeps obs (ret a)" "keeps obs (fail e)" "keeps obs (lift r)" "keeps obs (reads g)"
  by (simp_all add: keeps_def ret_def fail_def lift_def reads_def)

lemma keeps_then_do [keeps_rules]:
  assumes m: "keeps obs m" and f: "\<And>a. keeps obs (f a)"
  shows "keeps obs (then_do m f)"
proof (rule keepsI)
  fix s r t
  assume "then_do m f s = (r, t)"
  then show "obs t = obs s"
    by (cases rule: then_do_cases) (metis keepsD [OF m] keepsD [OF f])+
qed

lemma keeps_map_err [keeps_rules]: "keeps obs m \<Longrightarrow> keeps obs (map_err g m)"
  by (auto simp: keeps_def map_err_def split: prod.splits) (metis snd_conv)

lemma keeps_for_each [keeps_rules]:
  "(\<And>x. keeps obs (f x)) \<Longrightarrow> keeps obs (for_each f xs)"
  by (induction xs) (auto intro!: keeps_rules)

lemma keeps_discard [keeps_rules]: "keeps obs m \<Longrightarrow> keeps obs (discard m)"
  unfolding keeps_def discard_def by (auto split: prod.splits outcome.splits) (metis snd_conv)+

lemma keeps_on_fst [keeps_rules]: "keeps obs m \<Longrightarrow> keeps (\<lambda>st. obs (fst st)) (on_fst m)"
  unfolding keeps_def on_fst_def by (auto split: prod.splits) (metis snd_conv)

lemma on_fst_apply [prog_simps]: "m s = (r, s') \<Longrightarrow> on_fst m (s, c) = (r, (s', c))"
  by (simp add: on_fst_def)

lemma on_fst_Ok_iff: "on_fst m (s, c) = (Ok a, st) \<longleftrightarrow> (\<exists>s'. m s = (Ok a, s') \<and> st = (s', c))"
  by (auto simp: on_fst_def split: prod.splits)

lemma map_o_Ok_iff: "map_o f xs = Ok ys \<longleftrightarrow> list_all2 (\<lambda>x y. f x = Ok y) xs ys"
  by (induction xs arbitrary: ys) (auto simp: bind_o_Ok_iff list_all2_Cons1)

lemma map_o_Ok [simp]: "(\<And>x. x \<in> set xs \<Longrightarrow> f x = Ok (g x)) \<Longrightarrow> map_o f xs = Ok (map g xs)"
  by (induction xs) simp_all

section \<open>Invariants\<close>

text \<open>\<open>preserves P m\<close>: whatever \<open>m\<close> returns, a state with \<open>P\<close> becomes one with \<open>P\<close>.\<close>

definition preserves :: "('s \<Rightarrow> bool) \<Rightarrow> ('s, 'a, 'e) prog \<Rightarrow> bool" where
  "preserves P m \<longleftrightarrow> (\<forall>s. P s \<longrightarrow> P (snd (m s)))"

lemma preservesI: "(\<And>s r s'. P s \<Longrightarrow> m s = (r, s') \<Longrightarrow> P s') \<Longrightarrow> preserves P m"
  unfolding preserves_def by (metis prod.collapse)

lemma preservesD: "preserves P m \<Longrightarrow> P s \<Longrightarrow> m s = (r, s') \<Longrightarrow> P s'"
  unfolding preserves_def by (metis snd_conv)

lemma preserves_pure [preserves_rules]:
  "preserves P (ret a)" "preserves P (fail e)" "preserves P (lift r)" "preserves P (reads g)"
  by (simp_all add: preserves_def ret_def fail_def lift_def reads_def)

lemma preserves_then_do [preserves_rules]:
  assumes m: "preserves P m" and f: "\<And>a. preserves P (f a)"
  shows "preserves P (then_do m f)"
proof (rule preservesI)
  fix s r t
  assume "P s" "then_do m f s = (r, t)"
  from this(2,1) show "P t"
    by (cases rule: then_do_cases) (metis preservesD [OF m] preservesD [OF f])+
qed

lemma preserves_map_err [preserves_rules]: "preserves P m \<Longrightarrow> preserves P (map_err g m)"
  by (simp add: preserves_def map_err_def case_prod_unfold)

section \<open>Calls that return\<close>

text \<open>
  A result with which a call comes back to its caller; \<open>comes_back c r\<close> lets it panic when \<open>c\<close>
  holds, and \<open>always_back c m\<close> says so of every run of \<open>m\<close>.
\<close>

definition returns :: "('a, 'e) outcome \<Rightarrow> bool" where
  "returns r \<longleftrightarrow> r \<noteq> Panic \<and> r \<noteq> Hang"

definition comes_back :: "bool \<Rightarrow> ('a, 'e) outcome \<Rightarrow> bool" where
  "comes_back c r \<longleftrightarrow> r \<noteq> Hang \<and> (r = Panic \<longrightarrow> c)"

definition always_back :: "bool \<Rightarrow> ('s, 'a, 'e) prog \<Rightarrow> bool" where
  "always_back c m \<longleftrightarrow> (\<forall>s. comes_back c (fst (m s)))"

lemma comes_back_simps [simp]:
  "comes_back c (Ok a)" "comes_back c (Err e)" "comes_back c Panic \<longleftrightarrow> c" "\<not> comes_back c Hang"
  by (simp_all add: comes_back_def)

lemma comes_back_returns: "returns r \<Longrightarrow> comes_back c r"
  by (simp add: returns_def comes_back_def)

lemma comes_back_False: "comes_back False r \<longleftrightarrow> returns r"
  by (auto simp: returns_def comes_back_def)

lemma comes_back_map_err_o [simp]: "comes_back c (map_err_o g r) \<longleftrightarrow> comes_back c r"
  by (cases r) simp_all

lemma comes_back_bind_o [returns_rules]:
  "comes_back c r \<Longrightarrow> (\<And>a. comes_back c (f a)) \<Longrightarrow> comes_back c (bind_o r f)"
  by (cases r) simp_all

lemma comes_back_map_o [returns_rules]: "(\<And>x. comes_back c (f x)) \<Longrightarrow> comes_back c (map_o f xs)"
  by (induction xs) (simp_all add: comes_back_bind_o)

lemma always_back_pure [returns_rules]:
  "always_back c (ret a)" "always_back c (fail e)" "always_back c (modify u)"
  "comes_back c r \<Longrightarrow> always_back c (lift r)" "(\<And>s. comes_back c (g s)) \<Longrightarrow> always_back c (reads g)"
  by (simp_all add: always_back_def ret_def fail_def lift_def reads_def modify_def)

lemma always_backD: "always_back c m \<Longrightarrow> m s = (r, s') \<Longrightarrow> comes_back c r"
  unfolding always_back_def by (metis fst_conv)

lemma always_backI: "(\<And>s r s'. m s = (r, s') \<Longrightarrow> comes_back c r) \<Longrightarrow> always_back c m"
  unfolding always_back_def by (metis prod.collapse)

lemma always_back_then_do [returns_rules]:
  assumes m: "always_back c m" and f: "\<And>a. always_back c (f a)"
  shows "always_back c (then_do m f)"
proof (rule always_backI)
  fix s r t
  assume "then_do m f s = (r, t)"
  then show "comes_back c r"
    by (cases rule: then_do_cases)
      (use always_backD [OF m] always_backD [OF f] in \<open>force+\<close>)
qed

lemma always_back_map_err [returns_rules]: "always_back c m \<Longrightarrow> always_back c (map_err g m)"
  by (simp add: always_back_def map_err_def case_prod_unfold)

lemma always_back_for_each [returns_rules]:
  "(\<And>x. always_back c (f x)) \<Longrightarrow> always_back c (for_each f xs)"
  by (induction xs) (simp_all add: always_back_then_do always_back_pure)

lemma always_back_discard [returns_rules]: "always_back c m \<Longrightarrow> always_back c (discard m)"
  unfolding always_back_def discard_def by (auto split: prod.split outcome.split dest: spec)
    (metis comes_back_simps(3,4) fst_conv)+

lemma always_back_on_fst [returns_rules]: "always_back c m \<Longrightarrow> always_back c (on_fst m)"
  by (auto simp: always_back_def on_fst_def split: prod.split) (metis fst_conv)

section \<open>Overflow-checked arithmetic\<close>

text \<open>
  \<open>add_checked chk a b\<close> is the \<^verbatim>\<open>+\<close> of Rust on unsigned integers: with overflow checks (the
  default of debug builds) an overflow panics, without them (release builds) it wraps.
\<close>

lemma unat_bound: "unat (w :: 'w::len word) < 2 ^ LENGTH('w)"
  by (fact unsigned_less)

definition add_checked :: "bool \<Rightarrow> 'w::len word \<Rightarrow> 'w word \<Rightarrow> ('w word, 'e) outcome" where
  "add_checked chk a b =
     (if chk \<and> 2 ^ LENGTH('w) \<le> unat a + unat b then Panic else Ok (a + b))"

lemma add_checked_fits:
  "unat (a :: 'w::len word) + unat b < 2 ^ LENGTH('w) \<Longrightarrow> add_checked chk a b = Ok (a + b)"
  by (simp add: add_checked_def)

lemma add_checked_back [returns_rules]: "comes_back chk (add_checked chk a b)"
  by (simp add: add_checked_def comes_back_def)

lemma add_checked_cases: "add_checked chk a b = Ok (a + b) \<or> add_checked chk a b = Panic"
  by (simp add: add_checked_def)

lemma add_checked_Ok [dest]: "add_checked chk a b = Ok c \<Longrightarrow> c = a + b"
  by (auto simp: add_checked_def split: if_splits)

lemma add_checked_not_Err [simp]: "add_checked chk a b \<noteq> Err e" "add_checked chk a b \<noteq> Hang"
  by (simp_all add: add_checked_def)

end
