(* ===== verification/Baals_Std.thy ===== *)
theory Baals_Std
  imports Baals_Prelude
begin

text \<open>
  The parts of the Rust standard library the sources rely on: little-endian integer bytes,
  the UTF-8 check of \<^verbatim>\<open>String\<close>, the zero-padded decimal of \<^verbatim>\<open>format!("{:0>w}", n)\<close>, and
  \<^verbatim>\<open>BTreeMap\<close> as an association list kept sorted by key.
\<close>

section \<open>Integer bytes\<close>

primrec le_nat :: "nat \<Rightarrow> nat \<Rightarrow> bytes" where
  "le_nat 0 x = []"
| "le_nat (Suc n) x = word_of_nat (x mod 256) # le_nat n (x div 256)"

primrec of_le_nat :: "bytes \<Rightarrow> nat" where
  "of_le_nat [] = 0"
| "of_le_nat (b # bs) = unat b + 256 * of_le_nat bs"

text \<open>\<^verbatim>\<open>u32::to_le_bytes\<close>, \<^verbatim>\<open>u64::to_le_bytes\<close> and their inverses.\<close>

definition le32 :: "u32 \<Rightarrow> bytes" where "le32 w = le_nat 4 (unat w)"
definition le64 :: "u64 \<Rightarrow> bytes" where "le64 w = le_nat 8 (unat w)"
definition of_le32 :: "bytes \<Rightarrow> u32" where "of_le32 bs = word_of_nat (of_le_nat bs)"
definition of_le64 :: "bytes \<Rightarrow> u64" where "of_le64 bs = word_of_nat (of_le_nat bs)"

text \<open>The bytes of \<^verbatim>\<open>[u8; 32]\<close> and \<^verbatim>\<open>[u8; 64]\<close>, first element first.\<close>

definition arr32_bytes :: "arr32 \<Rightarrow> bytes" where "arr32_bytes h = rev (le_nat 32 (unat h))"
definition arr64_bytes :: "arr64 \<Rightarrow> bytes" where "arr64_bytes s = rev (le_nat 64 (unat s))"

text \<open>\<^verbatim>\<open>slice.try_into()\<close>: an array of exactly that length, or an error.\<close>

definition arr32_of_bytes :: "bytes \<Rightarrow> arr32 option" where
  "arr32_of_bytes bs = (if length bs = 32 then Some (word_of_nat (of_le_nat (rev bs))) else None)"

definition arr64_of_bytes :: "bytes \<Rightarrow> arr64 option" where
  "arr64_of_bytes bs = (if length bs = 64 then Some (word_of_nat (of_le_nat (rev bs))) else None)"

lemma length_le_nat [simp]: "length (le_nat n x) = n"
  by (induction n arbitrary: x) auto

lemma of_le_nat_le_nat: "of_le_nat (le_nat n x) = x mod 256 ^ n"
proof (induction n arbitrary: x)
  case (Suc n)
  have "x mod 256 ^ Suc n = x mod 256 + 256 * (x div 256 mod 256 ^ n)"
    by (simp add: mod_mult2_eq)
  then show ?case
    by (simp add: Suc.IH unat_of_nat)
qed simp

lemma of_le_nat_bound: "of_le_nat bs < 256 ^ length bs"
proof (induction bs)
  case (Cons b bs)
  have "unat b < 256"
    using unat_bound [of b] by simp
  with Cons show ?case
    by simp
qed simp

lemma le_nat_of_le_nat: "le_nat (length bs) (of_le_nat bs) = bs"
proof (induction bs)
  case (Cons b bs)
  have b: "unat b < 256"
    using unat_bound [of b] by simp
  have "(unat b + 256 * of_le_nat bs) mod 256 = unat b"
    using b by simp
  moreover have "(unat b + 256 * of_le_nat bs) div 256 = of_le_nat bs"
    using b by simp
  ultimately show ?case
    by (simp add: Cons.IH)
qed simp

lemma le_nat_take: "n \<le> m \<Longrightarrow> take n (le_nat m x) = le_nat n (x mod 256 ^ n)"
proof (induction n arbitrary: m x)
  case (Suc n)
  then obtain k where m: "m = Suc k" and k: "n \<le> k"
    by (cases m) auto
  have "x mod 256 ^ Suc n mod 256 = x mod 256"
    by (simp add: mod_mult2_eq)
  moreover have "x mod 256 ^ Suc n div 256 = x div 256 mod 256 ^ n"
    by (simp add: mod_mult2_eq)
  ultimately show ?case
    using Suc.IH [OF k, of "x div 256"] by (simp add: m)
qed simp

lemma le_nat_inj: "le_nat n x = le_nat n y \<Longrightarrow> x < 256 ^ n \<Longrightarrow> y < 256 ^ n \<Longrightarrow> x = y"
  by (metis of_le_nat_le_nat mod_less)

lemma length_fixed [simp]:
  "length (le32 w) = 4" "length (le64 v) = 8" "length (arr32_bytes h) = 32" "length (arr64_bytes s) = 64"
  by (simp_all add: le32_def le64_def arr32_bytes_def arr64_bytes_def)

lemma fixed_not_Nil [simp]:
  "le32 w \<noteq> []" "le64 v \<noteq> []" "arr32_bytes h \<noteq> []" "arr64_bytes s \<noteq> []"
  by (metis length_fixed list.size(3) zero_neq_numeral)+

lemma unat_u32_bound: "unat (w :: u32) < 256 ^ 4"
  and unat_u64_bound: "unat (v :: u64) < 256 ^ 8"
  and unat_arr32_bound: "unat (h :: arr32) < 256 ^ 32"
  and unat_arr64_bound: "unat (s :: arr64) < 256 ^ 64"
  using unat_bound [of w] unat_bound [of v] unat_bound [of h] unat_bound [of s] by simp_all

lemma of_le32_le32 [simp]: "of_le32 (le32 w) = w"
  using unat_u32_bound [of w] by (simp add: of_le32_def le32_def of_le_nat_le_nat)

lemma of_le64_le64 [simp]: "of_le64 (le64 v) = v"
  using unat_u64_bound [of v] by (simp add: of_le64_def le64_def of_le_nat_le_nat)

lemma le32_of_le32: "length bs = 4 \<Longrightarrow> le32 (of_le32 bs) = bs"
  using of_le_nat_bound [of bs] le_nat_of_le_nat [of bs]
  by (simp add: of_le32_def le32_def unat_of_nat)

lemma le64_of_le64: "length bs = 8 \<Longrightarrow> le64 (of_le64 bs) = bs"
  using of_le_nat_bound [of bs] le_nat_of_le_nat [of bs]
  by (simp add: of_le64_def le64_def unat_of_nat)

lemma arr32_of_bytes_arr32_bytes [simp]: "arr32_of_bytes (arr32_bytes h) = Some h"
  using unat_arr32_bound [of h]
  by (simp add: arr32_of_bytes_def arr32_bytes_def of_le_nat_le_nat)

lemma arr64_of_bytes_arr64_bytes [simp]: "arr64_of_bytes (arr64_bytes s) = Some s"
  using unat_arr64_bound [of s]
  by (simp add: arr64_of_bytes_def arr64_bytes_def of_le_nat_le_nat)

lemma arr32_bytes_of_bytes: "arr32_of_bytes bs = Some h \<Longrightarrow> arr32_bytes h = bs"
  using of_le_nat_bound [of "rev bs"] le_nat_of_le_nat [of "rev bs"]
  by (auto simp: arr32_of_bytes_def arr32_bytes_def unat_of_nat split: if_splits)

lemma le32_inject [simp]: "le32 w = le32 w' \<longleftrightarrow> w = w'"
  by (metis of_le32_le32)

lemma le64_inject [simp]: "le64 v = le64 v' \<longleftrightarrow> v = v'"
  by (metis of_le64_le64)

lemma arr32_bytes_inject [simp]: "arr32_bytes h = arr32_bytes h' \<longleftrightarrow> h = h'"
  by (metis arr32_of_bytes_arr32_bytes option.inject)

lemma arr64_bytes_inject [simp]: "arr64_bytes s = arr64_bytes s' \<longleftrightarrow> s = s'"
  by (metis arr64_of_bytes_arr64_bytes option.inject)

section \<open>Strings\<close>

text \<open>
  A \<^verbatim>\<open>String\<close> is the list of its UTF-8 code units, one \<^typ>\<open>char\<close> each. \<open>utf8_valid\<close> is the check
  of \<^verbatim>\<open>core::str::from_utf8\<close>: no overlong forms, no surrogates, nothing above U+10FFFF.
\<close>

definition utf8 :: "string \<Rightarrow> bytes" where
  "utf8 s = map (\<lambda>c. word_of_nat (of_char c)) s"

definition of_utf8 :: "bytes \<Rightarrow> string" where
  "of_utf8 bs = map (\<lambda>b. char_of (unat b)) bs"

definition cont_byte :: "u8 \<Rightarrow> bool" where
  "cont_byte b \<longleftrightarrow> 0x80 \<le> b \<and> b \<le> 0xBF"

fun utf8_valid :: "bytes \<Rightarrow> bool" where
  "utf8_valid [] = True"
| "utf8_valid (a # r) =
     (if a < 0x80 then utf8_valid r
      else case r of
        b # r1 \<Rightarrow>
          (if 0xC2 \<le> a \<and> a \<le> 0xDF then cont_byte b \<and> utf8_valid r1
           else case r1 of
             c # r2 \<Rightarrow>
               (if a = 0xE0 then 0xA0 \<le> b \<and> b \<le> 0xBF \<and> cont_byte c \<and> utf8_valid r2
                else if a = 0xED then 0x80 \<le> b \<and> b \<le> 0x9F \<and> cont_byte c \<and> utf8_valid r2
                else if 0xE1 \<le> a \<and> a \<le> 0xEF then cont_byte b \<and> cont_byte c \<and> utf8_valid r2
                else case r2 of
                  d # r3 \<Rightarrow>
                    (if a = 0xF0 then 0x90 \<le> b \<and> b \<le> 0xBF \<and> cont_byte c \<and> cont_byte d \<and> utf8_valid r3
                     else if 0xF1 \<le> a \<and> a \<le> 0xF3
                       then cont_byte b \<and> cont_byte c \<and> cont_byte d \<and> utf8_valid r3
                     else if a = 0xF4
                       then 0x80 \<le> b \<and> b \<le> 0x8F \<and> cont_byte c \<and> cont_byte d \<and> utf8_valid r3
                     else False)
                | [] \<Rightarrow> False)
           | [] \<Rightarrow> False)
      | [] \<Rightarrow> False)"

lemma of_utf8_utf8 [simp]: "of_utf8 (utf8 s) = s"
proof -
  have "unat (word_of_nat (of_char c) :: u8) = of_char c" for c
    using nat_of_char_less_256 [of c] by (simp add: unat_of_nat)
  then show ?thesis
    by (simp add: of_utf8_def utf8_def o_def)
qed

lemma length_utf8 [simp]: "length (utf8 s) = length s"
  by (simp add: utf8_def)

lemma utf8_append: "utf8 (s @ t) = utf8 s @ utf8 t"
  by (simp add: utf8_def)

lemma utf8_inject [simp]: "utf8 s = utf8 t \<longleftrightarrow> s = t"
  by (metis of_utf8_utf8)

lemma prefix_utf8 [simp]: "prefix (utf8 s) (utf8 t) \<longleftrightarrow> prefix s t"
proof
  assume "prefix (utf8 s) (utf8 t)"
  then have "take (length (utf8 s)) (utf8 t) = utf8 s"
    by (auto simp: prefix_def)
  then have "utf8 (take (length s) t) = utf8 s"
    by (simp add: utf8_def take_map)
  then have "take (length s) t = s"
    by simp
  then show "prefix s t"
    by (metis take_is_prefix)
qed (auto simp: prefix_def utf8_append)

section \<open>Zero-padded decimals\<close>

definition digit_char :: "nat \<Rightarrow> char" where
  "digit_char d = char_of (48 + d)"

fun show_dec :: "nat \<Rightarrow> string" where
  "show_dec n = (if n < 10 then [digit_char n] else show_dec (n div 10) @ [digit_char (n mod 10)])"

declare show_dec.simps [simp del]

text \<open>\<^verbatim>\<open>format!("{:0>w}", n)\<close>: right-aligned in \<open>w\<close> columns, filled with zeros, never cut.\<close>

definition pad0 :: "nat \<Rightarrow> nat \<Rightarrow> string" where
  "pad0 w n = (let s = show_dec n in replicate (w - length s) (digit_char 0) @ s)"

text \<open>The digits of \<open>n\<close> at exactly \<open>k\<close> places, which \<open>pad0\<close> prints for every \<open>n\<close> below \<open>10 ^ k\<close>.\<close>

primrec dec_fixed :: "nat \<Rightarrow> nat \<Rightarrow> string" where
  "dec_fixed 0 n = []"
| "dec_fixed (Suc k) n = dec_fixed k (n div 10) @ [digit_char (n mod 10)]"

lemma length_dec_fixed [simp]: "length (dec_fixed k n) = k"
  by (induction k arbitrary: n) auto

lemma dec_fixed_zero: "dec_fixed k 0 = replicate k (digit_char 0)"
  by (induction k) (simp_all add: replicate_append_same)

lemma show_dec_fixed:
  assumes "n < 10 ^ k" and "0 < k"
  shows "length (show_dec n) \<le> k \<and> replicate (k - length (show_dec n)) (digit_char 0) @ show_dec n = dec_fixed k n"
  using assms
proof (induction n arbitrary: k rule: show_dec.induct)
  case (1 n)
  obtain j where k: "k = Suc j"
    using "1.prems"(2) by (cases k) auto
  show ?case
  proof (cases "n < 10")
    case True
    then show ?thesis
      by (simp add: show_dec.simps [of n] k dec_fixed_zero)
  next
    case False
    then have j: "0 < j"
      using "1.prems"(1) k by (cases j) auto
    have "n div 10 < 10 ^ j"
      using "1.prems"(1) by (simp add: k div_less_iff_less_mult mult.commute)
    with "1.IH" [OF False this j] False show ?thesis
      by (simp add: show_dec.simps [of n] k)
  qed
qed

lemma pad0_fixed: "n < 10 ^ k \<Longrightarrow> 0 < k \<Longrightarrow> pad0 k n = dec_fixed k n"
  using show_dec_fixed [of n k] by (simp add: pad0_def Let_def)

section \<open>Lexicographic order of byte strings\<close>

lemma snoc_less_snoc:
  "length xs = length ys \<Longrightarrow> (xs @ [a] < ys @ [b]) \<longleftrightarrow> xs < ys \<or> xs = ys \<and> a < (b :: 'a::linorder)"
  by (induction xs ys rule: list_induct2) auto

lemma prefix_less: "xs @ ys < xs @ zs \<longleftrightarrow> ys < (zs :: 'a::linorder list)"
  by (induction xs) auto

definition digit_byte :: "nat \<Rightarrow> u8" where
  "digit_byte d = word_of_nat (48 + d)"

lemma utf8_digit: "d < 10 \<Longrightarrow> utf8 [digit_char d] = [digit_byte d]"
  by (simp add: utf8_def digit_char_def digit_byte_def)

lemma digit_byte_less:
  assumes "c < 10" "d < 10"
  shows "digit_byte c < digit_byte d \<longleftrightarrow> c < d"
proof -
  have "unat (digit_byte e) = 48 + e" if "e < 10" for e
    unfolding digit_byte_def by (subst unat_of_nat) (use that in simp)
  with assms show ?thesis
    by (simp add: word_less_nat_alt)
qed

lemma dec_fixed_less:
  assumes "m < n" and "n < 10 ^ k"
  shows "utf8 (dec_fixed k m) < utf8 (dec_fixed k n)"
  using assms
proof (induction k arbitrary: m n)
  case (Suc k)
  have split: "m div 10 < n div 10 \<or> m div 10 = n div 10 \<and> m mod 10 < n mod 10"
    using Suc.prems(1) div_le_mono [of m n 10] div_mult_mod_eq [of m 10] div_mult_mod_eq [of n 10]
    by linarith
  have "n div 10 < 10 ^ k"
    using Suc.prems(2) by (simp add: div_less_iff_less_mult mult.commute)
  then have "m div 10 < n div 10 \<Longrightarrow> utf8 (dec_fixed k (m div 10)) < utf8 (dec_fixed k (n div 10))"
    using Suc.IH by blast
  with split show ?case
    by (auto simp: utf8_append snoc_less_snoc utf8_digit digit_byte_less)
qed simp

section \<open>BTreeMap\<close>

type_synonym ('k, 'v) btree_map = "('k \<times> 'v) list"

fun bt_insert :: "'k::linorder \<Rightarrow> 'v \<Rightarrow> ('k, 'v) btree_map \<Rightarrow> ('k, 'v) btree_map" where
  "bt_insert k v [] = [(k, v)]"
| "bt_insert k v ((k', v') # m) =
     (if k < k' then (k, v) # (k', v') # m
      else if k = k' then (k, v) # m
      else (k', v') # bt_insert k v m)"

definition bt_sorted :: "('k::linorder, 'v) btree_map \<Rightarrow> bool" where
  "bt_sorted m \<longleftrightarrow> sorted_wrt (<) (map fst m)"

lemma bt_get_insert [simp]: "map_of (bt_insert k v m) = (map_of m)(k \<mapsto> v)"
  by (induction k v m rule: bt_insert.induct) (auto simp: fun_eq_iff)

lemma set_bt_insert: "fst ` set (bt_insert k v m) = insert k (fst ` set m)"
  by (induction k v m rule: bt_insert.induct) auto

lemma bt_sorted_Nil [simp]: "bt_sorted []"
  by (simp add: bt_sorted_def)

lemma bt_sorted_insert: "bt_sorted m \<Longrightarrow> bt_sorted (bt_insert k v m)"
proof (induction k v m rule: bt_insert.induct)
  case (2 k v k' v' m)
  have "fst ` set (bt_insert k v m) = insert k (fst ` set m)"
    by (rule set_bt_insert)
  with 2 show ?case
    by (auto simp: bt_sorted_def)
qed (simp add: bt_sorted_def)

lemma bt_sorted_distinct: "bt_sorted m \<Longrightarrow> distinct (map fst m)"
  by (auto simp: bt_sorted_def strict_sorted_iff)

lemma bt_sorted_unique:
  assumes "bt_sorted m" "bt_sorted n" "map_of m = map_of n"
  shows "m = n"
proof -
  have dm: "distinct (map fst m)" and dn: "distinct (map fst n)"
    using assms(1,2) by (simp_all add: bt_sorted_distinct)
  have sets: "set m = set n"
    using dm dn assms(3) by (simp add: map_of_inject_set)
  have "sorted (map fst m)" "sorted (map fst n)"
    using assms(1,2) by (simp_all add: bt_sorted_def strict_sorted_iff)
  moreover have "inj_on fst (set m \<union> set n)"
    using dm sets by (simp add: distinct_map)
  ultimately show ?thesis
    using dm dn sets by (metis map_sorted_distinct_set_unique)
qed

text \<open>Collecting pairs into a \<^verbatim>\<open>BTreeMap\<close>, as its \<^verbatim>\<open>Deserialize\<close> does: a later key replaces an earlier one.\<close>

definition bt_collect :: "('k::linorder \<times> 'v) list \<Rightarrow> ('k, 'v) btree_map" where
  "bt_collect kvs = fold (\<lambda>(k, v). bt_insert k v) kvs []"

section \<open>The clock\<close>

text \<open>
  \<^verbatim>\<open>SystemTime::now().duration_since(UNIX_EPOCH).unwrap().as_secs()\<close>, of a clock that shows \<open>now\<close>
  nanoseconds relative to the epoch.
\<close>

definition unix_seconds :: "int \<Rightarrow> (u64, 'e) outcome" where
  "unix_seconds now = (if now < 0 then Panic else Ok (word_of_int (now div 10 ^ 9)))"

end
