(* ===== verification/Baals_Wire.thy ===== *)
theory Baals_Wire
  imports Baals_Std
begin

text \<open>
  The third-party code the sources call, as parameters. The record \<open>lib\<close> bundles the pure
  functions of \<^verbatim>\<open>sha2\<close>, \<^verbatim>\<open>hex\<close>, \<^verbatim>\<open>ed25519_dalek\<close> and \<^verbatim>\<open>bincode\<close>, and the build's overflow-check
  switch. What the code relies on is stated as named hypotheses over that record:
  \<open>bincode_documented\<close>, \<open>dalek_documented\<close>, \<open>hex_documented\<close>. The data model of serde
  (what a \<^verbatim>\<open>Serialize\<close> impl hands to a format, what a \<^verbatim>\<open>Deserialize\<close> impl asks of it) is the
  interface between the impls of the sources and the \<^verbatim>\<open>bincode\<close> parameter.
\<close>

section \<open>The serde data model\<close>

datatype sval =
    SU8 u8 | SU32 u32 | SU64 u64
  | SStr string
  | SBytes bytes
  | SSeq "sval list"
  | STuple "sval list"
  | SNone | SSome sval
  | SMap "(sval \<times> sval) list"
  | SVariant u32 "sval list"

datatype shape =
    HU8 | HU32 | HU64
  | HStr
  | HSeq shape
  | HTuple "shape list"
  | HOption shape
  | HMap shape shape
  | HEnum "shape list list"

section \<open>The documented wire format of bincode 1.3\<close>

text \<open>
  Fixed-width little-endian integers, \<^verbatim>\<open>u64\<close> lengths before strings, byte slices, sequences and
  maps, \<^verbatim>\<open>u32\<close> variant tags, one tag byte for \<^verbatim>\<open>Option\<close>, nothing around tuples, arrays and structs.
  Reading allows trailing bytes.
\<close>

primrec wire_ser :: "sval \<Rightarrow> bytes" where
  "wire_ser (SU8 b) = [b]"
| "wire_ser (SU32 w) = le32 w"
| "wire_ser (SU64 w) = le64 w"
| "wire_ser (SStr s) = le64 (word_of_nat (length s)) @ utf8 s"
| "wire_ser (SBytes bs) = le64 (word_of_nat (length bs)) @ bs"
| "wire_ser (SSeq vs) = le64 (word_of_nat (length vs)) @ concat (map wire_ser vs)"
| "wire_ser (STuple vs) = concat (map wire_ser vs)"
| "wire_ser SNone = [0]"
| "wire_ser (SSome v) = 1 # wire_ser v"
| "wire_ser (SMap kvs) = le64 (word_of_nat (length kvs)) @
     concat (map (\<lambda>(k, v). k @ v) (map (map_prod wire_ser wire_ser) kvs))"
| "wire_ser (SVariant i vs) = le32 i @ concat (map wire_ser vs)"

type_synonym 'a parser = "bytes \<Rightarrow> ('a \<times> bytes) option"

definition p_take :: "nat \<Rightarrow> bytes parser" where
  "p_take n bs = (if length bs < n then None else Some (take n bs, drop n bs))"

definition p_map :: "('a \<Rightarrow> 'b) \<Rightarrow> 'a parser \<Rightarrow> 'b parser" where
  "p_map f p bs = (case p bs of None \<Rightarrow> None | Some (a, r) \<Rightarrow> Some (f a, r))"

definition p_bind :: "'a parser \<Rightarrow> ('a \<Rightarrow> 'b parser) \<Rightarrow> 'b parser" where
  "p_bind p f bs = (case p bs of None \<Rightarrow> None | Some (a, r) \<Rightarrow> f a r)"

definition p_none :: "'a parser" where
  "p_none bs = None"

definition p_ret :: "'a \<Rightarrow> 'a parser" where
  "p_ret a bs = Some (a, bs)"

primrec p_all :: "'a parser list \<Rightarrow> 'a list parser" where
  "p_all [] = p_ret []"
| "p_all (p # ps) = p_bind p (\<lambda>a. p_map (Cons a) (p_all ps))"

primrec p_repeat :: "nat \<Rightarrow> 'a parser \<Rightarrow> 'a list parser" where
  "p_repeat 0 p = p_ret []"
| "p_repeat (Suc n) p = p_bind p (\<lambda>a. p_map (Cons a) (p_repeat n p))"

definition p_len :: "nat parser" where
  "p_len = p_map (\<lambda>bs. unat (of_le64 bs)) (p_take 8)"

primrec wire_de :: "shape \<Rightarrow> sval parser" where
  "wire_de HU8 = p_map (\<lambda>bs. SU8 (hd bs)) (p_take 1)"
| "wire_de HU32 = p_map (\<lambda>bs. SU32 (of_le32 bs)) (p_take 4)"
| "wire_de HU64 = p_map (\<lambda>bs. SU64 (of_le64 bs)) (p_take 8)"
| "wire_de HStr = p_bind p_len (\<lambda>n. p_bind (p_take n)
     (\<lambda>bs. if utf8_valid bs then p_ret (SStr (of_utf8 bs)) else p_none))"
| "wire_de (HSeq h) = p_bind p_len (\<lambda>n. p_map SSeq (p_repeat n (wire_de h)))"
| "wire_de (HTuple hs) = p_map STuple (p_all (map wire_de hs))"
| "wire_de (HOption h) = p_bind (p_take 1) (\<lambda>t.
     if t = [0] then p_ret SNone
     else if t = [1] then p_map SSome (wire_de h)
     else p_none)"
| "wire_de (HMap hk hv) = p_bind p_len (\<lambda>n. p_map SMap
     (p_repeat n (p_bind (wire_de hk) (\<lambda>k. p_map (Pair k) (wire_de hv)))))"
| "wire_de (HEnum hss) = p_bind (p_take 4) (\<lambda>t.
     let i = of_le32 t in
     if unat i < length hss
     then p_map (SVariant i) (p_all (map (map wire_de) hss ! unat i))
     else p_none)"

subsection \<open>Reading back what was written\<close>

text \<open>
  \<open>fits h v\<close>: the value \<open>v\<close> is one that a reader asking for \<open>h\<close> understands. A byte slice
  (\<^verbatim>\<open>serialize_bytes\<close>) is read as a sequence of \<^verbatim>\<open>u8\<close>; lengths fit the \<^verbatim>\<open>u64\<close> length field.
\<close>

primrec fits :: "shape \<Rightarrow> sval \<Rightarrow> bool" where
  "fits HU8 v = (case v of SU8 b \<Rightarrow> True | _ \<Rightarrow> False)"
| "fits HU32 v = (case v of SU32 w \<Rightarrow> True | _ \<Rightarrow> False)"
| "fits HU64 v = (case v of SU64 w \<Rightarrow> True | _ \<Rightarrow> False)"
| "fits HStr v = (case v of SStr s \<Rightarrow> utf8_valid (utf8 s) \<and> length s < 2 ^ 64 | _ \<Rightarrow> False)"
| "fits (HSeq h) v = (case v of
       SSeq vs \<Rightarrow> list_all (fits h) vs \<and> length vs < 2 ^ 64
     | SBytes bs \<Rightarrow> h = HU8 \<and> length bs < 2 ^ 64
     | _ \<Rightarrow> False)"
| "fits (HTuple hs) v = (case v of STuple vs \<Rightarrow> list_all2 (\<lambda>p. p) (map fits hs) vs | _ \<Rightarrow> False)"
| "fits (HOption h) v = (case v of SNone \<Rightarrow> True | SSome w \<Rightarrow> fits h w | _ \<Rightarrow> False)"
| "fits (HMap hk hv) v = (case v of
       SMap kvs \<Rightarrow> list_all (\<lambda>(k, w). fits hk k \<and> fits hv w) kvs \<and> length kvs < 2 ^ 64
     | _ \<Rightarrow> False)"
| "fits (HEnum hss) v = (case v of
       SVariant i vs \<Rightarrow> unat i < length hss \<and> list_all2 (\<lambda>p. p) (map (map fits) hss ! unat i) vs
     | _ \<Rightarrow> False)"

text \<open>What the reader hands back: byte slices have become sequences.\<close>

primrec as_read :: "sval \<Rightarrow> sval" where
  "as_read (SU8 b) = SU8 b"
| "as_read (SU32 w) = SU32 w"
| "as_read (SU64 w) = SU64 w"
| "as_read (SStr s) = SStr s"
| "as_read (SBytes bs) = SSeq (map SU8 bs)"
| "as_read (SSeq vs) = SSeq (map as_read vs)"
| "as_read (STuple vs) = STuple (map as_read vs)"
| "as_read SNone = SNone"
| "as_read (SSome v) = SSome (as_read v)"
| "as_read (SMap kvs) = SMap (map (map_prod as_read as_read) kvs)"
| "as_read (SVariant i vs) = SVariant i (map as_read vs)"

lemma p_take_append [simp]: "length bs = n \<Longrightarrow> p_take n (bs @ r) = Some (bs, r)"
  by (simp add: p_take_def)

lemma p_len_append [simp]: "n < 2 ^ 64 \<Longrightarrow> p_len (le64 (word_of_nat n) @ r) = Some (n, r)"
  by (simp add: p_len_def p_map_def unat_of_nat)

lemma p_repeat_concat:
  assumes "\<And>v r. v \<in> set vs \<Longrightarrow> p (ser v @ r) = Some (g v, r)"
  shows "p_repeat (length vs) p (concat (map ser vs) @ r) = Some (map g vs, r)"
  using assms
  by (induction vs arbitrary: r) (simp_all add: p_ret_def p_bind_def p_map_def)

lemma p_all_concat:
  assumes "list_all2 (\<lambda>p v. \<forall>r. p (ser v @ r) = Some (g v, r)) ps vs"
  shows "p_all ps (concat (map ser vs) @ r) = Some (map g vs, r)"
  using assms
  by (induction arbitrary: r rule: list_all2_induct) (simp_all add: p_ret_def p_bind_def p_map_def)

lemma p_all_Cons:
  "p bs = Some (a, r) \<Longrightarrow>
   p_all (p # ps) bs = (case p_all ps r of None \<Rightarrow> None | Some (vs, r') \<Rightarrow> Some (a # vs, r'))"
  by (simp add: p_bind_def p_map_def)

lemma p_all_Cons_None: "p bs = None \<Longrightarrow> p_all (p # ps) bs = None"
  by (simp add: p_bind_def)

lemma wire_de_HSeq:
  "n < 2 ^ 64 \<Longrightarrow> wire_de (HSeq h) (le64 (word_of_nat n) @ bs) = p_map SSeq (p_repeat n (wire_de h)) bs"
  using p_len_append [of n bs] by (simp add: p_bind_def)

lemma p_repeat_Suc:
  "p_repeat (Suc m) p bs = (case p bs of None \<Rightarrow> None
     | Some (w, r1) \<Rightarrow> (case p_repeat m p r1 of None \<Rightarrow> None | Some (ws, r2) \<Rightarrow> Some (w # ws, r2)))"
  by (simp add: p_bind_def p_map_def split: option.split)

lemma p_repeat_bytes: "p_repeat (length bs) (wire_de HU8) (bs @ r) = Some (map SU8 bs, r)"
  by (induction bs arbitrary: r) (simp_all add: p_ret_def p_bind_def p_map_def p_take_def)

lemma list_all2_map_fits:
  assumes "list_all2 (\<lambda>p. p) (map f hs) vs"
    and "\<And>h v. h \<in> set hs \<Longrightarrow> f h v \<Longrightarrow> Q (d h) v"
  shows "list_all2 Q (map d hs) vs"
  using assms
  by (induction hs arbitrary: vs) (auto simp: list_all2_Cons1)

theorem wire_de_ser: "fits h v \<Longrightarrow> wire_de h (wire_ser v @ r) = Some (as_read v, r)"
proof (induction h arbitrary: v r)
  case HU8
  then show ?case by (auto split: sval.splits simp: p_map_def p_take_def)
next
  case HU32
  then show ?case by (auto split: sval.splits simp: p_map_def)
next
  case HU64
  then show ?case by (auto split: sval.splits simp: p_map_def)
next
  case HStr
  then show ?case by (auto split: sval.splits simp: p_bind_def p_ret_def)
next
  case (HSeq h)
  show ?case
  proof (cases v)
    case (SSeq vs)
    with HSeq.prems have "list_all (fits h) vs" "length vs < 2 ^ 64"
      by simp_all
    then show ?thesis
      using HSeq.IH p_repeat_concat [of vs "wire_de h" wire_ser as_read r]
      by (simp add: SSeq p_bind_def p_map_def list_all_iff)
  next
    case (SBytes bs)
    with HSeq.prems p_repeat_bytes [of bs r] show ?thesis
      by (simp add: p_bind_def p_map_def)
  qed (use HSeq.prems in simp_all)
next
  case (HTuple hs)
  then obtain vs where v: "v = STuple vs" and fit: "list_all2 (\<lambda>p. p) (map fits hs) vs"
    by (auto split: sval.splits)
  have "list_all2 (\<lambda>p v. \<forall>r. p (wire_ser v @ r) = Some (as_read v, r)) (map wire_de hs) vs"
    by (rule list_all2_map_fits [OF fit]) (use HTuple.IH in blast)
  then show ?case
    by (simp add: v p_map_def p_all_concat)
next
  case (HOption h)
  then show ?case
    by (auto split: sval.splits simp: p_bind_def p_ret_def p_map_def p_take_def)
next
  case (HMap hk hv)
  then obtain kvs where v: "v = SMap kvs" and len: "length kvs < 2 ^ 64"
    and fit: "\<forall>kw \<in> set kvs. fits hk (fst kw) \<and> fits hv (snd kw)"
    by (auto split: sval.splits simp: list_all_iff case_prod_beta)
  let ?ser = "\<lambda>kv. wire_ser (fst kv) @ wire_ser (snd kv)"
  have "p_repeat (length kvs) (p_bind (wire_de hk) (\<lambda>k. p_map (Pair k) (wire_de hv)))
          (concat (map ?ser kvs) @ r) = Some (map (map_prod as_read as_read) kvs, r)"
    by (rule p_repeat_concat) (use HMap.IH fit in \<open>auto simp: p_bind_def p_map_def\<close>)
  then show ?case
    using len by (simp add: v p_bind_def p_map_def map_prod_def o_def case_prod_beta)
next
  case (HEnum hss)
  then obtain i vs where v: "v = SVariant i vs" and i: "unat i < length hss"
    and fit: "list_all2 (\<lambda>p. p) (map fits (hss ! unat i)) vs"
    by (auto split: sval.splits)
  have "list_all2 (\<lambda>p v. \<forall>r. p (wire_ser v @ r) = Some (as_read v, r)) (map wire_de (hss ! unat i)) vs"
    by (rule list_all2_map_fits [OF fit]) (use HEnum.IH i nth_mem in blast)
  then show ?case
    using i by (simp add: v p_bind_def p_map_def p_all_concat Let_def)
qed

text \<open>
  Writing is injective on the values one reader understands, with anything after them: the
  format is prefix-free shape by shape.
\<close>

lemma wire_ser_prefix_free:
  assumes "fits h v" "fits h w" "wire_ser v @ r = wire_ser w @ s"
  shows "as_read v = as_read w \<and> r = s"
  using wire_de_ser [OF assms(1), of r] wire_de_ser [OF assms(2), of s] assms(3) by simp

section \<open>The third-party functions\<close>

text \<open>
  A \<^verbatim>\<open>VerifyingKey\<close>, a \<^verbatim>\<open>SigningKey\<close> and a \<^verbatim>\<open>Signature\<close> are represented by the bytes that
  \<^verbatim>\<open>to_bytes\<close> returns for them. \<open>vk_decodes\<close> says which 32 bytes \<^verbatim>\<open>VerifyingKey::from_bytes\<close>
  accepts; \<open>overflow_checks\<close> is the profile setting of that name.
\<close>

record lib =
  sha256 :: "bytes \<Rightarrow> arr32"
  hex_encode :: "bytes \<Rightarrow> string"
  debug_verifying_key :: "arr32 \<Rightarrow> string"
  vk_decodes :: "arr32 \<Rightarrow> bool"
  ed_verify :: "arr32 \<Rightarrow> bytes \<Rightarrow> arr64 \<Rightarrow> bool"
  ed_verifying_key :: "arr32 \<Rightarrow> arr32"
  ed_sign :: "arr32 \<Rightarrow> bytes \<Rightarrow> arr64"
  bincode_serialize :: "sval \<Rightarrow> (bytes, string) outcome"
  bincode_deserialize :: "shape \<Rightarrow> bytes \<Rightarrow> (sval, string) outcome"
  overflow_checks :: bool

text \<open>\<^verbatim>\<open>bincode::serialize\<close> and \<^verbatim>\<open>bincode::deserialize\<close> follow the documented format.\<close>

definition bincode_documented :: "lib \<Rightarrow> bool" where
  "bincode_documented L \<longleftrightarrow>
     (\<forall>v. bincode_serialize L v = Ok (wire_ser v)) \<and>
     (\<forall>h bs. case wire_de h bs of
        Some (v, _) \<Rightarrow> bincode_deserialize L h bs = Ok v
      | None \<Rightarrow> (\<exists>e. bincode_deserialize L h bs = Err e))"

text \<open>A signature made with a key verifies under its public key, which decodes.\<close>

definition dalek_documented :: "lib \<Rightarrow> bool" where
  "dalek_documented L \<longleftrightarrow>
     (\<forall>sk msg. ed_verify L (ed_verifying_key L sk) msg (ed_sign L sk msg)) \<and>
     (\<forall>sk. vk_decodes L (ed_verifying_key L sk))"

definition hex_digit :: "nat \<Rightarrow> char" where
  "hex_digit d = (if d < 10 then char_of (48 + d) else char_of (87 + d))"

text \<open>\<^verbatim>\<open>hex::encode\<close>: two lowercase digits per byte.\<close>

definition hex_documented :: "lib \<Rightarrow> bool" where
  "hex_documented L \<longleftrightarrow>
     (\<forall>bs. hex_encode L bs =
        concat (map (\<lambda>b. [hex_digit (unat b div 16), hex_digit (unat b mod 16)]) bs))"

lemma bincode_ser [simp]: "bincode_documented L \<Longrightarrow> bincode_serialize L v = Ok (wire_ser v)"
  by (simp add: bincode_documented_def)

lemma bincode_de:
  "bincode_documented L \<Longrightarrow>
   case wire_de h bs of
     Some (v, r) \<Rightarrow> bincode_deserialize L h bs = Ok v
   | None \<Rightarrow> (\<exists>e. bincode_deserialize L h bs = Err e)"
  by (simp add: bincode_documented_def)

lemma bincode_de_Some: "bincode_documented L \<Longrightarrow> wire_de h bs = Some (v, r) \<Longrightarrow> bincode_deserialize L h bs = Ok v"
  using bincode_de [of L h bs] by simp

lemma bincode_de_None: "bincode_documented L \<Longrightarrow> wire_de h bs = None \<Longrightarrow> \<exists>e. bincode_deserialize L h bs = Err e"
  using bincode_de [of L h bs] by simp

lemma bincode_de_ser:
  "bincode_documented L \<Longrightarrow> fits h v \<Longrightarrow> bincode_deserialize L h (wire_ser v @ r) = Ok (as_read v)"
  by (simp add: bincode_de_Some wire_de_ser)

lemma hex_digit_inj: "c < 16 \<Longrightarrow> d < 16 \<Longrightarrow> hex_digit c = hex_digit d \<longleftrightarrow> c = d"
  by (auto simp: hex_digit_def char_of_eq_iff take_bit_eq_mod split: if_splits)

lemma hex_length: "hex_documented L \<Longrightarrow> length (hex_encode L bs) = 2 * length bs"
  by (induction bs) (simp_all add: hex_documented_def)

end
