(* ===== verification/Baals_Types.thy ===== *)
theory Baals_Types
  imports Baals_Wire
begin

text \<open>
  \<^verbatim>\<open>src/types.rs\<close>: the chain's data types, the serde impls (derived and hand-written) as maps to
  and from the serde data model, hashing, signing and verification.
\<close>

section \<open>Keys and signatures\<close>

datatype crypto_error =
  HashConversionError | SignatureVerificationFailed | InvalidPublicKey | InvalidSignature

datatype public_key = PublicKey arr32

primrec PublicKey_to_bytes :: "public_key \<Rightarrow> arr32" where
  "PublicKey_to_bytes (PublicKey b) = b"

definition PublicKey_from_bytes :: "lib \<Rightarrow> arr32 \<Rightarrow> (public_key, crypto_error) outcome" where
  "PublicKey_from_bytes L b = (if vk_decodes L b then Ok (PublicKey b) else Err InvalidPublicKey)"

text \<open>\<^verbatim>\<open>impl From<VerifyingKey> for PublicKey\<close> and back.\<close>

definition PublicKey_of_VerifyingKey :: "arr32 \<Rightarrow> public_key" where
  "PublicKey_of_VerifyingKey vk = PublicKey vk"

primrec VerifyingKey_of_PublicKey :: "public_key \<Rightarrow> arr32" where
  "VerifyingKey_of_PublicKey (PublicKey vk) = vk"

datatype transaction_signature = TransactionSignature arr64

primrec TransactionSignature_to_bytes :: "transaction_signature \<Rightarrow> arr64" where
  "TransactionSignature_to_bytes (TransactionSignature s) = s"

definition TransactionSignature_from_bytes :: "arr64 \<Rightarrow> (transaction_signature, crypto_error) outcome" where
  "TransactionSignature_from_bytes b = Ok (TransactionSignature b)"

text \<open>\<^verbatim>\<open>impl From<Signature> for TransactionSignature\<close> and back.\<close>

definition TransactionSignature_of_Signature :: "arr64 \<Rightarrow> transaction_signature" where
  "TransactionSignature_of_Signature sig = TransactionSignature sig"

primrec Signature_of_TransactionSignature :: "transaction_signature \<Rightarrow> arr64" where
  "Signature_of_TransactionSignature (TransactionSignature sig) = sig"

text \<open>\<^verbatim>\<open>PublicKey::verify\<close>; the payload of \<^verbatim>\<open>SignatureError\<close> is opaque.\<close>

definition PublicKey_verify :: "lib \<Rightarrow> public_key \<Rightarrow> bytes \<Rightarrow> arr64 \<Rightarrow> (unit, unit) outcome" where
  "PublicKey_verify L pk message signature =
     (if ed_verify L (PublicKey_to_bytes pk) message signature then Ok () else Err ())"

text \<open>\<^verbatim>\<open>impl Ord for PublicKey\<close>: the order of the byte arrays.\<close>

definition PublicKey_le :: "public_key \<Rightarrow> public_key \<Rightarrow> bool" where
  "PublicKey_le p q \<longleftrightarrow> arr32_bytes (PublicKey_to_bytes p) \<le> arr32_bytes (PublicKey_to_bytes q)"

lemma PublicKey_to_bytes_inject [simp]: "PublicKey_to_bytes p = PublicKey_to_bytes q \<longleftrightarrow> p = q"
  by (cases p; cases q) simp

instantiation public_key :: linorder
begin

definition less_eq_public_key :: "public_key \<Rightarrow> public_key \<Rightarrow> bool" where
  "less_eq_public_key = PublicKey_le"

definition less_public_key :: "public_key \<Rightarrow> public_key \<Rightarrow> bool" where
  "less_public_key p q \<longleftrightarrow> PublicKey_le p q \<and> \<not> PublicKey_le q p"

instance
  by standard
    (auto simp: less_eq_public_key_def less_public_key_def PublicKey_le_def dest: order_antisym)

end

section \<open>Blocks, transactions, accounts\<close>

type_synonym metadata = "(string, string) btree_map option"

datatype contract_id = ContractId arr32

primrec ContractId_to_bytes :: "contract_id \<Rightarrow> arr32" where
  "ContractId_to_bytes (ContractId i) = i"

definition ContractId_from_bytes :: "arr32 \<Rightarrow> contract_id" where
  "ContractId_from_bytes bytes = ContractId bytes"

lemma ContractId_to_bytes_inject [simp]: "ContractId_to_bytes c = ContractId_to_bytes d \<longleftrightarrow> c = d"
  by (cases c; cases d) simp

datatype address = Addr_Wallet public_key | Addr_Contract contract_id

text \<open>\<^verbatim>\<open>impl From<PublicKey> for Address\<close> and \<^verbatim>\<open>impl From<ContractId> for Address\<close>.\<close>

definition Address_of_PublicKey :: "public_key \<Rightarrow> address" where
  "Address_of_PublicKey pk = Addr_Wallet pk"

definition Address_of_ContractId :: "contract_id \<Rightarrow> address" where
  "Address_of_ContractId contract_id = Addr_Contract contract_id"

lemmas conversion_defs [simp] =
  PublicKey_of_VerifyingKey_def TransactionSignature_of_Signature_def ContractId_from_bytes_def
  Address_of_PublicKey_def Address_of_ContractId_def

datatype transaction_payload =
    Transfer u64
  | ContractDeploy bytes
  | ContractCall string bytes
  | Data bytes

record transaction =
  t_hash :: arr32
  t_sender :: public_key
  t_nonce :: u64
  t_timestamp :: u64
  t_recipient :: address
  t_payload :: transaction_payload
  t_signature :: transaction_signature
  t_gas_limit :: u64
  t_priority :: u8
  t_metadata :: metadata

record block =
  b_index :: u64
  b_timestamp :: u64
  b_prev_hash :: arr32
  b_hash :: arr32
  b_nonce :: u64
  b_transactions :: "transaction list"
  b_metadata :: metadata

record chain_state =
  latest_block_hash :: arr32
  latest_block_index :: u64
  accounts_root_hash :: arr32
  total_supply :: u64

datatype account =
    Wallet u64 u64
  | Contract arr32 arr32 u64

primrec Account_nonce :: "account \<Rightarrow> u64" where
  "Account_nonce (Wallet balance nonce) = nonce"
| "Account_nonce (Contract code_hash storage_root_hash nonce) = nonce"

primrec Account_set_nonce :: "u64 \<Rightarrow> account \<Rightarrow> account" where
  "Account_set_nonce new_nonce (Wallet balance nonce) = Wallet balance new_nonce"
| "Account_set_nonce new_nonce (Contract code_hash storage_root_hash nonce) =
     Contract code_hash storage_root_hash new_nonce"

section \<open>Serialize\<close>

definition ser_u8s :: "bytes \<Rightarrow> sval" where
  "ser_u8s bs = SSeq (map SU8 bs)"

definition ser_arr32 :: "arr32 \<Rightarrow> sval" where
  "ser_arr32 h = STuple (map SU8 (arr32_bytes h))"

text \<open>The hand-written impls call \<^verbatim>\<open>serialize_bytes\<close>.\<close>

definition ser_PublicKey :: "public_key \<Rightarrow> sval" where
  "ser_PublicKey pk = SBytes (arr32_bytes (PublicKey_to_bytes pk))"

definition ser_TransactionSignature :: "transaction_signature \<Rightarrow> sval" where
  "ser_TransactionSignature s = SBytes (arr64_bytes (TransactionSignature_to_bytes s))"

definition ser_map :: "(string, string) btree_map \<Rightarrow> sval" where
  "ser_map m = SMap (map (\<lambda>(k, v). (SStr k, SStr v)) m)"

primrec ser_metadata :: "metadata \<Rightarrow> sval" where
  "ser_metadata None = SNone"
| "ser_metadata (Some m) = SSome (ser_map m)"

definition ser_ContractId :: "contract_id \<Rightarrow> sval" where
  "ser_ContractId c = STuple [ser_arr32 (ContractId_to_bytes c)]"

primrec ser_Address :: "address \<Rightarrow> sval" where
  "ser_Address (Addr_Wallet pk) = SVariant 0 [ser_PublicKey pk]"
| "ser_Address (Addr_Contract c) = SVariant 1 [ser_ContractId c]"

primrec ser_TransactionPayload :: "transaction_payload \<Rightarrow> sval" where
  "ser_TransactionPayload (Transfer amount) = SVariant 0 [SU64 amount]"
| "ser_TransactionPayload (ContractDeploy wasm_bytes) = SVariant 1 [ser_u8s wasm_bytes]"
| "ser_TransactionPayload (ContractCall method args) = SVariant 2 [SStr method, ser_u8s args]"
| "ser_TransactionPayload (Data data) = SVariant 3 [ser_u8s data]"

definition ser_Transaction :: "transaction \<Rightarrow> sval" where
  "ser_Transaction tx = STuple
     [ser_arr32 (t_hash tx), ser_PublicKey (t_sender tx), SU64 (t_nonce tx), SU64 (t_timestamp tx),
      ser_Address (t_recipient tx), ser_TransactionPayload (t_payload tx),
      ser_TransactionSignature (t_signature tx), SU64 (t_gas_limit tx), SU8 (t_priority tx),
      ser_metadata (t_metadata tx)]"

definition ser_Transactions :: "transaction list \<Rightarrow> sval" where
  "ser_Transactions txs = SSeq (map ser_Transaction txs)"

definition ser_Block :: "block \<Rightarrow> sval" where
  "ser_Block b = STuple
     [SU64 (b_index b), SU64 (b_timestamp b), ser_arr32 (b_prev_hash b), ser_arr32 (b_hash b),
      SU64 (b_nonce b), ser_Transactions (b_transactions b), ser_metadata (b_metadata b)]"

definition ser_ChainState :: "chain_state \<Rightarrow> sval" where
  "ser_ChainState c = STuple
     [ser_arr32 (latest_block_hash c), SU64 (latest_block_index c),
      ser_arr32 (accounts_root_hash c), SU64 (total_supply c)]"

primrec ser_Account :: "account \<Rightarrow> sval" where
  "ser_Account (Wallet balance nonce) = SVariant 0 [SU64 balance, SU64 nonce]"
| "ser_Account (Contract code_hash storage_root_hash nonce) =
     SVariant 1 [ser_arr32 code_hash, ser_arr32 storage_root_hash, SU64 nonce]"

section \<open>Deserialize\<close>

text \<open>
  \<open>shape_T\<close> is what \<^verbatim>\<open>T::deserialize\<close> asks the format for, \<open>de_T\<close> the visitor that builds the
  value from what comes back. The hand-written impl of \<^verbatim>\<open>PublicKey\<close> asks for \<^verbatim>\<open>[u8; 32]\<close>, a
  tuple, where its \<^verbatim>\<open>Serialize\<close> wrote a byte slice; that of \<^verbatim>\<open>TransactionSignature\<close> asks for
  \<^verbatim>\<open>Vec<u8>\<close>.
\<close>

primrec opt_all :: "'a option list \<Rightarrow> 'a list option" where
  "opt_all [] = Some []"
| "opt_all (x # xs) = (case x of None \<Rightarrow> None
     | Some a \<Rightarrow> (case opt_all xs of None \<Rightarrow> None | Some as \<Rightarrow> Some (a # as)))"

definition shape_arr32 :: shape where "shape_arr32 = HTuple (replicate 32 HU8)"
definition shape_u8s :: shape where "shape_u8s = HSeq HU8"
definition shape_PublicKey :: shape where "shape_PublicKey = shape_arr32"
definition shape_TransactionSignature :: shape where "shape_TransactionSignature = shape_u8s"
definition shape_map :: shape where "shape_map = HMap HStr HStr"
definition shape_metadata :: shape where "shape_metadata = HOption shape_map"
definition shape_ContractId :: shape where "shape_ContractId = HTuple [shape_arr32]"
definition shape_Address :: shape where
  "shape_Address = HEnum [[shape_PublicKey], [shape_ContractId]]"
definition shape_TransactionPayload :: shape where
  "shape_TransactionPayload = HEnum [[HU64], [shape_u8s], [HStr, shape_u8s], [shape_u8s]]"
definition shape_Transaction :: shape where
  "shape_Transaction = HTuple
     [shape_arr32, shape_PublicKey, HU64, HU64, shape_Address, shape_TransactionPayload,
      shape_TransactionSignature, HU64, HU8, shape_metadata]"
definition shape_Block :: shape where
  "shape_Block = HTuple
     [HU64, HU64, shape_arr32, shape_arr32, HU64, HSeq shape_Transaction, shape_metadata]"
definition shape_ChainState :: shape where
  "shape_ChainState = HTuple [shape_arr32, HU64, shape_arr32, HU64]"
definition shape_Account :: shape where
  "shape_Account = HEnum [[HU64, HU64], [shape_arr32, shape_arr32, HU64]]"

fun de_u8 :: "sval \<Rightarrow> u8 option" where
  "de_u8 (SU8 b) = Some b" | "de_u8 _ = None"

fun de_u32 :: "sval \<Rightarrow> u32 option" where
  "de_u32 (SU32 w) = Some w" | "de_u32 _ = None"

fun de_u64 :: "sval \<Rightarrow> u64 option" where
  "de_u64 (SU64 w) = Some w" | "de_u64 _ = None"

fun de_str :: "sval \<Rightarrow> string option" where
  "de_str (SStr s) = Some s" | "de_str _ = None"

fun de_u8s :: "sval \<Rightarrow> bytes option" where
  "de_u8s (SSeq vs) = opt_all (map de_u8 vs)" | "de_u8s _ = None"

fun de_arr32 :: "sval \<Rightarrow> arr32 option" where
  "de_arr32 (STuple vs) = Option.bind (opt_all (map de_u8 vs)) arr32_of_bytes" | "de_arr32 _ = None"

definition de_PublicKey :: "lib \<Rightarrow> sval \<Rightarrow> public_key option" where
  "de_PublicKey L v = Option.bind (de_arr32 v) (\<lambda>b.
     case PublicKey_from_bytes L b of Ok pk \<Rightarrow> Some pk | _ \<Rightarrow> None)"

definition de_TransactionSignature :: "sval \<Rightarrow> transaction_signature option" where
  "de_TransactionSignature v = Option.bind (de_u8s v) (\<lambda>bs.
     if length bs \<noteq> 64 then None
     else Option.bind (arr64_of_bytes bs) (\<lambda>s.
       case TransactionSignature_from_bytes s of Ok sig \<Rightarrow> Some sig | _ \<Rightarrow> None))"

fun de_pair :: "sval \<times> sval \<Rightarrow> (string \<times> string) option" where
  "de_pair (k, v) = Option.bind (de_str k) (\<lambda>a. Option.bind (de_str v) (\<lambda>b. Some (a, b)))"

fun de_map :: "sval \<Rightarrow> (string, string) btree_map option" where
  "de_map (SMap kvs) = map_option bt_collect (opt_all (map de_pair kvs))" | "de_map _ = None"

fun de_metadata :: "sval \<Rightarrow> metadata option" where
  "de_metadata SNone = Some None"
| "de_metadata (SSome v) = map_option Some (de_map v)"
| "de_metadata _ = None"

fun de_ContractId :: "sval \<Rightarrow> contract_id option" where
  "de_ContractId (STuple [v]) = map_option ContractId (de_arr32 v)" | "de_ContractId _ = None"

definition de_Address :: "lib \<Rightarrow> sval \<Rightarrow> address option" where
  "de_Address L v = (case v of
       SVariant i [w] \<Rightarrow>
         (if i = 0 then map_option Addr_Wallet (de_PublicKey L w)
          else if i = 1 then map_option Addr_Contract (de_ContractId w)
          else None)
     | _ \<Rightarrow> None)"

definition de_TransactionPayload :: "sval \<Rightarrow> transaction_payload option" where
  "de_TransactionPayload v = (case v of
       SVariant i [w] \<Rightarrow>
         (if i = 0 then map_option Transfer (de_u64 w)
          else if i = 1 then map_option ContractDeploy (de_u8s w)
          else if i = 3 then map_option Data (de_u8s w)
          else None)
     | SVariant i [w, x] \<Rightarrow>
         (if i = 2 then Option.bind (de_str w) (\<lambda>m. map_option (ContractCall m) (de_u8s x)) else None)
     | _ \<Rightarrow> None)"

definition de_Transaction :: "lib \<Rightarrow> sval \<Rightarrow> transaction option" where
  "de_Transaction L v = (case v of
       STuple [h, s, n, t, r, p, g, l, q, m] \<Rightarrow>
         Option.bind (de_arr32 h) (\<lambda>h. Option.bind (de_PublicKey L s) (\<lambda>s.
         Option.bind (de_u64 n) (\<lambda>n. Option.bind (de_u64 t) (\<lambda>t.
         Option.bind (de_Address L r) (\<lambda>r. Option.bind (de_TransactionPayload p) (\<lambda>p.
         Option.bind (de_TransactionSignature g) (\<lambda>g. Option.bind (de_u64 l) (\<lambda>l.
         Option.bind (de_u8 q) (\<lambda>q. Option.bind (de_metadata m) (\<lambda>m.
           Some \<lparr>t_hash = h, t_sender = s, t_nonce = n, t_timestamp = t, t_recipient = r,
             t_payload = p, t_signature = g, t_gas_limit = l, t_priority = q, t_metadata = m\<rparr>))))))))))
     | _ \<Rightarrow> None)"

fun de_Transactions :: "lib \<Rightarrow> sval \<Rightarrow> transaction list option" where
  "de_Transactions L (SSeq vs) = opt_all (map (de_Transaction L) vs)" | "de_Transactions L _ = None"

definition de_Block :: "lib \<Rightarrow> sval \<Rightarrow> block option" where
  "de_Block L v = (case v of
       STuple [i, t, p, h, n, txs, m] \<Rightarrow>
         Option.bind (de_u64 i) (\<lambda>i. Option.bind (de_u64 t) (\<lambda>t. Option.bind (de_arr32 p) (\<lambda>p.
         Option.bind (de_arr32 h) (\<lambda>h. Option.bind (de_u64 n) (\<lambda>n.
         Option.bind (de_Transactions L txs) (\<lambda>txs. Option.bind (de_metadata m) (\<lambda>m.
           Some \<lparr>b_index = i, b_timestamp = t, b_prev_hash = p, b_hash = h, b_nonce = n,
             b_transactions = txs, b_metadata = m\<rparr>)))))))
     | _ \<Rightarrow> None)"

definition de_ChainState :: "sval \<Rightarrow> chain_state option" where
  "de_ChainState v = (case v of
       STuple [h, i, a, s] \<Rightarrow>
         Option.bind (de_arr32 h) (\<lambda>h. Option.bind (de_u64 i) (\<lambda>i.
         Option.bind (de_arr32 a) (\<lambda>a. Option.bind (de_u64 s) (\<lambda>s.
           Some \<lparr>latest_block_hash = h, latest_block_index = i, accounts_root_hash = a, total_supply = s\<rparr>))))
     | _ \<Rightarrow> None)"

definition de_Account :: "sval \<Rightarrow> account option" where
  "de_Account v = (case v of
       SVariant i [b, n] \<Rightarrow>
         (if i = 0 then Option.bind (de_u64 b) (\<lambda>b. map_option (Wallet b) (de_u64 n)) else None)
     | SVariant i [c, r, n] \<Rightarrow>
         (if i = 1 then Option.bind (de_arr32 c) (\<lambda>c. Option.bind (de_arr32 r) (\<lambda>r.
            map_option (Contract c r) (de_u64 n)))
          else None)
     | _ \<Rightarrow> None)"

text \<open>\<^verbatim>\<open>bincode::deserialize::<T>\<close>: the format's error, or the visitor's.\<close>

definition bincode_read :: "lib \<Rightarrow> shape \<Rightarrow> (sval \<Rightarrow> 'a option) \<Rightarrow> bytes \<Rightarrow> ('a, string) outcome" where
  "bincode_read L h de bs = bind_o (bincode_deserialize L h bs) (\<lambda>v.
     case de v of Some x \<Rightarrow> Ok x | None \<Rightarrow> Err ''custom'')"

section \<open>Hashing and signatures\<close>

definition hash_metadata :: "lib \<Rightarrow> metadata \<Rightarrow> (bytes, crypto_error) outcome" where
  "hash_metadata L m = (case m of
       None \<Rightarrow> Ok []
     | Some md \<Rightarrow> map_err_o (\<lambda>_. HashConversionError) (bincode_serialize L (ser_map md)))"

definition Block_calculate_hash :: "lib \<Rightarrow> block \<Rightarrow> (arr32, crypto_error) outcome" where
  "Block_calculate_hash L b =
     bind_o (map_err_o (\<lambda>_. HashConversionError)
       (bincode_serialize L (ser_Transactions (b_transactions b)))) (\<lambda>serialized_txns.
     bind_o (hash_metadata L (b_metadata b)) (\<lambda>serialized_metadata.
     Ok (sha256 L (le64 (b_index b) @ le64 (b_timestamp b) @ arr32_bytes (b_prev_hash b) @
       le64 (b_nonce b) @ serialized_txns @ serialized_metadata))))"

definition Transaction_calculate_hash :: "lib \<Rightarrow> transaction \<Rightarrow> (arr32, crypto_error) outcome" where
  "Transaction_calculate_hash L tx =
     bind_o (map_err_o (\<lambda>_. HashConversionError)
       (bincode_serialize L (ser_Address (t_recipient tx)))) (\<lambda>serialized_recipient.
     bind_o (map_err_o (\<lambda>_. HashConversionError)
       (bincode_serialize L (ser_TransactionPayload (t_payload tx)))) (\<lambda>serialized_payload.
     bind_o (hash_metadata L (t_metadata tx)) (\<lambda>serialized_metadata.
     Ok (sha256 L (arr32_bytes (PublicKey_to_bytes (t_sender tx)) @ le64 (t_nonce tx) @
       le64 (t_timestamp tx) @ serialized_recipient @ serialized_payload @ serialized_metadata)))))"

definition Transaction_sign :: "lib \<Rightarrow> arr32 \<Rightarrow> (transaction, unit, crypto_error) prog" where
  "Transaction_sign L private_key =
     then_do (reads (Transaction_calculate_hash L)) (\<lambda>h.
     then_do (modify (\<lambda>tx. tx\<lparr>t_hash := h\<rparr>)) (\<lambda>_.
     modify (\<lambda>tx. tx\<lparr>t_signature :=
       TransactionSignature_of_Signature (ed_sign L private_key (arr32_bytes (t_hash tx)))\<rparr>)))"

definition Transaction_verify_signature :: "lib \<Rightarrow> transaction \<Rightarrow> (bool, crypto_error) outcome" where
  "Transaction_verify_signature L tx =
     bind_o (Transaction_calculate_hash L tx) (\<lambda>expected_hash.
     if t_hash tx \<noteq> expected_hash then Ok False
     else Ok (PublicKey_verify L (t_sender tx) (arr32_bytes (t_hash tx))
       (TransactionSignature_to_bytes (t_signature tx)) = Ok ()))"

text \<open>\<^verbatim>\<open>format_hex\<close> is \<^verbatim>\<open>hex::encode\<close> of the 32 bytes.\<close>

definition format_hex :: "lib \<Rightarrow> arr32 \<Rightarrow> string" where
  "format_hex L h = hex_encode L (arr32_bytes h)"

end
