(* ===== verification/Baals_Reference.thy ===== *)
theory Baals_Reference
  imports Baals_Wire
begin

text \<open>
  One instance of the third-party functions that satisfies every documented hypothesis, on
  which the witnesses evaluate: the documented wire format and hex encoding themselves, a
  checksum in place of SHA-256 and a keyed tag in place of Ed25519 signatures (no property of
  the development assumes collision resistance or unforgeability).
\<close>

definition hex_ref :: "bytes \<Rightarrow> string" where
  "hex_ref bs = concat (map (\<lambda>b. [hex_digit (unat b div 16), hex_digit (unat b mod 16)]) bs)"

definition bincode_de_ref :: "shape \<Rightarrow> bytes \<Rightarrow> (sval, string) outcome" where
  "bincode_de_ref h bs = (case wire_de h bs of Some (v, _) \<Rightarrow> Ok v | None \<Rightarrow> Err ''io'')"

definition ref_lib :: lib where
  "ref_lib = \<lparr>
     sha256 = (\<lambda>bs. word_of_nat (sum_list (map unat bs))),
     hex_encode = hex_ref,
     debug_verifying_key = (\<lambda>h. hex_ref (arr32_bytes h)),
     vk_decodes = (\<lambda>_. True),
     ed_verify = (\<lambda>pk msg sig. sig = ucast pk),
     ed_verifying_key = (\<lambda>sk. sk),
     ed_sign = (\<lambda>sk msg. ucast sk),
     bincode_serialize = (\<lambda>v. Ok (wire_ser v)),
     bincode_deserialize = bincode_de_ref,
     overflow_checks = True\<rparr>"

lemma ref_lib_simps [simp]:
  "sha256 ref_lib bs = word_of_nat (sum_list (map unat bs))"
  "hex_encode ref_lib = hex_ref"
  "debug_verifying_key ref_lib h = hex_ref (arr32_bytes h)"
  "vk_decodes ref_lib h = True"
  "ed_verify ref_lib pk msg sig = (sig = ucast pk)"
  "ed_verifying_key ref_lib sk = sk"
  "ed_sign ref_lib sk msg = ucast sk"
  "bincode_serialize ref_lib v = Ok (wire_ser v)"
  "bincode_deserialize ref_lib = bincode_de_ref"
  "overflow_checks ref_lib = True"
  by (simp_all add: ref_lib_def)

lemma ref_bincode [simp]: "bincode_documented ref_lib"
  by (auto simp: bincode_documented_def bincode_de_ref_def split: option.split)

lemma ref_dalek [simp]: "dalek_documented ref_lib"
  by (simp add: dalek_documented_def)

lemma ref_hex [simp]: "hex_documented ref_lib"
  by (simp add: hex_documented_def hex_ref_def)

end
