(* ===== verification/Baals_Codec.thy ===== *)
theory Baals_Codec
  imports Baals_Types Baals_Reference
begin

text \<open>
  What the codecs of \<^verbatim>\<open>src/types.rs\<close> guarantee over the documented wire format: accounts, chain
  states, signatures and transaction-free blocks read back as they were written; public keys,
  and with them transactions, do not. And what the hashes commit to.
\<close>

section \<open>Values of the Rust types\<close>

text \<open>A \<^verbatim>\<open>String\<close> holds valid UTF-8; a \<^verbatim>\<open>BTreeMap\<close> is sorted; lengths are \<^verbatim>\<open>usize\<close>.\<close>

definition string_ok :: "string \<Rightarrow> bool" where
  "string_ok s \<longleftrightarrow> utf8_valid (utf8 s) \<and> length s < 2 ^ 64"

definition map_ok :: "(string, string) btree_map \<Rightarrow> bool" where
  "map_ok m \<longleftrightarrow> bt_sorted m \<and> length m < 2 ^ 64 \<and> list_all (\<lambda>(k, v). string_ok k \<and> string_ok v) m"

definition metadata_ok :: "metadata \<Rightarrow> bool" where
  "metadata_ok m = (case m of None \<Rightarrow> True | Some md \<Rightarrow> map_ok md)"

primrec payload_ok :: "transaction_payload \<Rightarrow> bool" where
  "payload_ok (Transfer amount) = True"
| "payload_ok (ContractDeploy wasm) = (length wasm < 2 ^ 64)"
| "payload_ok (ContractCall method args) = (string_ok method \<and> length args < 2 ^ 64)"
| "payload_ok (Data data) = (length data < 2 ^ 64)"

definition transaction_ok :: "transaction \<Rightarrow> bool" where
  "transaction_ok tx \<longleftrightarrow> payload_ok (t_payload tx) \<and> metadata_ok (t_metadata tx)"

definition block_ok :: "block \<Rightarrow> bool" where
  "block_ok b \<longleftrightarrow> metadata_ok (b_metadata b) \<and> length (b_transactions b) < 2 ^ 64 \<and>
     list_all transaction_ok (b_transactions b)"

section \<open>Visitors undo writers\<close>

named_theorems codec \<open>facts about writing and reading the chain's types\<close>

lemma opt_all_map_Some: "(\<And>x. x \<in> set xs \<Longrightarrow> f x = Some (g x)) \<Longrightarrow> opt_all (map f xs) = Some (map g xs)"
  by (induction xs) auto

lemma opt_all_u8s [codec]: "opt_all (map de_u8 (map SU8 bs)) = Some bs"
  using opt_all_map_Some [of bs "\<lambda>b. de_u8 (SU8 b)" id] by (simp add: o_def)

lemma as_read_u8s [codec]: "map as_read (map SU8 bs) = map SU8 bs"
  by simp

lemma fits_arr32 [codec]: "fits shape_arr32 (ser_arr32 h)"
  by (simp add: shape_arr32_def ser_arr32_def list_all2_conv_all_nth)

lemma de_arr32_ser [codec]: "de_arr32 (as_read (ser_arr32 h)) = Some h"
  by (simp add: ser_arr32_def o_def opt_all_map_Some [where g = id])

lemma fits_u8s [codec]: "fits shape_u8s (ser_u8s bs) \<longleftrightarrow> length bs < 2 ^ 64"
  by (simp add: shape_u8s_def ser_u8s_def list_all_iff)

lemma de_u8s_ser [codec]: "de_u8s (as_read (ser_u8s bs)) = Some bs"
  by (simp add: ser_u8s_def o_def opt_all_map_Some [where g = id])

lemma de_u8s_SBytes [codec]: "de_u8s (as_read (SBytes bs)) = Some bs"
  by (simp add: o_def opt_all_map_Some [where g = id])

lemma fits_SBytes [codec]: "fits shape_u8s (SBytes bs) \<longleftrightarrow> length bs < 2 ^ 64"
  by (simp add: shape_u8s_def)

lemma bt_collect_sorted: "bt_sorted m \<Longrightarrow> bt_collect m = m"
proof -
  have get: "map_of (fold (\<lambda>(k, v). bt_insert k v) kvs a) = map_of (rev kvs @ a)"
    for kvs a :: "('k::linorder \<times> 'v) list"
    by (induction kvs arbitrary: a) (auto simp: map_add_def fun_eq_iff split: option.splits)
  have srt: "bt_sorted a \<Longrightarrow> bt_sorted (fold (\<lambda>(k, v). bt_insert k v) kvs a)"
    for kvs a :: "('k::linorder \<times> 'v) list"
    by (induction kvs arbitrary: a) (auto simp: bt_sorted_insert)
  assume m: "bt_sorted m"
  have "map_of (rev m) = map_of m"
    using bt_sorted_distinct [OF m] by (simp add: map_of_inject_set rev_map [symmetric])
  then have "map_of (bt_collect m) = map_of m"
    using get [of m "[]"] by (simp add: bt_collect_def)
  moreover have "bt_sorted (bt_collect m)"
    using srt [of "[]" m] by (simp add: bt_collect_def)
  ultimately show "bt_collect m = m"
    using m by (blast intro: bt_sorted_unique)
qed

lemma fits_map [codec]: "map_ok m \<Longrightarrow> fits shape_map (ser_map m)"
  by (auto simp: shape_map_def ser_map_def map_ok_def string_ok_def list_all_iff)

lemma de_map_ser [codec]: "map_ok m \<Longrightarrow> de_map (as_read (ser_map m)) = Some m"
  using opt_all_map_Some [of m "\<lambda>x. de_pair (map_prod as_read as_read (case x of (k, v) \<Rightarrow> (SStr k, SStr v)))" id]
  by (auto simp: ser_map_def map_ok_def o_def bt_collect_sorted)

lemma fits_metadata [codec]: "metadata_ok m \<Longrightarrow> fits shape_metadata (ser_metadata m)"
  by (cases m) (simp_all add: shape_metadata_def metadata_ok_def codec)

lemma de_metadata_ser [codec]: "metadata_ok m \<Longrightarrow> de_metadata (as_read (ser_metadata m)) = Some m"
  by (cases m) (simp_all add: metadata_ok_def codec)

lemma bincode_read_ser:
  assumes "bincode_documented L" "fits h v" "de (as_read v) = Some x"
  shows "bincode_read L h de (wire_ser v @ r) = Ok x"
  using assms by (simp add: bincode_read_def bincode_de_ser)

lemmas bincode_read_ser0 = bincode_read_ser [where r = "[]", simplified]

section \<open>Accounts, chain states and signatures read back\<close>

lemma Account_read_back:
  "bincode_documented L \<Longrightarrow> bincode_read L shape_Account de_Account (wire_ser (ser_Account a) @ r) = Ok a"
  by (rule bincode_read_ser; cases a) (simp_all add: shape_Account_def de_Account_def codec)

lemma ChainState_read_back:
  "bincode_documented L \<Longrightarrow>
   bincode_read L shape_ChainState de_ChainState (wire_ser (ser_ChainState c) @ r) = Ok c"
  by (rule bincode_read_ser)
    (simp_all add: ser_ChainState_def shape_ChainState_def de_ChainState_def codec)

lemma TransactionSignature_read_back:
  "bincode_documented L \<Longrightarrow>
   bincode_read L shape_TransactionSignature de_TransactionSignature
     (wire_ser (ser_TransactionSignature s) @ r) = Ok s"
  by (rule bincode_read_ser; cases s)
    (simp_all add: ser_TransactionSignature_def shape_TransactionSignature_def
      de_TransactionSignature_def TransactionSignature_from_bytes_def codec
      del: as_read.simps)

lemma Block_read_back:
  assumes "bincode_documented L" "b_transactions b = []" "metadata_ok (b_metadata b)"
  shows "bincode_read L shape_Block (de_Block L) (wire_ser (ser_Block b) @ r) = Ok b"
  by (rule bincode_read_ser)
    (use assms in \<open>simp_all add: ser_Block_def ser_Transactions_def shape_Block_def de_Block_def codec\<close>)

section \<open>Public keys do not read back\<close>

lemma p_all_u8s:
  "p_all (replicate n (wire_de HU8)) bs =
     (if length bs < n then None else Some (map SU8 (take n bs), drop n bs))"
proof (induction n arbitrary: bs)
  case (Suc n)
  then show ?case
    by (cases bs) (auto simp: p_bind_def p_map_def p_take_def)
qed (simp add: p_ret_def)

lemma wire_de_arr32:
  "wire_de shape_arr32 bs =
     (if length bs < 32 then None else Some (STuple (map SU8 (take 32 bs)), drop 32 bs))"
  by (simp add: shape_arr32_def p_map_def p_all_u8s del: wire_de.simps(1))

text \<open>
  The 40 bytes a key is written as start with the \<^verbatim>\<open>u64\<close> length 32. Reading \<^verbatim>\<open>[u8; 32]\<close> takes
  that length and the first 24 bytes of the key, and leaves the last 8.
\<close>

definition misread_key :: "public_key \<Rightarrow> arr32" where
  "misread_key pk = word_of_nat (of_le_nat (rev (le64 32 @ take 24 (arr32_bytes (PublicKey_to_bytes pk)))))"

lemma misread_key_bytes:
  "arr32_bytes (misread_key pk) = le64 32 @ take 24 (arr32_bytes (PublicKey_to_bytes pk))"
  by (rule arr32_bytes_of_bytes) (simp add: arr32_of_bytes_def misread_key_def)

lemma wire_de_PublicKey:
  "wire_de shape_PublicKey (wire_ser (ser_PublicKey pk) @ r) =
     Some (ser_arr32 (misread_key pk), drop 24 (arr32_bytes (PublicKey_to_bytes pk)) @ r)"
  by (simp add: shape_PublicKey_def wire_de_arr32 ser_PublicKey_def ser_arr32_def misread_key_bytes)

lemma de_PublicKey_misread:
  "de_PublicKey L (ser_arr32 w) = (if vk_decodes L w then Some (PublicKey w) else None)"
  using de_arr32_ser [of w]
  by (simp add: de_PublicKey_def PublicKey_from_bytes_def ser_arr32_def o_def)

lemma PublicKey_misread:
  assumes "bincode_documented L"
  shows "bincode_read L shape_PublicKey (de_PublicKey L) (wire_ser (ser_PublicKey pk) @ r) =
    (if vk_decodes L (misread_key pk) then Ok (PublicKey (misread_key pk)) else Err ''custom'')"
  using assms
  by (simp add: bincode_read_def bincode_de_Some [OF _ wire_de_PublicKey] de_PublicKey_misread)

text \<open>The only keys that survive are \<^verbatim>\<open>[32,0,0,0,0,0,0,0]\<close> four times over.\<close>

lemma misread_key_fixed:
  "misread_key pk = PublicKey_to_bytes pk \<longleftrightarrow>
     arr32_bytes (PublicKey_to_bytes pk) = le64 32 @ le64 32 @ le64 32 @ le64 32"
proof -
  let ?k = "arr32_bytes (PublicKey_to_bytes pk)"
  have "misread_key pk = PublicKey_to_bytes pk \<longleftrightarrow> ?k = le64 32 @ take 24 ?k"
    by (metis misread_key_bytes arr32_bytes_inject)
  also have "\<dots> \<longleftrightarrow> ?k = le64 32 @ le64 32 @ le64 32 @ le64 32"
  proof
    assume k: "?k = le64 32 @ take 24 ?k"
    have *: "take 24 (le64 32 @ xs) = le64 32 @ take 16 xs" "take 16 (le64 32 @ xs) = le64 32 @ take 8 xs"
      "take 8 (le64 32 @ xs) = le64 32" for xs
      by simp_all
    show "?k = le64 32 @ le64 32 @ le64 32 @ le64 32"
      by (subst k, subst k, simp only: *, subst k, simp only: *, subst k, simp only: *)
  next
    assume "?k = le64 32 @ le64 32 @ le64 32 @ le64 32"
    then show "?k = le64 32 @ take 24 ?k"
      by simp
  qed
  finally show ?thesis .
qed

section \<open>Transactions do not read back\<close>

definition low32 :: "u64 \<Rightarrow> u32" where
  "low32 w = word_of_nat (unat w mod 2 ^ 32)"

lemma le64_low32: "\<exists>hi. le64 w = le32 (low32 w) @ hi"
proof -
  have "unat (low32 w) = unat w mod 256 ^ 4"
    by (simp add: low32_def unat_of_nat)
  moreover have "le_nat 4 (x mod 256 ^ 4) = take 4 (le_nat 8 x)" for x
    by (simp add: le_nat_take)
  ultimately show ?thesis
    by (metis le32_def le64_def append_take_drop_id)
qed

text \<open>
  The sender is misread as \<open>misread_key\<close>, so every later field is read 8 bytes early: the tail
  of the key as the nonce, the nonce as the timestamp, the low half of the timestamp as the
  variant tag of the recipient.
\<close>

definition shifted_tail :: "transaction \<Rightarrow> bytes" where
  "shifted_tail tx = concat (map wire_ser
     [SU64 (t_timestamp tx), ser_Address (t_recipient tx), ser_TransactionPayload (t_payload tx),
      ser_TransactionSignature (t_signature tx), SU64 (t_gas_limit tx), SU8 (t_priority tx),
      ser_metadata (t_metadata tx)])"

lemma wire_de_Transaction:
  "wire_de shape_Transaction (wire_ser (ser_Transaction tx) @ r) =
     (case p_all (map wire_de [shape_Address, shape_TransactionPayload, shape_TransactionSignature,
         HU64, HU8, shape_metadata]) (shifted_tail tx @ r) of
        None \<Rightarrow> None
      | Some (vs, r') \<Rightarrow> Some (STuple (ser_arr32 (t_hash tx) # ser_arr32 (misread_key (t_sender tx)) #
          SU64 (of_le64 (drop 24 (arr32_bytes (PublicKey_to_bytes (t_sender tx))))) #
          SU64 (t_nonce tx) # vs), r'))"
proof -
  have ser: "wire_ser (ser_Transaction tx) =
      wire_ser (ser_arr32 (t_hash tx)) @ wire_ser (ser_PublicKey (t_sender tx)) @
      le64 (t_nonce tx) @ shifted_tail tx"
    by (simp add: ser_Transaction_def shifted_tail_def)
  have arr: "wire_de shape_arr32 (wire_ser (ser_arr32 h) @ s) = Some (ser_arr32 h, s)" for h s
    using wire_de_ser [OF fits_arr32, of h s] by (simp add: ser_arr32_def)
  have u64: "length bs = 8 \<Longrightarrow> wire_de HU64 (bs @ s) = Some (SU64 (of_le64 bs), s)" for bs s
    by (simp add: p_map_def)
  define ps where "ps = map wire_de
    [shape_Address, shape_TransactionPayload, shape_TransactionSignature, HU64, HU8, shape_metadata]"
  have shape: "wire_de shape_Transaction =
      p_map STuple (p_all (wire_de shape_arr32 # wire_de shape_PublicKey # wire_de HU64 # wire_de HU64 # ps))"
    by (simp add: shape_Transaction_def ps_def del: p_all.simps)
  show ?thesis
    unfolding ps_def [symmetric] shape ser append_assoc
    by (simp add: p_map_def arr wire_de_PublicKey u64 p_all_Cons del: p_all.simps wire_de.simps
        split: option.split)
qed

lemma Address_tag_too_big:
  assumes "2 \<le> unat (low32 (t_timestamp tx))"
  shows "wire_de shape_Address (shifted_tail tx @ r) = None"
proof -
  obtain hi where "le64 (t_timestamp tx) = le32 (low32 (t_timestamp tx)) @ hi"
    using le64_low32 by blast
  moreover obtain rest where "shifted_tail tx @ r = le64 (t_timestamp tx) @ rest"
    by (simp add: shifted_tail_def)
  ultimately show ?thesis
    using assms by (simp add: shape_Address_def p_bind_def p_none_def)
qed

lemma Transaction_misread_error:
  assumes "bincode_documented L" "2 \<le> unat (low32 (t_timestamp tx))"
  shows "\<exists>e. bincode_read L shape_Transaction (de_Transaction L) (wire_ser (ser_Transaction tx) @ r) = Err e"
proof -
  have "wire_de shape_Transaction (wire_ser (ser_Transaction tx) @ r) = None"
    using Address_tag_too_big [OF assms(2)]
    by (simp add: wire_de_Transaction p_all_Cons_None del: p_all.simps)
  from bincode_de_None [OF assms(1) this] show ?thesis
    by (auto simp: bincode_read_def)
qed

lemma de_Transaction_head:
  "de_Transaction L (STuple (h # s # SU64 n # SU64 t # vs)) = Some tx \<Longrightarrow>
   de_PublicKey L s = Some (t_sender tx) \<and> t_nonce tx = n \<and> t_timestamp tx = t"
  by (auto simp: de_Transaction_def bind_eq_Some_conv split: list.splits)

theorem Transaction_never_reads_back:
  assumes "bincode_documented L"
  shows "bincode_read L shape_Transaction (de_Transaction L) (wire_ser (ser_Transaction tx) @ r) \<noteq> Ok tx"
proof
  assume read: "bincode_read L shape_Transaction (de_Transaction L) (wire_ser (ser_Transaction tx) @ r) = Ok tx"
  let ?k = "arr32_bytes (PublicKey_to_bytes (t_sender tx))"
  from read obtain v where
      v: "bincode_deserialize L shape_Transaction (wire_ser (ser_Transaction tx) @ r) = Ok v"
    and de: "de_Transaction L v = Some tx"
    by (auto simp: bincode_read_def bind_o_Ok_iff split: option.splits)
  then obtain vs where v': "v = STuple (ser_arr32 (t_hash tx) # ser_arr32 (misread_key (t_sender tx)) #
      SU64 (of_le64 (drop 24 ?k)) # SU64 (t_nonce tx) # vs)"
    using bincode_de [OF assms, of shape_Transaction "wire_ser (ser_Transaction tx) @ r"]
    by (auto simp: wire_de_Transaction simp del: p_all.simps list.map split: option.splits)
  from de_Transaction_head [OF de [unfolded v']]
  have key: "PublicKey_to_bytes (t_sender tx) = misread_key (t_sender tx)"
    and nonce: "t_nonce tx = of_le64 (drop 24 ?k)" and time: "t_timestamp tx = t_nonce tx"
    by (auto simp: de_PublicKey_misread split: if_splits) (metis PublicKey_to_bytes.simps)
  from key have "?k = le64 32 @ le64 32 @ le64 32 @ le64 32"
    using misread_key_fixed [of "t_sender tx"] by simp
  with nonce time have "t_timestamp tx = 32"
    by simp
  then have "2 \<le> unat (low32 (t_timestamp tx))"
    by (simp add: low32_def)
  from Transaction_misread_error [OF assms this, of r] read show False
    by auto
qed

lemma de_Transaction_never:
  assumes "bincode_documented L" "wire_de shape_Transaction (wire_ser (ser_Transaction tx) @ r) = Some (v, r')"
  shows "de_Transaction L v \<noteq> Some tx"
  using Transaction_never_reads_back [OF assms(1), of tx r] bincode_de_Some [OF assms]
  by (auto simp: bincode_read_def)

lemma de_Block_transactions:
  "de_Block L (STuple [i, t, p, h, n, txs, m]) = Some b \<Longrightarrow> de_Transactions L txs = Some (b_transactions b)"
  by (auto simp: de_Block_def bind_eq_Some_conv)

text \<open>Nor does a block, once it holds a transaction.\<close>

theorem Block_never_reads_back:
  assumes L: "bincode_documented L" and txs: "b_transactions b = tx # rest" "length (b_transactions b) < 2 ^ 64"
  shows "bincode_read L shape_Block (de_Block L) (wire_ser (ser_Block b)) \<noteq> Ok b"
proof
  assume read: "bincode_read L shape_Block (de_Block L) (wire_ser (ser_Block b)) = Ok b"
  let ?tail = "concat (map (wire_ser \<circ> ser_Transaction) rest) @ wire_ser (ser_metadata (b_metadata b))"
  from read obtain v where v: "bincode_deserialize L shape_Block (wire_ser (ser_Block b)) = Ok v"
    and de: "de_Block L v = Some b"
    by (auto simp: bincode_read_def bind_o_Ok_iff split: option.splits)
  from v obtain r where wire: "wire_de shape_Block (wire_ser (ser_Block b)) = Some (v, r)"
    using bincode_de [OF L, of shape_Block "wire_ser (ser_Block b)"] by (auto split: option.splits)
  have arr: "wire_de shape_arr32 (arr32_bytes h @ s) = Some (ser_arr32 h, s)" for h s
    using wire_de_ser [OF fits_arr32, of h s] by (simp add: ser_arr32_def o_def)
  have u64: "wire_de HU64 (le64 w @ s) = Some (SU64 w, s)" for w s
    by (simp add: p_map_def)
  have seq: "wire_de (HSeq shape_Transaction)
      (le64 (word_of_nat (length (b_transactions b))) @ wire_ser (ser_Transaction tx) @ ?tail) =
      (case wire_de shape_Transaction (wire_ser (ser_Transaction tx) @ ?tail) of
         None \<Rightarrow> None
       | Some (w, r1) \<Rightarrow> (case p_repeat (length rest) (wire_de shape_Transaction) r1 of
           None \<Rightarrow> None | Some (ws, r2) \<Rightarrow> Some (SSeq (w # ws), r2)))"
    unfolding wire_de_HSeq [OF txs(2)] p_map_def
    by (simp add: txs(1) p_repeat_Suc del: p_repeat.simps split: option.split)
  have "wire_ser (ser_Block b) = le64 (b_index b) @ le64 (b_timestamp b) @ arr32_bytes (b_prev_hash b) @
      arr32_bytes (b_hash b) @ le64 (b_nonce b) @ le64 (word_of_nat (length (b_transactions b))) @
      wire_ser (ser_Transaction tx) @ ?tail"
    by (simp add: ser_Block_def ser_Transactions_def ser_arr32_def o_def txs)
  with wire obtain w ws m r1 where vv: "v = STuple [SU64 (b_index b), SU64 (b_timestamp b),
      ser_arr32 (b_prev_hash b), ser_arr32 (b_hash b), SU64 (b_nonce b), SSeq (w # ws), m]"
    and w: "wire_de shape_Transaction (wire_ser (ser_Transaction tx) @ ?tail) = Some (w, r1)"
    by (auto simp: shape_Block_def p_map_def p_all_Cons arr u64 seq p_bind_def
        simp del: wire_de.simps(3,5) p_all.simps(2) split: option.splits)
      (auto simp: seq p_bind_def p_map_def p_ret_def simp del: wire_de.simps(5) split: option.splits)
  from de vv txs have "de_Transaction L w = Some tx"
    by (auto dest!: de_Block_transactions split: option.splits)
  with de_Transaction_never [OF L w] show False
    by simp
qed

section \<open>What the hashes commit to\<close>

text \<open>The bytes under the hash of a transaction and of a block.\<close>

definition metadata_preimage :: "metadata \<Rightarrow> bytes" where
  "metadata_preimage m = (case m of None \<Rightarrow> [] | Some md \<Rightarrow> wire_ser (ser_map md))"

definition transaction_preimage :: "transaction \<Rightarrow> bytes" where
  "transaction_preimage tx =
     arr32_bytes (PublicKey_to_bytes (t_sender tx)) @ le64 (t_nonce tx) @ le64 (t_timestamp tx) @
     wire_ser (ser_Address (t_recipient tx)) @ wire_ser (ser_TransactionPayload (t_payload tx)) @
     metadata_preimage (t_metadata tx)"

definition block_preimage :: "block \<Rightarrow> bytes" where
  "block_preimage b =
     le64 (b_index b) @ le64 (b_timestamp b) @ arr32_bytes (b_prev_hash b) @ le64 (b_nonce b) @
     wire_ser (ser_Transactions (b_transactions b)) @ metadata_preimage (b_metadata b)"

lemma hash_metadata_documented:
  "bincode_documented L \<Longrightarrow> hash_metadata L m = Ok (metadata_preimage m)"
  by (simp add: hash_metadata_def metadata_preimage_def split: option.split)

lemma Transaction_hash_documented:
  "bincode_documented L \<Longrightarrow> Transaction_calculate_hash L tx = Ok (sha256 L (transaction_preimage tx))"
  by (simp add: Transaction_calculate_hash_def transaction_preimage_def hash_metadata_documented)

lemma Block_hash_documented:
  "bincode_documented L \<Longrightarrow> Block_calculate_hash L b = Ok (sha256 L (block_preimage b))"
  by (simp add: Block_calculate_hash_def block_preimage_def hash_metadata_documented)

text \<open>
  The shapes a reader of what the writers really emit would ask for; with them the format's
  prefix-freeness makes the preimages injective.
\<close>

definition written_Address :: shape where
  "written_Address = HEnum [[shape_u8s], [shape_ContractId]]"

definition written_Transaction :: shape where
  "written_Transaction = HTuple
     [shape_arr32, shape_u8s, HU64, HU64, written_Address, shape_TransactionPayload,
      shape_TransactionSignature, HU64, HU8, shape_metadata]"

named_theorems written \<open>the writers fit their written shapes and lose nothing\<close>

lemma SBytes_read_inj [written]: "as_read (SBytes bs) = as_read (SBytes cs) \<longleftrightarrow> bs = cs"
  by (metis de_u8s_SBytes option.inject)

lemma ser_PublicKey_written [written]:
  "fits shape_u8s (ser_PublicKey pk)"
  "as_read (ser_PublicKey pk) = as_read (ser_PublicKey pk') \<longleftrightarrow> pk = pk'"
  by (simp_all add: ser_PublicKey_def written codec del: as_read.simps)

lemma ser_arr32_written [written]: "as_read (ser_arr32 h) = as_read (ser_arr32 h') \<longleftrightarrow> h = h'"
  by (metis de_arr32_ser option.inject)

lemma ser_u8s_written [written]: "as_read (ser_u8s bs) = as_read (ser_u8s cs) \<longleftrightarrow> bs = cs"
  by (metis de_u8s_ser option.inject)

lemma ser_Signature_written [written]:
  "fits shape_TransactionSignature (ser_TransactionSignature s)"
  "as_read (ser_TransactionSignature s) = as_read (ser_TransactionSignature s') \<longleftrightarrow> s = s'"
  by (cases s; cases s'; simp add: ser_TransactionSignature_def shape_TransactionSignature_def
      written codec del: as_read.simps)+

lemma ser_Address_written [written]:
  "fits written_Address (ser_Address a)"
  "as_read (ser_Address a) = as_read (ser_Address a') \<longleftrightarrow> a = a'"
proof -
  have cid: "as_read (ser_ContractId c) = as_read (ser_ContractId c') \<longleftrightarrow> c = c'" for c c'
    by (cases c; cases c') (simp add: ser_ContractId_def written)
  have "fits shape_ContractId (ser_ContractId c)" for c
    by (simp add: ser_ContractId_def shape_ContractId_def codec)
  then show "fits written_Address (ser_Address a)"
    by (cases a) (simp_all add: written_Address_def written)
  show "as_read (ser_Address a) = as_read (ser_Address a') \<longleftrightarrow> a = a'"
    by (cases a; cases a') (simp_all add: written cid)
qed

lemma ser_Payload_written [written]:
  "payload_ok p \<Longrightarrow> fits shape_TransactionPayload (ser_TransactionPayload p)"
  "as_read (ser_TransactionPayload p) = as_read (ser_TransactionPayload p') \<longleftrightarrow> p = p'"
proof -
  show "payload_ok p \<Longrightarrow> fits shape_TransactionPayload (ser_TransactionPayload p)"
    by (cases p) (simp_all add: shape_TransactionPayload_def codec string_ok_def)
  show "as_read (ser_TransactionPayload p) = as_read (ser_TransactionPayload p') \<longleftrightarrow> p = p'"
    by (cases p; cases p') (simp_all add: written)
qed

lemma ser_metadata_written [written]:
  "metadata_ok m \<Longrightarrow> metadata_ok m' \<Longrightarrow>
   as_read (ser_metadata m) = as_read (ser_metadata m') \<longleftrightarrow> m = m'"
  by (metis de_metadata_ser option.inject)

lemma ser_Transaction_fits [written]:
  "transaction_ok tx \<Longrightarrow> fits written_Transaction (ser_Transaction tx)"
  by (simp add: written_Transaction_def ser_Transaction_def transaction_ok_def written codec)

lemma ser_Transaction_inj [written]:
  assumes "transaction_ok tx" "transaction_ok tx'"
    and "as_read (ser_Transaction tx) = as_read (ser_Transaction tx')"
  shows "tx = tx'"
  using assms by (intro transaction.equality) (simp_all add: ser_Transaction_def transaction_ok_def written)

lemma metadata_preimage_inj:
  assumes "metadata_ok m" "metadata_ok m'" "metadata_preimage m = metadata_preimage m'"
  shows "m = m'"
proof -
  have ne: "wire_ser (ser_map md) \<noteq> []" for md
    by (simp add: ser_map_def)
  have inj: "md = md'"
    if "wire_ser (ser_map md) = wire_ser (ser_map md')" "map_ok md" "map_ok md'" for md md'
  proof -
    have "as_read (ser_map md) = as_read (ser_map md')"
      using wire_ser_prefix_free [of shape_map "ser_map md" "ser_map md'" "[]" "[]"] that
      by (simp add: fits_map)
    then have "de_map (as_read (ser_map md)) = de_map (as_read (ser_map md'))"
      by simp
    with that show ?thesis
      by (simp add: de_map_ser)
  qed
  show ?thesis
    using assms ne inj by (cases m; cases m') (simp_all add: metadata_preimage_def metadata_ok_def, metis)
qed

lemma transaction_preimage_inj:
  assumes ok: "transaction_ok tx" "transaction_ok tx'"
    and eq: "transaction_preimage tx = transaction_preimage tx'"
  shows "t_sender tx = t_sender tx' \<and> t_nonce tx = t_nonce tx' \<and> t_timestamp tx = t_timestamp tx' \<and>
    t_recipient tx = t_recipient tx' \<and> t_payload tx = t_payload tx' \<and> t_metadata tx = t_metadata tx'"
proof -
  have head: "PublicKey_to_bytes (t_sender tx) = PublicKey_to_bytes (t_sender tx')"
      "t_nonce tx = t_nonce tx'" "t_timestamp tx = t_timestamp tx'"
    and tail: "wire_ser (ser_Address (t_recipient tx)) @ wire_ser (ser_TransactionPayload (t_payload tx)) @
        metadata_preimage (t_metadata tx) =
      wire_ser (ser_Address (t_recipient tx')) @ wire_ser (ser_TransactionPayload (t_payload tx')) @
        metadata_preimage (t_metadata tx')"
    using eq by (simp_all add: transaction_preimage_def)
  have rcp: "t_recipient tx = t_recipient tx'"
    and tail2: "wire_ser (ser_TransactionPayload (t_payload tx)) @ metadata_preimage (t_metadata tx) =
      wire_ser (ser_TransactionPayload (t_payload tx')) @ metadata_preimage (t_metadata tx')"
    using wire_ser_prefix_free [OF ser_Address_written(1) ser_Address_written(1) tail]
    by (simp_all add: written)
  have pay: "t_payload tx = t_payload tx'"
    and tail3: "metadata_preimage (t_metadata tx) = metadata_preimage (t_metadata tx')"
    using wire_ser_prefix_free [OF ser_Payload_written(1) ser_Payload_written(1) tail2] ok
    by (simp_all add: written transaction_ok_def)
  show ?thesis
    using head rcp pay metadata_preimage_inj [OF _ _ tail3] ok by (simp add: transaction_ok_def)
qed

lemma block_preimage_inj:
  assumes ok: "block_ok b" "block_ok b'" and eq: "block_preimage b = block_preimage b'"
  shows "b = b'\<lparr>b_hash := b_hash b\<rparr>"
proof -
  let ?h = "HSeq written_Transaction"
  have head: "b_index b = b_index b'" "b_timestamp b = b_timestamp b'" "b_prev_hash b = b_prev_hash b'"
      "b_nonce b = b_nonce b'"
    and tail: "wire_ser (ser_Transactions (b_transactions b)) @ metadata_preimage (b_metadata b) =
      wire_ser (ser_Transactions (b_transactions b')) @ metadata_preimage (b_metadata b')"
    using eq by (simp_all add: block_preimage_def)
  have fits: "fits ?h (ser_Transactions (b_transactions c))" if "block_ok c" for c
    using that by (simp add: ser_Transactions_def block_ok_def list_all_iff written)
  have "as_read (ser_Transactions (b_transactions b)) = as_read (ser_Transactions (b_transactions b'))"
    and tail2: "metadata_preimage (b_metadata b) = metadata_preimage (b_metadata b')"
    using wire_ser_prefix_free [OF fits fits tail] ok by simp_all
  then have "map (as_read \<circ> ser_Transaction) (b_transactions b) =
      map (as_read \<circ> ser_Transaction) (b_transactions b')"
    by (simp add: ser_Transactions_def)
  moreover have "inj_on (as_read \<circ> ser_Transaction) (set (b_transactions b) \<union> set (b_transactions b'))"
    using ok by (auto simp: inj_on_def block_ok_def list_all_iff intro: ser_Transaction_inj)
  ultimately have "b_transactions b = b_transactions b'"
    by (simp add: inj_on_map_eq_map)
  moreover have "b_metadata b = b_metadata b'"
    using metadata_preimage_inj [OF _ _ tail2] ok by (simp add: block_ok_def)
  ultimately show ?thesis
    using head by (intro block.equality) simp_all
qed

section \<open>Properties\<close>

text \<open>Two transactions the witnesses use: the second is the first, signed under \<open>ref_lib\<close>.\<close>

definition sample_tx :: transaction where
  "sample_tx = \<lparr>t_hash = 0, t_sender = PublicKey 7, t_nonce = 1, t_timestamp = 5,
     t_recipient = Addr_Wallet (PublicKey 9), t_payload = Transfer 30,
     t_signature = TransactionSignature 0, t_gas_limit = 0, t_priority = 0, t_metadata = None\<rparr>"

definition signed_tx :: transaction where
  "signed_tx = snd (Transaction_sign ref_lib 7 sample_tx)"

lemma sample_tx_ok [simp]: "transaction_ok sample_tx"
  by (simp add: sample_tx_def transaction_ok_def metadata_ok_def)

text \<open>
  C16: signing then verifying succeeds. \<^verbatim>\<open>Transaction::sign\<close> with the sender's own private key
  stores the transaction's hash and a signature of it, changes no other field, and
  \<^verbatim>\<open>verify_signature\<close> accepts the result.
\<close>

theorem sign_then_verify:
  assumes "bincode_documented L" "dalek_documented L"
    and "t_sender tx = PublicKey (ed_verifying_key L sk)"
  shows "\<exists>tx'. Transaction_sign L sk tx = (Ok (), tx') \<and>
    tx' = tx\<lparr>t_hash := t_hash tx', t_signature := t_signature tx'\<rparr> \<and>
    Transaction_calculate_hash L tx = Ok (t_hash tx') \<and>
    Transaction_verify_signature L tx' = Ok True"
proof -
  let ?h = "sha256 L (transaction_preimage tx)"
  let ?tx' = "tx\<lparr>t_hash := ?h, t_signature := TransactionSignature (ed_sign L sk (arr32_bytes ?h))\<rparr>"
  have pre: "transaction_preimage ?tx' = transaction_preimage tx"
    by (simp add: transaction_preimage_def)
  have "Transaction_sign L sk tx = (Ok (), ?tx')"
    using assms(1) by (simp add: Transaction_sign_def Transaction_hash_documented prog_simps)
  moreover have "Transaction_verify_signature L ?tx' = Ok True"
    using assms by (simp add: Transaction_verify_signature_def Transaction_hash_documented pre
        PublicKey_verify_def dalek_documented_def)
  ultimately show ?thesis
    using assms(1) by (intro exI [of _ ?tx']) (simp add: Transaction_hash_documented)
qed

theorem sign_then_verify_witness:
  "\<exists>tx'. Transaction_sign ref_lib 7 sample_tx = (Ok (), tx') \<and>
    tx' = sample_tx\<lparr>t_hash := t_hash tx', t_signature := t_signature tx'\<rparr> \<and>
    Transaction_calculate_hash ref_lib sample_tx = Ok (t_hash tx') \<and>
    Transaction_verify_signature ref_lib tx' = Ok True"
  by (rule sign_then_verify) (simp_all add: sample_tx_def)

text \<open>
  C17: a transaction hash commits to the sender, nonce, timestamp, recipient, payload and
  metadata: two transactions that disagree in one of them and still hash alike are a collision
  of SHA-256 on the two byte strings they are hashed from.
\<close>

theorem transaction_hash_commits:
  assumes "bincode_documented L" "transaction_ok tx" "transaction_ok tx'"
    and "Transaction_calculate_hash L tx = Transaction_calculate_hash L tx'"
  shows "(t_sender tx, t_nonce tx, t_timestamp tx, t_recipient tx, t_payload tx, t_metadata tx) =
         (t_sender tx', t_nonce tx', t_timestamp tx', t_recipient tx', t_payload tx', t_metadata tx') \<or>
    (transaction_preimage tx \<noteq> transaction_preimage tx' \<and>
     sha256 L (transaction_preimage tx) = sha256 L (transaction_preimage tx'))"
  using assms transaction_preimage_inj [OF assms(2,3)] by (auto simp: Transaction_hash_documented)

theorem transaction_hash_commits_witness:
  "Transaction_calculate_hash ref_lib sample_tx = Transaction_calculate_hash ref_lib (sample_tx\<lparr>t_hash := 3\<rparr>) \<and>
   t_nonce sample_tx = t_nonce (sample_tx\<lparr>t_hash := 3\<rparr>)"
proof -
  have eq: "Transaction_calculate_hash ref_lib sample_tx = Transaction_calculate_hash ref_lib (sample_tx\<lparr>t_hash := 3\<rparr>)"
    by (simp add: Transaction_calculate_hash_def)
  have pre: "transaction_preimage sample_tx = transaction_preimage (sample_tx\<lparr>t_hash := 3\<rparr>)"
    by (simp add: transaction_preimage_def)
  have "transaction_ok (sample_tx\<lparr>t_hash := 3\<rparr>)"
    by (simp add: sample_tx_def transaction_ok_def metadata_ok_def)
  from transaction_hash_commits [OF ref_bincode sample_tx_ok this eq] eq pre show ?thesis
    by auto
qed

text \<open>
  C18: a block hash commits to every field of the block but the stored hash itself, all of its
  transactions included, up to a SHA-256 collision of the two preimages.
\<close>

theorem block_hash_commits:
  assumes "bincode_documented L" "block_ok b" "block_ok b'"
    and "Block_calculate_hash L b = Block_calculate_hash L b'"
  shows "b = b'\<lparr>b_hash := b_hash b\<rparr> \<or>
    (block_preimage b \<noteq> block_preimage b' \<and>
     sha256 L (block_preimage b) = sha256 L (block_preimage b'))"
  using assms block_preimage_inj [OF assms(2,3)] by (auto simp: Block_hash_documented)

theorem block_hash_commits_witness:
  "\<exists>b b'. b \<noteq> b' \<and> Block_calculate_hash ref_lib b = Block_calculate_hash ref_lib b' \<and> b = b'\<lparr>b_hash := b_hash b\<rparr>"
proof -
  let ?b = "\<lparr>b_index = 1, b_timestamp = 2, b_prev_hash = 3, b_hash = 4, b_nonce = 0,
    b_transactions = [sample_tx], b_metadata = None\<rparr>"
  let ?c = "?b\<lparr>b_hash := 5\<rparr>"
  have ok: "block_ok ?b" "block_ok ?c"
    by (simp_all add: block_ok_def metadata_ok_def)
  have eq: "Block_calculate_hash ref_lib ?b = Block_calculate_hash ref_lib ?c"
    by (simp add: Block_calculate_hash_def)
  have "block_preimage ?b = block_preimage ?c"
    by (simp add: block_preimage_def)
  with block_hash_commits [OF ref_bincode ok eq] eq show ?thesis
    by (intro exI [of _ ?b] exI [of _ ?c]) simp
qed

text \<open>
  \<^verbatim>\<open>gas_limit\<close> and \<^verbatim>\<open>priority\<close> are outside the signed hash, against the comment on
  \<^verbatim>\<open>calculate_hash\<close> ("all transaction fields except hash and signature"): whoever relays a signed
  transaction can change both and the signature still verifies.
\<close>

theorem gas_limit_and_priority_unsigned:
  "Transaction_verify_signature L (tx\<lparr>t_gas_limit := g, t_priority := p\<rparr>) =
   Transaction_verify_signature L tx"
  by (simp add: Transaction_verify_signature_def Transaction_calculate_hash_def cong: if_cong)

text \<open>
  C26: the two serde impls of \<^verbatim>\<open>PublicKey\<close> do not fit together under bincode. What
  \<^verbatim>\<open>serialize_bytes\<close> writes starts with an 8-byte length, which the \<^verbatim>\<open>[u8; 32]\<close> of \<^verbatim>\<open>deserialize\<close>
  takes for key bytes. Of all keys only the one whose bytes are that length four times over
  is read back as itself.
\<close>

theorem PublicKey_serde_mismatch:
  assumes "bincode_documented L"
  shows "bind_o (bincode_serialize L (ser_PublicKey pk)) (bincode_read L shape_PublicKey (de_PublicKey L)) = Ok pk
    \<longleftrightarrow> vk_decodes L (PublicKey_to_bytes pk) \<and>
        arr32_bytes (PublicKey_to_bytes pk) = le64 32 @ le64 32 @ le64 32 @ le64 32"
  using PublicKey_misread [OF assms, of pk "[]"] misread_key_fixed [of pk] assms
  by (cases pk) auto

theorem PublicKey_serde_mismatch_witness:
  "bind_o (bincode_serialize ref_lib (ser_PublicKey (PublicKey 7)))
     (bincode_read ref_lib shape_PublicKey (de_PublicKey ref_lib)) \<noteq> Ok (PublicKey 7)"
proof -
  have "arr32_bytes 7 \<noteq> le64 32 @ le64 32 @ le64 32 @ le64 32"
    by code_simp
  then show ?thesis
    using PublicKey_serde_mismatch [OF ref_bincode, of "PublicKey 7"] by simp
qed

end
