(* ===== verification/Baals_Storage.thy ===== *)
theory Baals_Storage
  imports Baals_Codec
begin

text \<open>
  \<^verbatim>\<open>src/storage.rs\<close>: the \<^verbatim>\<open>Storage\<close> trait as a record of operations over a state, and its
  implementation \<^verbatim>\<open>SledStorage\<close> over the embedded database \<^verbatim>\<open>sled\<close>, which is a parameter (the
  record \<open>sled\<close>): every database call may fail, and hands back the database as it then is.
\<close>

section \<open>The database interface\<close>

text \<open>
  A \<^verbatim>\<open>Db\<close> dereferences to its default tree; the others are opened by name. \<^verbatim>\<open>scan_prefix\<close> yields
  its items in ascending key order, each of which may be an error.
\<close>

datatype tree = Default_tree | Named_tree string

datatype batch_op = Batch_insert bytes bytes | Batch_remove bytes

record 'db sled =
  sled_open :: "string \<Rightarrow> ('db, unit, string) prog"
  sled_open_tree :: "string \<Rightarrow> ('db, tree, string) prog"
  sled_get :: "tree \<Rightarrow> bytes \<Rightarrow> 'db \<Rightarrow> (bytes option, string) outcome"
  sled_insert :: "tree \<Rightarrow> bytes \<Rightarrow> bytes \<Rightarrow> ('db, bytes option, string) prog"
  sled_remove :: "tree \<Rightarrow> bytes \<Rightarrow> ('db, bytes option, string) prog"
  sled_scan_prefix :: "tree \<Rightarrow> bytes \<Rightarrow> 'db \<Rightarrow> (bytes \<times> bytes, string) outcome list"
  sled_apply_batch :: "tree \<Rightarrow> batch_op list \<Rightarrow> ('db, unit, string) prog"

section \<open>The Storage trait\<close>

datatype storage_error =
    SE_DatabaseError string
  | SE_NotFound
  | SE_SerializationError string
  | SE_CryptoError crypto_error

datatype storage_operation = Put bytes bytes | Delete bytes

type_synonym storage_batch = "storage_operation list"

record 's storage =
  put_block :: "block \<Rightarrow> ('s, unit, storage_error) prog"
  get_block :: "arr32 \<Rightarrow> 's \<Rightarrow> (block option, storage_error) outcome"
  get_latest_block :: "'s \<Rightarrow> (block option, storage_error) outcome"
  get_chain_height :: "'s \<Rightarrow> (u64, storage_error) outcome"
  get_block_by_height :: "u64 \<Rightarrow> 's \<Rightarrow> (block option, storage_error) outcome"
  put_transaction :: "transaction \<Rightarrow> ('s, unit, storage_error) prog"
  get_transaction :: "arr32 \<Rightarrow> 's \<Rightarrow> (transaction option, storage_error) outcome"
  get_pending_transactions :: "'s \<Rightarrow> (transaction list, storage_error) outcome"
  remove_pending_transaction :: "arr32 \<Rightarrow> ('s, unit, storage_error) prog"
  index_transaction :: "arr32 \<Rightarrow> arr32 \<Rightarrow> u32 \<Rightarrow> ('s, unit, storage_error) prog"
  get_transaction_by_id :: "arr32 \<Rightarrow> 's \<Rightarrow> (transaction option, storage_error) outcome"
  get_transactions_by_block :: "arr32 \<Rightarrow> 's \<Rightarrow> (transaction list, storage_error) outcome"
  put_account :: "public_key \<Rightarrow> account \<Rightarrow> ('s, unit, storage_error) prog"
  get_account :: "public_key \<Rightarrow> 's \<Rightarrow> (account option, storage_error) outcome"
  delete_account :: "public_key \<Rightarrow> ('s, unit, storage_error) prog"
  put_chain_state :: "chain_state \<Rightarrow> ('s, unit, storage_error) prog"
  get_chain_state :: "'s \<Rightarrow> (chain_state option, storage_error) outcome"
  put_contract_code :: "contract_id \<Rightarrow> bytes \<Rightarrow> ('s, unit, storage_error) prog"
  get_contract_code :: "contract_id \<Rightarrow> 's \<Rightarrow> (bytes option, storage_error) outcome"
  contract_storage_read :: "contract_id \<Rightarrow> bytes \<Rightarrow> 's \<Rightarrow> (bytes option, storage_error) outcome"
  contract_storage_write :: "contract_id \<Rightarrow> bytes \<Rightarrow> bytes \<Rightarrow> ('s, unit, storage_error) prog"
  contract_storage_remove :: "contract_id \<Rightarrow> bytes \<Rightarrow> ('s, unit, storage_error) prog"
  apply_batch :: "storage_batch \<Rightarrow> ('s, unit, storage_error) prog"

section \<open>SledStorage\<close>

record sled_storage =
  db :: tree
  blocks_tree :: tree
  transactions_tree :: tree
  mempool_tree :: tree
  accounts_tree :: tree
  contract_code_tree :: tree
  contract_storage_tree :: tree
  chain_state_tree :: tree
  tx_by_block_tree :: tree

definition open_tree :: "'db sled \<Rightarrow> string \<Rightarrow> ('db, tree, storage_error) prog" where
  "open_tree S name = map_err SE_DatabaseError (sled_open_tree S name)"

definition SledStorage_new :: "'db sled \<Rightarrow> string \<Rightarrow> ('db, sled_storage, storage_error) prog" where
  "SledStorage_new S path =
     then_do (map_err SE_DatabaseError (sled_open S path)) (\<lambda>_.
     then_do (open_tree S ''blocks'') (\<lambda>blocks.
     then_do (open_tree S ''transactions'') (\<lambda>transactions.
     then_do (open_tree S ''mempool'') (\<lambda>mempool.
     then_do (open_tree S ''accounts'') (\<lambda>accounts.
     then_do (open_tree S ''contract_code'') (\<lambda>contract_code.
     then_do (open_tree S ''contract_storage'') (\<lambda>contract_storage.
     then_do (open_tree S ''chain_state'') (\<lambda>chain_state.
     then_do (open_tree S ''tx_by_block'') (\<lambda>tx_by_block.
     ret \<lparr>db = Default_tree, blocks_tree = blocks, transactions_tree = transactions,
       mempool_tree = mempool, accounts_tree = accounts, contract_code_tree = contract_code,
       contract_storage_tree = contract_storage, chain_state_tree = chain_state,
       tx_by_block_tree = tx_by_block\<rparr>)))))))))"

subsection \<open>Keys\<close>

definition height_key :: "u64 \<Rightarrow> bytes" where
  "height_key height = utf8 (''height:'' @ pad0 20 (unat height))"

definition block_tx_prefix :: "lib \<Rightarrow> arr32 \<Rightarrow> bytes" where
  "block_tx_prefix L block_hash = utf8 (''block_tx:'' @ hex_encode L (arr32_bytes block_hash) @ '':'')"

definition block_tx_key :: "lib \<Rightarrow> arr32 \<Rightarrow> arr32 \<Rightarrow> u32 \<Rightarrow> bytes" where
  "block_tx_key L block_hash tx_hash tx_index = utf8
     (''block_tx:'' @ hex_encode L (arr32_bytes block_hash) @ '':'' @
      hex_encode L (arr32_bytes tx_hash) @ '':'' @ pad0 10 (unat tx_index))"

definition state_key :: "lib \<Rightarrow> contract_id \<Rightarrow> bytes \<Rightarrow> bytes" where
  "state_key L contract_id key = utf8
     (''state:'' @ hex_encode L (arr32_bytes (ContractId_to_bytes contract_id)) @ '':'' @ hex_encode L key)"

definition current_key :: bytes where
  "current_key = utf8 ''global:current''"

subsection \<open>Reading and writing one tree\<close>

definition tree_get :: "'db sled \<Rightarrow> tree \<Rightarrow> bytes \<Rightarrow> 'db \<Rightarrow> (bytes option, storage_error) outcome" where
  "tree_get S t k s = map_err_o SE_DatabaseError (sled_get S t k s)"

definition tree_insert :: "'db sled \<Rightarrow> tree \<Rightarrow> bytes \<Rightarrow> bytes \<Rightarrow> ('db, unit, storage_error) prog" where
  "tree_insert S t k v = then_do (map_err SE_DatabaseError (sled_insert S t k v)) (\<lambda>_. ret ())"

definition tree_remove :: "'db sled \<Rightarrow> tree \<Rightarrow> bytes \<Rightarrow> ('db, unit, storage_error) prog" where
  "tree_remove S t k = then_do (map_err SE_DatabaseError (sled_remove S t k)) (\<lambda>_. ret ())"

definition encode :: "lib \<Rightarrow> sval \<Rightarrow> (bytes, storage_error) outcome" where
  "encode L v = map_err_o SE_SerializationError (bincode_serialize L v)"

definition decode :: "lib \<Rightarrow> shape \<Rightarrow> (sval \<Rightarrow> 'a option) \<Rightarrow> bytes \<Rightarrow> ('a, storage_error) outcome" where
  "decode L h de bs = map_err_o SE_SerializationError (bincode_read L h de bs)"

text \<open>\<^verbatim>\<open>encoded.map(|e| bincode::deserialize(&e)).transpose()?\<close>\<close>

definition decode_opt ::
    "lib \<Rightarrow> shape \<Rightarrow> (sval \<Rightarrow> 'a option) \<Rightarrow> bytes option \<Rightarrow> ('a option, storage_error) outcome" where
  "decode_opt L h de r = (case r of
       None \<Rightarrow> Ok None
     | Some bs \<Rightarrow> bind_o (decode L h de bs) (\<lambda>x. Ok (Some x)))"

subsection \<open>Blocks\<close>

definition SledStorage_put_block :: "lib \<Rightarrow> 'db sled \<Rightarrow> sled_storage \<Rightarrow> block \<Rightarrow> ('db, unit, storage_error) prog" where
  "SledStorage_put_block L S self block =
     then_do (lift (encode L (ser_Block block))) (\<lambda>encoded.
     then_do (tree_insert S (blocks_tree self) (arr32_bytes (b_hash block)) encoded) (\<lambda>_.
     then_do (tree_insert S (blocks_tree self) (height_key (b_index block)) encoded) (\<lambda>_.
     ret ())))"

definition SledStorage_get_block ::
    "lib \<Rightarrow> 'db sled \<Rightarrow> sled_storage \<Rightarrow> arr32 \<Rightarrow> 'db \<Rightarrow> (block option, storage_error) outcome" where
  "SledStorage_get_block L S self hash s =
     bind_o (tree_get S (blocks_tree self) (arr32_bytes hash) s) (decode_opt L shape_Block (de_Block L))"

definition SledStorage_get_latest_block ::
    "lib \<Rightarrow> 'db sled \<Rightarrow> sled_storage \<Rightarrow> 'db \<Rightarrow> (block option, storage_error) outcome" where
  "SledStorage_get_latest_block L S self s =
     (case rev (sled_scan_prefix S (blocks_tree self) (utf8 ''height:'') s) of
        Ok (key, encoded) # iter \<Rightarrow> bind_o (decode L shape_Block (de_Block L) encoded) (\<lambda>b. Ok (Some b))
      | _ \<Rightarrow> Ok None)"

definition SledStorage_get_chain_height ::
    "lib \<Rightarrow> 'db sled \<Rightarrow> sled_storage \<Rightarrow> 'db \<Rightarrow> (u64, storage_error) outcome" where
  "SledStorage_get_chain_height L S self s =
     bind_o (SledStorage_get_latest_block L S self s) (\<lambda>r.
     Ok (case r of None \<Rightarrow> 0 | Some b \<Rightarrow> b_index b))"

definition SledStorage_get_block_by_height ::
    "lib \<Rightarrow> 'db sled \<Rightarrow> sled_storage \<Rightarrow> u64 \<Rightarrow> 'db \<Rightarrow> (block option, storage_error) outcome" where
  "SledStorage_get_block_by_height L S self height s =
     bind_o (tree_get S (blocks_tree self) (height_key height) s) (decode_opt L shape_Block (de_Block L))"

subsection \<open>Transactions\<close>

definition SledStorage_put_transaction ::
    "lib \<Rightarrow> 'db sled \<Rightarrow> sled_storage \<Rightarrow> transaction \<Rightarrow> ('db, unit, storage_error) prog" where
  "SledStorage_put_transaction L S self tx =
     then_do (lift (encode L (ser_Transaction tx))) (\<lambda>encoded.
     then_do (tree_insert S (transactions_tree self) (arr32_bytes (t_hash tx)) encoded) (\<lambda>_.
     ret ()))"

definition SledStorage_get_transaction ::
    "lib \<Rightarrow> 'db sled \<Rightarrow> sled_storage \<Rightarrow> arr32 \<Rightarrow> 'db \<Rightarrow> (transaction option, storage_error) outcome" where
  "SledStorage_get_transaction L S self tx_hash s =
     bind_o (tree_get S (transactions_tree self) (arr32_bytes tx_hash) s)
       (decode_opt L shape_Transaction (de_Transaction L))"

text \<open>The loop of \<^verbatim>\<open>get_pending_transactions\<close>: the first failing item or decode ends it.\<close>

fun pending_loop ::
    "lib \<Rightarrow> (bytes \<times> bytes, string) outcome list \<Rightarrow> transaction list \<Rightarrow>
     (transaction list, storage_error) outcome" where
  "pending_loop L [] transactions = Ok transactions"
| "pending_loop L (item # items) transactions =
     bind_o (map_err_o SE_DatabaseError item) (\<lambda>(key, encoded).
     bind_o (decode L shape_Transaction (de_Transaction L) encoded) (\<lambda>tx.
     pending_loop L items (transactions @ [tx])))"

definition SledStorage_get_pending_transactions ::
    "lib \<Rightarrow> 'db sled \<Rightarrow> sled_storage \<Rightarrow> 'db \<Rightarrow> (transaction list, storage_error) outcome" where
  "SledStorage_get_pending_transactions L S self s =
     pending_loop L (sled_scan_prefix S (mempool_tree self) (utf8 ''pending:'') s) []"

definition SledStorage_remove_pending_transaction ::
    "'db sled \<Rightarrow> sled_storage \<Rightarrow> arr32 \<Rightarrow> ('db, unit, storage_error) prog" where
  "SledStorage_remove_pending_transaction S self tx_hash =
     tree_remove S (mempool_tree self) (arr32_bytes tx_hash)"

definition SledStorage_index_transaction ::
    "lib \<Rightarrow> 'db sled \<Rightarrow> sled_storage \<Rightarrow> arr32 \<Rightarrow> arr32 \<Rightarrow> u32 \<Rightarrow> ('db, unit, storage_error) prog" where
  "SledStorage_index_transaction L S self tx_hash block_hash tx_index_in_block =
     tree_insert S (tx_by_block_tree self) (block_tx_key L block_hash tx_hash tx_index_in_block)
       (arr32_bytes tx_hash)"

definition SledStorage_get_transaction_by_id ::
    "lib \<Rightarrow> 'db sled \<Rightarrow> sled_storage \<Rightarrow> arr32 \<Rightarrow> 'db \<Rightarrow> (transaction option, storage_error) outcome" where
  "SledStorage_get_transaction_by_id L S self tx_hash s =
     bind_o (tree_get S (transactions_tree self) (arr32_bytes tx_hash) s)
       (decode_opt L shape_Transaction (de_Transaction L))"

fun by_block_loop ::
    "lib \<Rightarrow> 'db sled \<Rightarrow> sled_storage \<Rightarrow> 'db \<Rightarrow> (bytes \<times> bytes, string) outcome list \<Rightarrow> transaction list \<Rightarrow>
     (transaction list, storage_error) outcome" where
  "by_block_loop L S self s [] transactions = Ok transactions"
| "by_block_loop L S self s (item # items) transactions =
     bind_o (map_err_o SE_DatabaseError item) (\<lambda>(key, tx_hash_bytes).
     case arr32_of_bytes tx_hash_bytes of
       None \<Rightarrow> Err (SE_CryptoError HashConversionError)
     | Some tx_hash \<Rightarrow>
         bind_o (SledStorage_get_transaction L S self tx_hash s) (\<lambda>found.
         by_block_loop L S self s items
           (case found of None \<Rightarrow> transactions | Some tx \<Rightarrow> transactions @ [tx])))"

definition SledStorage_get_transactions_by_block ::
    "lib \<Rightarrow> 'db sled \<Rightarrow> sled_storage \<Rightarrow> arr32 \<Rightarrow> 'db \<Rightarrow> (transaction list, storage_error) outcome" where
  "SledStorage_get_transactions_by_block L S self block_hash s =
     by_block_loop L S self s (sled_scan_prefix S (tx_by_block_tree self) (block_tx_prefix L block_hash) s) []"

subsection \<open>Accounts, chain state, contracts\<close>

definition SledStorage_put_account ::
    "lib \<Rightarrow> 'db sled \<Rightarrow> sled_storage \<Rightarrow> public_key \<Rightarrow> account \<Rightarrow> ('db, unit, storage_error) prog" where
  "SledStorage_put_account L S self address account =
     then_do (lift (encode L (ser_Account account))) (\<lambda>encoded.
     then_do (tree_insert S (accounts_tree self) (arr32_bytes (PublicKey_to_bytes address)) encoded) (\<lambda>_.
     ret ()))"

definition SledStorage_get_account ::
    "lib \<Rightarrow> 'db sled \<Rightarrow> sled_storage \<Rightarrow> public_key \<Rightarrow> 'db \<Rightarrow> (account option, storage_error) outcome" where
  "SledStorage_get_account L S self address s =
     bind_o (tree_get S (accounts_tree self) (arr32_bytes (PublicKey_to_bytes address)) s)
       (decode_opt L shape_Account de_Account)"

definition SledStorage_delete_account ::
    "'db sled \<Rightarrow> sled_storage \<Rightarrow> public_key \<Rightarrow> ('db, unit, storage_error) prog" where
  "SledStorage_delete_account S self address =
     tree_remove S (accounts_tree self) (arr32_bytes (PublicKey_to_bytes address))"

definition SledStorage_put_chain_state ::
    "lib \<Rightarrow> 'db sled \<Rightarrow> sled_storage \<Rightarrow> chain_state \<Rightarrow> ('db, unit, storage_error) prog" where
  "SledStorage_put_chain_state L S self state =
     then_do (lift (encode L (ser_ChainState state))) (\<lambda>encoded.
     then_do (tree_insert S (chain_state_tree self) current_key encoded) (\<lambda>_.
     ret ()))"

definition SledStorage_get_chain_state ::
    "lib \<Rightarrow> 'db sled \<Rightarrow> sled_storage \<Rightarrow> 'db \<Rightarrow> (chain_state option, storage_error) outcome" where
  "SledStorage_get_chain_state L S self s =
     bind_o (tree_get S (chain_state_tree self) current_key s) (decode_opt L shape_ChainState de_ChainState)"

definition SledStorage_put_contract_code ::
    "'db sled \<Rightarrow> sled_storage \<Rightarrow> contract_id \<Rightarrow> bytes \<Rightarrow> ('db, unit, storage_error) prog" where
  "SledStorage_put_contract_code S self contract_id wasm_bytes =
     tree_insert S (contract_code_tree self) (arr32_bytes (ContractId_to_bytes contract_id)) wasm_bytes"

definition SledStorage_get_contract_code ::
    "'db sled \<Rightarrow> sled_storage \<Rightarrow> contract_id \<Rightarrow> 'db \<Rightarrow> (bytes option, storage_error) outcome" where
  "SledStorage_get_contract_code S self contract_id s =
     tree_get S (contract_code_tree self) (arr32_bytes (ContractId_to_bytes contract_id)) s"

definition SledStorage_contract_storage_read ::
    "lib \<Rightarrow> 'db sled \<Rightarrow> sled_storage \<Rightarrow> contract_id \<Rightarrow> bytes \<Rightarrow> 'db \<Rightarrow> (bytes option, storage_error) outcome" where
  "SledStorage_contract_storage_read L S self contract_id key s =
     tree_get S (contract_storage_tree self) (state_key L contract_id key) s"

definition SledStorage_contract_storage_write ::
    "lib \<Rightarrow> 'db sled \<Rightarrow> sled_storage \<Rightarrow> contract_id \<Rightarrow> bytes \<Rightarrow> bytes \<Rightarrow> ('db, unit, storage_error) prog" where
  "SledStorage_contract_storage_write L S self contract_id key value =
     tree_insert S (contract_storage_tree self) (state_key L contract_id key) value"

definition SledStorage_contract_storage_remove ::
    "lib \<Rightarrow> 'db sled \<Rightarrow> sled_storage \<Rightarrow> contract_id \<Rightarrow> bytes \<Rightarrow> ('db, unit, storage_error) prog" where
  "SledStorage_contract_storage_remove L S self contract_id key =
     tree_remove S (contract_storage_tree self) (state_key L contract_id key)"

subsection \<open>Batches\<close>

primrec batch_of :: "storage_operation \<Rightarrow> batch_op" where
  "batch_of (Put key value) = Batch_insert key value"
| "batch_of (Delete key) = Batch_remove key"

text \<open>\<^verbatim>\<open>self.db.apply_batch\<close>: the batch goes to the default tree of the \<^verbatim>\<open>Db\<close>.\<close>

definition SledStorage_apply_batch ::
    "'db sled \<Rightarrow> sled_storage \<Rightarrow> storage_batch \<Rightarrow> ('db, unit, storage_error) prog" where
  "SledStorage_apply_batch S self batch =
     then_do (map_err SE_DatabaseError (sled_apply_batch S (db self) (map batch_of batch))) (\<lambda>_. ret ())"

subsection \<open>The trait implementation\<close>

definition SledStorage :: "lib \<Rightarrow> 'db sled \<Rightarrow> sled_storage \<Rightarrow> 'db storage" where
  "SledStorage L S self = \<lparr>
     put_block = SledStorage_put_block L S self,
     get_block = SledStorage_get_block L S self,
     get_latest_block = SledStorage_get_latest_block L S self,
     get_chain_height = SledStorage_get_chain_height L S self,
     get_block_by_height = SledStorage_get_block_by_height L S self,
     put_transaction = SledStorage_put_transaction L S self,
     get_transaction = SledStorage_get_transaction L S self,
     get_pending_transactions = SledStorage_get_pending_transactions L S self,
     remove_pending_transaction = SledStorage_remove_pending_transaction S self,
     index_transaction = SledStorage_index_transaction L S self,
     get_transaction_by_id = SledStorage_get_transaction_by_id L S self,
     get_transactions_by_block = SledStorage_get_transactions_by_block L S self,
     put_account = SledStorage_put_account L S self,
     get_account = SledStorage_get_account L S self,
     delete_account = SledStorage_delete_account S self,
     put_chain_state = SledStorage_put_chain_state L S self,
     get_chain_state = SledStorage_get_chain_state L S self,
     put_contract_code = SledStorage_put_contract_code S self,
     get_contract_code = SledStorage_get_contract_code S self,
     contract_storage_read = SledStorage_contract_storage_read L S self,
     contract_storage_write = SledStorage_contract_storage_write L S self,
     contract_storage_remove = SledStorage_contract_storage_remove L S self,
     apply_batch = SledStorage_apply_batch S self\<rparr>"

lemma SledStorage_sel [simp]:
  "put_block (SledStorage L S self) = SledStorage_put_block L S self"
  "get_block (SledStorage L S self) = SledStorage_get_block L S self"
  "get_latest_block (SledStorage L S self) = SledStorage_get_latest_block L S self"
  "get_chain_height (SledStorage L S self) = SledStorage_get_chain_height L S self"
  "get_block_by_height (SledStorage L S self) = SledStorage_get_block_by_height L S self"
  "put_transaction (SledStorage L S self) = SledStorage_put_transaction L S self"
  "get_transaction (SledStorage L S self) = SledStorage_get_transaction L S self"
  "get_pending_transactions (SledStorage L S self) = SledStorage_get_pending_transactions L S self"
  "remove_pending_transaction (SledStorage L S self) = SledStorage_remove_pending_transaction S self"
  "index_transaction (SledStorage L S self) = SledStorage_index_transaction L S self"
  "get_transaction_by_id (SledStorage L S self) = SledStorage_get_transaction_by_id L S self"
  "get_transactions_by_block (SledStorage L S self) = SledStorage_get_transactions_by_block L S self"
  "put_account (SledStorage L S self) = SledStorage_put_account L S self"
  "get_account (SledStorage L S self) = SledStorage_get_account L S self"
  "delete_account (SledStorage L S self) = SledStorage_delete_account S self"
  "put_chain_state (SledStorage L S self) = SledStorage_put_chain_state L S self"
  "get_chain_state (SledStorage L S self) = SledStorage_get_chain_state L S self"
  "put_contract_code (SledStorage L S self) = SledStorage_put_contract_code S self"
  "get_contract_code (SledStorage L S self) = SledStorage_get_contract_code S self"
  "contract_storage_read (SledStorage L S self) = SledStorage_contract_storage_read L S self"
  "contract_storage_write (SledStorage L S self) = SledStorage_contract_storage_write L S self"
  "contract_storage_remove (SledStorage L S self) = SledStorage_contract_storage_remove L S self"
  "apply_batch (SledStorage L S self) = SledStorage_apply_batch S self"
  by (simp_all add: SledStorage_def)

end
