(* ===== verification/Baals_Sled.thy ===== *)
theory Baals_Sled
  imports Baals_Storage
begin

text \<open>
  The interface between \<^verbatim>\<open>SledStorage\<close> and the database: what \<^verbatim>\<open>sled\<close> documents of its trees
  (\<open>sled_store\<close>), the same with no I/O failure (\<open>reliable_sled\<close>), and an in-memory ordered map
  that has all of it.
\<close>

section \<open>What sled documents\<close>

text \<open>One operation of a batch, on the contents of one tree.\<close>

primrec batch_step :: "batch_op \<Rightarrow> (bytes \<rightharpoonup> bytes) \<Rightarrow> (bytes \<rightharpoonup> bytes)" where
  "batch_step (Batch_insert k v) m = m(k \<mapsto> v)"
| "batch_step (Batch_remove k) m = m(k := None)"

text \<open>
  \<open>view s t\<close> is the contents of tree \<open>t\<close> in the database \<open>s\<close>. A call that succeeds has its
  effect on its own tree only; one that fails has either all of its effect or none (batches are
  atomic). An iterator visits the keys with the prefix in ascending order; any item may turn
  out to be an error.
\<close>

locale sled_store =
  fixes S :: "'db sled" and view :: "'db \<Rightarrow> tree \<Rightarrow> bytes \<Rightarrow> bytes option"
  assumes get_view: "sled_get S t k s = Ok found \<Longrightarrow> found = view s t k"
    and insert_view: "sled_insert S t k v s = (Ok u, s') \<Longrightarrow> view s' = (view s)(t := (view s t)(k \<mapsto> v))"
    and insert_any: "sled_insert S t k v s = (r, s') \<Longrightarrow>
      view s' = view s \<or> view s' = (view s)(t := (view s t)(k \<mapsto> v))"
    and remove_view: "sled_remove S t k s = (Ok u, s') \<Longrightarrow> view s' = (view s)(t := (view s t)(k := None))"
    and remove_any: "sled_remove S t k s = (r, s') \<Longrightarrow>
      view s' = view s \<or> view s' = (view s)(t := (view s t)(k := None))"
    and batch_view: "sled_apply_batch S t ops s = (Ok w, s') \<Longrightarrow>
      view s' = (view s)(t := fold batch_step ops (view s t))"
    and batch_any: "sled_apply_batch S t ops s = (q, s') \<Longrightarrow>
      view s' = view s \<or> view s' = (view s)(t := fold batch_step ops (view s t))"
    and open_view: "sled_open S path s = (q, s') \<Longrightarrow> view s' = view s"
    and open_tree_view: "sled_open_tree S name s = (x, s') \<Longrightarrow> view s' = view s"
    and open_tree_name: "sled_open_tree S name s = (Ok t, s') \<Longrightarrow> t = Named_tree name"
    and scan_view: "\<exists>kvs. sorted_wrt (<) (map fst kvs) \<and>
      set kvs = {(k, v). view s t k = Some v \<and> prefix p k} \<and>
      list_all2 (\<lambda>item kv. item = Ok kv \<or> (\<exists>e. item = Err e)) (sled_scan_prefix S t p s) kvs"
begin

text \<open>A call on one tree never changes the contents of another.\<close>

lemma insert_other: "sled_insert S t k v s = (r, s') \<Longrightarrow> t' \<noteq> t \<Longrightarrow> view s' t' = view s t'"
  using insert_any [of t k v s r s'] by auto

lemma remove_other: "sled_remove S t k s = (r, s') \<Longrightarrow> t' \<noteq> t \<Longrightarrow> view s' t' = view s t'"
  using remove_any [of t k s r s'] by auto

lemma batch_other: "sled_apply_batch S t ops s = (r, s') \<Longrightarrow> t' \<noteq> t \<Longrightarrow> view s' t' = view s t'"
  using batch_any [of t ops s r s'] by auto

lemma tree_insert_Ok: "tree_insert S t k v s = (Ok (), s') \<Longrightarrow> view s' = (view s)(t := (view s t)(k \<mapsto> v))"
  by (auto simp: tree_insert_def then_do_Ok_iff map_err_Ok_iff ret_def dest: insert_view)

lemma tree_remove_Ok: "tree_remove S t k s = (Ok (), s') \<Longrightarrow> view s' = (view s)(t := (view s t)(k := None))"
  by (auto simp: tree_remove_def then_do_Ok_iff map_err_Ok_iff ret_def dest: remove_view)

text \<open>A failed write has had its effect or none.\<close>

lemma tree_insert_any:
  assumes "tree_insert S t k v s = (r, s')"
  shows "view s' = (view s)(t := (view s t)(k \<mapsto> v)) \<or> r \<noteq> Ok () \<and> view s' = view s"
proof -
  obtain q u where q: "sled_insert S t k v s = (q, u)"
    by (rule prod.exhaust)
  with assms have u: "u = s'"
    by (cases q) (simp_all add: tree_insert_def then_do_def map_err_def prog_simps)
  show ?thesis
  proof (cases q)
    case (Ok x)
    show ?thesis
      using insert_view [OF q [unfolded Ok u]] by simp
  qed (use assms q insert_any [OF q] u in \<open>auto simp: tree_insert_def then_do_def map_err_def\<close>)
qed

lemma tree_remove_any:
  assumes "tree_remove S t k s = (r, s')"
  shows "view s' = (view s)(t := (view s t)(k := None)) \<or> view s' = view s"
proof -
  obtain q u where q: "sled_remove S t k s = (q, u)"
    by (rule prod.exhaust)
  with assms have "u = s'"
    by (cases q) (simp_all add: tree_remove_def then_do_def map_err_def prog_simps)
  with remove_any [OF q] show ?thesis
    by auto
qed

lemma keeps_tree_insert [keeps_rules]: "t' \<noteq> t \<Longrightarrow> keeps (\<lambda>s. view s t') (tree_insert S t k v)"
  unfolding tree_insert_def by (intro keeps_rules) (blast intro: keepsI insert_other)

lemma keeps_tree_remove [keeps_rules]: "t' \<noteq> t \<Longrightarrow> keeps (\<lambda>s. view s t') (tree_remove S t k)"
  unfolding tree_remove_def by (intro keeps_rules) (blast intro: keepsI remove_other)

end

text \<open>The same database while no I/O error occurs.\<close>

locale reliable_sled = sled_store S view
  for S :: "'db sled" and view :: "'db \<Rightarrow> tree \<Rightarrow> bytes \<Rightarrow> bytes option" +
  assumes get_ok: "sled_get S t k s = Ok (view s t k)"
    and insert_ok: "\<exists>u s'. sled_insert S t k v s = (Ok u, s')"
    and remove_ok: "\<exists>u s'. sled_remove S t k s = (Ok u, s')"
    and batch_ok: "\<exists>s'. sled_apply_batch S t ops s = (Ok (), s')"
    and open_ok: "\<exists>s'. sled_open S path s = (Ok (), s')"
    and open_tree_ok: "\<exists>s'. sled_open_tree S name s = (Ok (Named_tree name), s')"
    and scan_ok: "list_all (\<lambda>item. \<exists>kv. item = Ok kv) (sled_scan_prefix S t p s)"
begin

lemma tree_get_ok [prog_simps]: "tree_get S t k s = Ok (view s t k)"
  by (simp add: tree_get_def get_ok)

lemma tree_insert_ok:
  "\<exists>s'. tree_insert S t k v s = (Ok (), s') \<and> view s' = (view s)(t := (view s t)(k \<mapsto> v))"
proof -
  obtain u s' where "sled_insert S t k v s = (Ok u, s')"
    using insert_ok by blast
  then show ?thesis
    by (auto simp: tree_insert_def prog_simps map_err_def then_do_def dest: insert_view)
qed

lemma tree_remove_ok:
  "\<exists>s'. tree_remove S t k s = (Ok (), s') \<and> view s' = (view s)(t := (view s t)(k := None))"
proof -
  obtain u s' where "sled_remove S t k s = (Ok u, s')"
    using remove_ok by blast
  then show ?thesis
    by (auto simp: tree_remove_def prog_simps map_err_def then_do_def dest: remove_view)
qed

lemma tree_insert_total [simp]: "\<exists>s'. tree_insert S t k v s = (Ok (), s')"
  using tree_insert_ok by blast

lemma tree_remove_total [simp]: "\<exists>s'. tree_remove S t k s = (Ok (), s')"
  using tree_remove_ok by blast

text \<open>A scan returns exactly the entries with the prefix, in ascending key order.\<close>

lemma scan_items:
  obtains kvs where "sled_scan_prefix S t p s = map Ok kvs" "sorted_wrt (<) (map fst kvs)"
    "set kvs = {(k, v). view s t k = Some v \<and> prefix p k}"
proof -
  obtain kvs where kvs: "sorted_wrt (<) (map fst kvs)"
      "set kvs = {(k, v). view s t k = Some v \<and> prefix p k}"
      "list_all2 (\<lambda>item kv. item = Ok kv \<or> (\<exists>e. item = Err e)) (sled_scan_prefix S t p s) kvs"
    using scan_view by blast
  have "list_all2 (\<lambda>item kv. item = Ok kv) items kvs"
    if "list_all2 (\<lambda>item kv. item = Ok kv \<or> (\<exists>e. item = Err e)) items kvs"
      "list_all (\<lambda>item. \<exists>kv. item = Ok kv) items" for items
    using that by (induction rule: list_all2_induct) auto
  from this [OF kvs(3) scan_ok] have "sled_scan_prefix S t p s = map Ok kvs"
    by (auto simp: list_all2_conv_all_nth intro!: nth_equalityI)
  then show thesis
    using kvs(1,2) by (rule that)
qed

text \<open>A scan depends only on the entries under its prefix.\<close>

lemma scan_cong:
  assumes "\<And>k. prefix p k \<Longrightarrow> view s t k = view s' t k"
  shows "sled_scan_prefix S t p s = sled_scan_prefix S t p s'"
proof -
  obtain kvs where kvs: "sled_scan_prefix S t p s = map Ok kvs" "sorted_wrt (<) (map fst kvs)"
      "set kvs = {(k, v). view s t k = Some v \<and> prefix p k}"
    by (rule scan_items)
  obtain kvs' where kvs': "sled_scan_prefix S t p s' = map Ok kvs'" "sorted_wrt (<) (map fst kvs')"
      "set kvs' = {(k, v). view s' t k = Some v \<and> prefix p k}"
    by (rule scan_items)
  have "map_of kvs = map_of kvs'"
    using kvs(2,3) kvs'(2,3) assms
    by (subst map_of_inject_set) (auto simp: strict_sorted_iff)
  then have "kvs = kvs'"
    using kvs(2) kvs'(2) by (intro bt_sorted_unique) (simp_all add: bt_sorted_def)
  with kvs(1) kvs'(1) show ?thesis
    by simp
qed

end

section \<open>An in-memory database\<close>

type_synonym mem_db = "tree \<Rightarrow> (bytes \<times> bytes) list"

definition mem_view :: "mem_db \<Rightarrow> tree \<Rightarrow> bytes \<Rightarrow> bytes option" where
  "mem_view s t = map_of (s t)"

primrec mem_step :: "batch_op \<Rightarrow> (bytes \<times> bytes) list \<Rightarrow> (bytes \<times> bytes) list" where
  "mem_step (Batch_insert k v) m = (k, v) # m"
| "mem_step (Batch_remove k) m = filter (\<lambda>kv. fst kv \<noteq> k) m"

definition mem_sled :: "mem_db sled" where
  "mem_sled = \<lparr>
     sled_open = (\<lambda>path s. (Ok (), s)),
     sled_open_tree = (\<lambda>name s. (Ok (Named_tree name), s)),
     sled_get = (\<lambda>t k s. Ok (map_of (s t) k)),
     sled_insert = (\<lambda>t k v s. (Ok (map_of (s t) k), s(t := mem_step (Batch_insert k v) (s t)))),
     sled_remove = (\<lambda>t k s. (Ok (map_of (s t) k), s(t := mem_step (Batch_remove k) (s t)))),
     sled_scan_prefix = (\<lambda>t p s.
       map (\<lambda>k. Ok (k, the (map_of (s t) k))) (filter (prefix p) (sort (remdups (map fst (s t)))))),
     sled_apply_batch = (\<lambda>t ops s. (Ok (), s(t := fold mem_step ops (s t))))\<rparr>"

lemma map_of_filter_neq: "map_of (filter (\<lambda>kv. fst kv \<noteq> k) m) = (map_of m)(k := None)"
  by (induction m) (auto simp: fun_eq_iff)

lemma map_of_mem_step: "map_of (mem_step op m) = batch_step op (map_of m)"
  by (cases op) (simp_all add: map_of_filter_neq)

lemma map_of_mem_steps: "map_of (fold mem_step ops m) = fold batch_step ops (map_of m)"
  by (induction ops arbitrary: m) (simp_all add: map_of_mem_step)

lemma mem_sled_simps [simp]:
  "sled_open mem_sled path s = (Ok (), s)"
  "sled_open_tree mem_sled name s = (Ok (Named_tree name), s)"
  "sled_get mem_sled t k s = Ok (map_of (s t) k)"
  "sled_insert mem_sled t k v s = (Ok (map_of (s t) k), s(t := mem_step (Batch_insert k v) (s t)))"
  "sled_remove mem_sled t k s = (Ok (map_of (s t) k), s(t := mem_step (Batch_remove k) (s t)))"
  "sled_scan_prefix mem_sled t p s =
     map (\<lambda>k. Ok (k, the (map_of (s t) k))) (filter (prefix p) (sort (remdups (map fst (s t)))))"
  "sled_apply_batch mem_sled t ops s = (Ok (), s(t := fold mem_step ops (s t)))"
  by (simp_all add: mem_sled_def)

lemma mem_scan:
  "\<exists>kvs. sorted_wrt (<) (map fst kvs) \<and> set kvs = {(k, v). map_of m k = Some v \<and> prefix p k} \<and>
     list_all2 (\<lambda>item kv. item = Ok kv \<or> (\<exists>e. item = Err e))
       (map (\<lambda>k. Ok (k, the (map_of m k))) (filter (prefix p) (sort (remdups (map fst m))))) kvs"
proof -
  let ?ks = "filter (prefix p) (sort (remdups (map fst m)))"
  let ?kvs = "map (\<lambda>k. (k, the (map_of m k))) ?ks"
  have "sorted_wrt (<) (map fst ?kvs)"
    by (simp add: o_def strict_sorted_iff sorted_wrt_filter)
  moreover have "set ?kvs = {(k, v). map_of m k = Some v \<and> prefix p k}"
  proof -
    have "set ?ks = {k. k \<in> dom (map_of m) \<and> prefix p k}"
      by (auto simp: dom_map_of_conv_image_fst)
    then have "set ?kvs = (\<lambda>k. (k, the (map_of m k))) ` {k. k \<in> dom (map_of m) \<and> prefix p k}"
      by simp
    then show ?thesis
      by (auto simp: image_iff)
  qed
  ultimately show ?thesis
    by (intro exI [of _ ?kvs]) (simp add: list_all2_conv_all_nth)
qed

lemma mem_view_upd [simp]: "mem_view (s(t := m)) = (mem_view s)(t := map_of m)"
  by (simp add: mem_view_def fun_eq_iff)

lemma mem_view_apply: "map_of (s t) = mem_view s t"
  by (simp add: mem_view_def)

interpretation mem: reliable_sled mem_sled mem_view
proof unfold_locales
  show "\<exists>kvs. sorted_wrt (<) (map fst kvs) \<and>
      set kvs = {(k, v). mem_view s t k = Some v \<and> prefix p k} \<and>
      list_all2 (\<lambda>item kv. item = Ok kv \<or> (\<exists>e. item = Err e)) (sled_scan_prefix mem_sled t p s) kvs"
    for s t p
    using mem_scan [of "s t" p] by (simp add: mem_view_def)
qed (auto simp: mem_view_apply map_of_mem_steps map_of_filter_neq list_all_iff simp del: mem_step.simps
       simp: map_of_mem_step)

end
