(* ===== verification/Baals_Storage_Facts.thy ===== *)
theory Baals_Storage_Facts
  imports Baals_Sled
begin

text \<open>
  What \<^verbatim>\<open>SledStorage\<close> promises over a database that keeps sled's documentation: its keys do not
  collide, its typed tables behave as maps (the locale \<open>keyed_table\<close>, with accounts, contract
  code and contract storage as instances), the height index finds the highest block. And what
  it does not: batches never reach the trees the getters read.
\<close>

section \<open>Handles\<close>

text \<open>The handles \<^verbatim>\<open>SledStorage::new\<close> opens.\<close>

definition std_handles :: sled_storage where
  "std_handles = \<lparr>db = Default_tree, blocks_tree = Named_tree ''blocks'',
     transactions_tree = Named_tree ''transactions'', mempool_tree = Named_tree ''mempool'',
     accounts_tree = Named_tree ''accounts'', contract_code_tree = Named_tree ''contract_code'',
     contract_storage_tree = Named_tree ''contract_storage'',
     chain_state_tree = Named_tree ''chain_state'', tx_by_block_tree = Named_tree ''tx_by_block''\<rparr>"

lemma std_handles_simps [simp]:
  "db std_handles = Default_tree" "blocks_tree std_handles = Named_tree ''blocks''"
  "transactions_tree std_handles = Named_tree ''transactions''"
  "mempool_tree std_handles = Named_tree ''mempool''"
  "accounts_tree std_handles = Named_tree ''accounts''"
  "contract_code_tree std_handles = Named_tree ''contract_code''"
  "contract_storage_tree std_handles = Named_tree ''contract_storage''"
  "chain_state_tree std_handles = Named_tree ''chain_state''"
  "tx_by_block_tree std_handles = Named_tree ''tx_by_block''"
  by (simp_all add: std_handles_def)

context sled_store
begin

lemma open_tree_Ok: "open_tree S name s = (Ok t, s') \<Longrightarrow> t = Named_tree name \<and> view s' = view s"
  by (auto simp: open_tree_def map_err_Ok_iff dest: open_tree_name open_tree_view)

lemma new_Ok:
  assumes "SledStorage_new S path s = (Ok self, s')"
  shows "self = std_handles \<and> view s' = view s"
  using assms
  by (auto simp: SledStorage_new_def std_handles_def then_do_Ok_iff map_err_Ok_iff ret_def
      dest!: open_tree_Ok open_view)

end

section \<open>Keys\<close>

lemma height_key_fixed: "height_key h = utf8 (''height:'' @ dec_fixed 20 (unat h))"
proof -
  have "unat h < 10 ^ 20"
    using unat_bound [of h] by (rule order.strict_trans2) simp
  then show ?thesis
    by (simp add: height_key_def pad0_fixed)
qed

lemma height_key_less: "height_key g < height_key h \<longleftrightarrow> g < h"
proof -
  have mono: "height_key g < height_key h" if "g < h" for g h
  proof -
    have "unat h < 10 ^ 20"
      using unat_bound [of h] by (rule order.strict_trans2) simp
    with that show ?thesis
      unfolding height_key_fixed utf8_append prefix_less by (simp add: dec_fixed_less word_less_nat_alt)
  qed
  show ?thesis
    using mono [of g h] mono [of h g] by (cases g h rule: linorder_cases) (auto dest: order.asym)
qed

lemma height_key_inject [simp]: "height_key g = height_key h \<longleftrightarrow> g = h"
  using height_key_less [of g h] height_key_less [of h g] by (metis linorder_neq_iff order.irrefl)

lemma height_key_prefix [simp]: "prefix (utf8 ''height:'') (height_key h)"
  by (simp add: height_key_def)

text \<open>27 bytes, and a hash has 32: the two kinds of keys in the tree of blocks never collide.\<close>

lemma height_key_not_hash [simp]: "height_key h \<noteq> arr32_bytes x" "arr32_bytes x \<noteq> height_key h"
proof -
  have "length (height_key h) = 27" "length (arr32_bytes x) = 32"
    by (simp_all add: height_key_fixed)
  then show "height_key h \<noteq> arr32_bytes x" "arr32_bytes x \<noteq> height_key h"
    by force+
qed

lemma hex_encode_inject:
  assumes "hex_documented L"
  shows "hex_encode L bs = hex_encode L cs \<longleftrightarrow> bs = cs"
proof
  have digits: "unat b div 16 < 16" "unat b mod 16 < 16" for b :: u8
    using unat_bound [of b] by (simp_all add: div_less_iff_less_mult)
  have byte: "b = c" if "hex_digit (unat b div 16) = hex_digit (unat c div 16)"
    "hex_digit (unat b mod 16) = hex_digit (unat c mod 16)" for b c :: u8
    using that digits by (metis hex_digit_inj div_mult_mod_eq word_unat_eq_iff)
  show "hex_encode L bs = hex_encode L cs \<Longrightarrow> bs = cs"
  proof (induction bs arbitrary: cs)
    case Nil
    then show ?case
      using assms by (cases cs) (simp_all add: hex_documented_def)
  next
    case (Cons b bs)
    then show ?case
      using assms byte by (cases cs) (simp_all add: hex_documented_def)
  qed
qed simp

lemma state_key_inject:
  assumes "hex_documented L"
  shows "state_key L c k = state_key L d l \<longleftrightarrow> c = d \<and> k = l"
proof -
  have len: "length (hex_encode L (arr32_bytes h)) = 64" for h
    using hex_length [OF assms] by simp
  have "state_key L c k = state_key L d l \<longleftrightarrow>
      hex_encode L (arr32_bytes (ContractId_to_bytes c)) = hex_encode L (arr32_bytes (ContractId_to_bytes d)) \<and>
      hex_encode L k = hex_encode L l"
    by (simp add: state_key_def len)
  then show ?thesis
    by (cases c; cases d) (simp add: hex_encode_inject [OF assms])
qed

lemma block_tx_prefix_key:
  assumes "hex_documented L"
  shows "prefix (block_tx_prefix L b) (block_tx_key L c h i) \<longleftrightarrow> b = c"
proof -
  have len: "length (hex_encode L (arr32_bytes h)) = 64" for h
    using hex_length [OF assms] by simp
  have "prefix (block_tx_prefix L b) (block_tx_key L c h i) \<longleftrightarrow>
      hex_encode L (arr32_bytes b) = hex_encode L (arr32_bytes c)"
    by (simp add: block_tx_prefix_def block_tx_key_def) (auto simp: prefix_def len)
  then show ?thesis
    by (simp add: hex_encode_inject [OF assms])
qed

section \<open>Typed tables\<close>

text \<open>
  One table of a store: what a caller of \<open>put\<close> and \<open>get\<close> relies on. \<open>readable\<close> says which values
  the codec reads back.
\<close>

locale keyed_table =
  fixes put :: "'k \<Rightarrow> 'v \<Rightarrow> ('s, unit, 'e) prog"
    and get :: "'k \<Rightarrow> 's \<Rightarrow> ('v option, 'e) outcome"
    and readable :: "'v \<Rightarrow> bool"
  assumes put_total: "\<exists>s'. put k v s = (Ok (), s')"
    and get_put: "put k v s = (Ok (), s') \<Longrightarrow> readable v \<Longrightarrow> get k s' = Ok (Some v)"
    and get_put_other: "put k v s = (Ok (), s') \<Longrightarrow> k' \<noteq> k \<Longrightarrow> get k' s' = get k' s"
begin

lemma put_all_get:
  assumes "\<forall>kv \<in> set kvs. readable (snd kv)"
  shows "\<exists>s'. for_each (\<lambda>kv. put (fst kv) (snd kv)) kvs s = (Ok (), s') \<and>
    (\<forall>k. get k s' = (case map_of (rev kvs) k of None \<Rightarrow> get k s | Some v \<Rightarrow> Ok (Some v)))"
  using assms
proof (induction kvs arbitrary: s)
  case Nil
  then show ?case by (simp add: prog_simps)
next
  case (Cons kv kvs)
  obtain s1 where s1: "put (fst kv) (snd kv) s = (Ok (), s1)"
    using put_total by blast
  obtain s' where s': "for_each (\<lambda>kv. put (fst kv) (snd kv)) kvs s1 = (Ok (), s')"
    and get: "\<forall>k. get k s' = (case map_of (rev kvs) k of None \<Rightarrow> get k s1 | Some v \<Rightarrow> Ok (Some v))"
    using Cons.IH [of s1] Cons.prems by auto
  have "get k s1 = (if k = fst kv then Ok (Some (snd kv)) else get k s)" for k
    using get_put [OF s1] get_put_other [OF s1, of k] Cons.prems by simp
  with s' get show ?case
    by (auto simp: prog_simps s1 map_add_def split: option.split)
qed

end

text \<open>A table with deletion.\<close>

locale keyed_table_delete = keyed_table put get readable
  for put :: "'k \<Rightarrow> 'v \<Rightarrow> ('s, unit, 'e) prog"
    and get :: "'k \<Rightarrow> 's \<Rightarrow> ('v option, 'e) outcome"
    and readable :: "'v \<Rightarrow> bool" +
  fixes del :: "'k \<Rightarrow> ('s, unit, 'e) prog"
  assumes del_total: "\<exists>s'. del k s = (Ok (), s')"
    and get_del: "del k s = (Ok (), s') \<Longrightarrow> get k s' = Ok None"
    and get_del_other: "del k s = (Ok (), s') \<Longrightarrow> k' \<noteq> k \<Longrightarrow> get k' s' = get k' s"
begin

text \<open>Writing and deleting again leaves every other entry as it was, and nothing at the key.\<close>

lemma put_del_get:
  "\<exists>s'. then_do (put k v) (\<lambda>_. del k) s = (Ok (), s') \<and> get k s' = Ok None \<and>
     (\<forall>k'. k' \<noteq> k \<longrightarrow> get k' s' = get k' s)"
proof -
  obtain s1 where s1: "put k v s = (Ok (), s1)"
    using put_total by blast
  obtain s2 where s2: "del k s1 = (Ok (), s2)"
    using del_total by blast
  show ?thesis
    using get_del [OF s2] get_del_other [OF s2] get_put_other [OF s1]
    by (auto simp: prog_simps s1 s2)
qed

end

section \<open>A node's database\<close>

text \<open>\<^verbatim>\<open>SledStorage\<close> with its codecs over a database without I/O failures.\<close>

locale sled_node = reliable_sled S view
  for S :: "'db sled" and view :: "'db \<Rightarrow> tree \<Rightarrow> bytes \<Rightarrow> bytes option" +
  fixes L :: lib
  assumes bincode: "bincode_documented L" and hex: "hex_documented L"
begin

abbreviation "node \<equiv> SledStorage L S std_handles"

lemma encode_Ok [simp]: "encode L v = Ok (wire_ser v)"
  using bincode by (simp add: encode_def)

lemma decode_Account [simp]: "decode L shape_Account de_Account (wire_ser (ser_Account a)) = Ok a"
  using Account_read_back [OF bincode, of a "[]"] by (simp add: decode_def)

lemma decode_ChainState [simp]: "decode L shape_ChainState de_ChainState (wire_ser (ser_ChainState c)) = Ok c"
  using ChainState_read_back [OF bincode, of c "[]"] by (simp add: decode_def)

lemma decode_Block:
  "b_transactions b = [] \<Longrightarrow> metadata_ok (b_metadata b) \<Longrightarrow>
   decode L shape_Block (de_Block L) (wire_ser (ser_Block b)) = Ok b"
  using Block_read_back [OF bincode, of b "[]"] by (simp add: decode_def)

end

sublocale sled_node \<subseteq> accounts: keyed_table_delete
  "SledStorage_put_account L S std_handles" "SledStorage_get_account L S std_handles" "\<lambda>_. True"
  "SledStorage_delete_account S std_handles"
  by unfold_locales
    (auto simp: SledStorage_put_account_def SledStorage_get_account_def SledStorage_delete_account_def
      tree_get_ok decode_opt_def split: option.split dest!: tree_insert_Ok tree_remove_Ok)

sublocale sled_node \<subseteq> code: keyed_table
  "SledStorage_put_contract_code S std_handles" "SledStorage_get_contract_code S std_handles" "\<lambda>_. True"
  by unfold_locales
    (auto simp: SledStorage_put_contract_code_def SledStorage_get_contract_code_def tree_get_ok
      dest!: tree_insert_Ok)

sublocale sled_node \<subseteq> slots: keyed_table_delete
  "\<lambda>(c, k). SledStorage_contract_storage_write L S std_handles c k"
  "\<lambda>(c, k). SledStorage_contract_storage_read L S std_handles c k" "\<lambda>_. True"
  "\<lambda>(c, k). SledStorage_contract_storage_remove L S std_handles c k"
  by unfold_locales
    (auto simp: SledStorage_contract_storage_write_def SledStorage_contract_storage_read_def
      SledStorage_contract_storage_remove_def tree_get_ok state_key_inject [OF hex]
      dest!: tree_insert_Ok tree_remove_Ok split: if_splits)

interpretation mem_node: sled_node mem_sled mem_view ref_lib
  by unfold_locales simp_all

section \<open>The height index\<close>

text \<open>
  \<open>height_index bs m\<close>: under the prefix \<^verbatim>\<open>height:\<close> the contents \<open>m\<close> hold an entry for each block
  of \<open>bs\<close>, and nothing but encodings of blocks of \<open>bs\<close> under their own height.
\<close>

definition height_index :: "block list \<Rightarrow> (bytes \<rightharpoonup> bytes) \<Rightarrow> bool" where
  "height_index bs m \<longleftrightarrow>
     (\<forall>b \<in> set bs. height_key (b_index b) \<in> dom m) \<and>
     (\<forall>k v. m k = Some v \<longrightarrow> prefix (utf8 ''height:'') k \<longrightarrow>
        (\<exists>b \<in> set bs. k = height_key (b_index b) \<and> v = wire_ser (ser_Block b)))"

definition hash_key_free :: "block \<Rightarrow> bool" where
  "hash_key_free b \<longleftrightarrow> \<not> prefix (utf8 ''height:'') (arr32_bytes (b_hash b))"

lemma height_index_put:
  assumes "height_index bs m" "hash_key_free b"
  shows "height_index (bs @ [b])
    (m(arr32_bytes (b_hash b) \<mapsto> wire_ser (ser_Block b), height_key (b_index b) \<mapsto> wire_ser (ser_Block b)))"
  using assms by (auto simp: height_index_def hash_key_free_def split: if_splits)

context sled_node
begin

lemma put_block_ok:
  "\<exists>s'. SledStorage_put_block L S std_handles b s = (Ok (), s') \<and>
     view s' = (view s)(Named_tree ''blocks'' := (view s (Named_tree ''blocks''))
       (arr32_bytes (b_hash b) \<mapsto> wire_ser (ser_Block b), height_key (b_index b) \<mapsto> wire_ser (ser_Block b)))"
proof -
  let ?e = "wire_ser (ser_Block b)"
  obtain s1 where s1: "tree_insert S (Named_tree ''blocks'') (arr32_bytes (b_hash b)) ?e s = (Ok (), s1)"
    "view s1 = (view s)(Named_tree ''blocks'' := (view s (Named_tree ''blocks''))(arr32_bytes (b_hash b) \<mapsto> ?e))"
    using tree_insert_ok by blast
  obtain s2 where "tree_insert S (Named_tree ''blocks'') (height_key (b_index b)) ?e s1 = (Ok (), s2)"
    "view s2 = (view s1)(Named_tree ''blocks'' := (view s1 (Named_tree ''blocks''))(height_key (b_index b) \<mapsto> ?e))"
    using tree_insert_ok by blast
  with s1 show ?thesis
    by (simp add: SledStorage_put_block_def prog_simps)
qed

lemma put_blocks_index:
  assumes "height_index bs (view s (Named_tree ''blocks''))" "list_all hash_key_free cs"
  shows "\<exists>s'. for_each (SledStorage_put_block L S std_handles) cs s = (Ok (), s') \<and>
    height_index (bs @ cs) (view s' (Named_tree ''blocks''))"
  using assms
proof (induction cs arbitrary: bs s)
  case Nil
  then show ?case by (simp add: prog_simps)
next
  case (Cons c cs)
  obtain s1 where s1: "SledStorage_put_block L S std_handles c s = (Ok (), s1)"
    and v1: "view s1 = (view s)(Named_tree ''blocks'' := (view s (Named_tree ''blocks''))
       (arr32_bytes (b_hash c) \<mapsto> wire_ser (ser_Block c), height_key (b_index c) \<mapsto> wire_ser (ser_Block c)))"
    using put_block_ok by blast
  have "height_index (bs @ [c]) (view s1 (Named_tree ''blocks''))"
    using height_index_put [OF Cons.prems(1), of c] Cons.prems(2) by (simp add: v1)
  from Cons.IH [OF this] Cons.prems(2) show ?case
    by (simp add: prog_simps s1)
qed

lemma get_block_by_height_entry:
  assumes "view s (Named_tree ''blocks'') (height_key h) = Some (wire_ser (ser_Block b))"
  shows "SledStorage_get_block_by_height L S std_handles h s =
    bind_o (decode L shape_Block (de_Block L) (wire_ser (ser_Block b))) (\<lambda>b. Ok (Some b))"
  using assms by (simp add: SledStorage_get_block_by_height_def tree_get_ok decode_opt_def)

lemma latest_block_of_index:
  assumes index: "height_index bs (view s (Named_tree ''blocks''))" and ne: "bs \<noteq> []"
  shows "\<exists>b \<in> set bs. (\<forall>c \<in> set bs. b_index c \<le> b_index b) \<and>
    SledStorage_get_latest_block L S std_handles s =
      bind_o (decode L shape_Block (de_Block L) (wire_ser (ser_Block b))) (\<lambda>b. Ok (Some b)) \<and>
    SledStorage_get_block_by_height L S std_handles (b_index b) s = SledStorage_get_latest_block L S std_handles s"
proof -
  obtain kvs where kvs: "sled_scan_prefix S (Named_tree ''blocks'') (utf8 ''height:'') s = map Ok kvs"
      "sorted_wrt (<) (map fst kvs)"
      "set kvs = {(k, v). view s (Named_tree ''blocks'') k = Some v \<and> prefix (utf8 ''height:'') k}"
    by (rule scan_items)
  have has: "height_key (b_index c) \<in> fst ` set kvs" if "c \<in> set bs" for c
    using index that unfolding kvs(3) by (force simp: height_index_def dom_def)
  then have "kvs \<noteq> []"
    using has [OF hd_in_set [OF ne]] by auto
  then obtain front k v where snoc: "kvs = front @ [(k, v)]"
    by (metis rev_exhaust prod.collapse)
  then have kv: "(k, v) \<in> set kvs"
    by simp
  then obtain b where b: "b \<in> set bs" "k = height_key (b_index b)" "v = wire_ser (ser_Block b)"
    using index unfolding kvs(3) by (force simp: height_index_def)
  have "b_index c \<le> b_index b" if "c \<in> set bs" for c
  proof -
    have "height_key (b_index c) = k \<or> height_key (b_index c) < k"
      using has [OF that] kvs(2) by (auto simp: snoc sorted_wrt_append)
    then show ?thesis
      by (auto simp: b(2) height_key_less)
  qed
  moreover have "SledStorage_get_latest_block L S std_handles s =
      bind_o (decode L shape_Block (de_Block L) (wire_ser (ser_Block b))) (\<lambda>b. Ok (Some b))"
    using b by (simp add: SledStorage_get_latest_block_def kvs(1) snoc)
  moreover have "view s (Named_tree ''blocks'') (height_key (b_index b)) = Some (wire_ser (ser_Block b))"
    using kv b(2, 3) unfolding kvs(3) by simp
  ultimately show ?thesis
    using b(1) get_block_by_height_entry by (intro bexI [of _ b]) simp_all
qed

text \<open>The typed getters are functions of the contents of the named trees.\<close>

lemma getters_cong:
  assumes "\<And>name. view s' (Named_tree name) = view s (Named_tree name)"
  shows "SledStorage_get_block L S std_handles h s' = SledStorage_get_block L S std_handles h s"
    "SledStorage_get_latest_block L S std_handles s' = SledStorage_get_latest_block L S std_handles s"
    "SledStorage_get_account L S std_handles a s' = SledStorage_get_account L S std_handles a s"
    "SledStorage_get_chain_state L S std_handles s' = SledStorage_get_chain_state L S std_handles s"
    "SledStorage_get_transaction L S std_handles h s' = SledStorage_get_transaction L S std_handles h s"
    "SledStorage_get_pending_transactions L S std_handles s' =
       SledStorage_get_pending_transactions L S std_handles s"
    "SledStorage_get_contract_code S std_handles c s' = SledStorage_get_contract_code S std_handles c s"
    "SledStorage_contract_storage_read L S std_handles c k s' =
       SledStorage_contract_storage_read L S std_handles c k s"
  using scan_cong [of _ s' _ s] assms
  by (simp_all add: SledStorage_get_block_def SledStorage_get_latest_block_def SledStorage_get_account_def
      SledStorage_get_chain_state_def SledStorage_get_transaction_def
      SledStorage_get_pending_transactions_def SledStorage_get_contract_code_def
      SledStorage_contract_storage_read_def tree_get_ok)

lemma apply_batch_ok:
  "\<exists>s'. SledStorage_apply_batch S std_handles ops s = (Ok (), s') \<and>
     view s' = (view s)(Default_tree := fold batch_step (map batch_of ops) (view s Default_tree))"
proof -
  obtain s' where "sled_apply_batch S Default_tree (map batch_of ops) s = (Ok (), s')"
    using batch_ok by blast
  then show ?thesis
    by (auto simp: SledStorage_apply_batch_def map_err_def dest: batch_view)
qed

lemma apply_batch_named:
  "SledStorage_apply_batch S std_handles ops s = (r, s') \<Longrightarrow> view s' (Named_tree name) = view s (Named_tree name)"
  using apply_batch_ok [of ops s] by auto

lemma remove_pending_pending:
  assumes "SledStorage_remove_pending_transaction S std_handles h s = (r, s')"
    and "\<not> prefix (utf8 ''pending:'') (arr32_bytes h)"
  shows "SledStorage_get_pending_transactions L S std_handles s' =
    SledStorage_get_pending_transactions L S std_handles s"
proof -
  obtain s1 where "tree_remove S (Named_tree ''mempool'') (arr32_bytes h) s = (Ok (), s1)"
    "view s1 = (view s)(Named_tree ''mempool'' := (view s (Named_tree ''mempool''))(arr32_bytes h := None))"
    using tree_remove_ok by blast
  then have "view s' = (view s)(Named_tree ''mempool'' := (view s (Named_tree ''mempool''))(arr32_bytes h := None))"
    using assms(1) by (simp add: SledStorage_remove_pending_transaction_def)
  then have "sled_scan_prefix S (Named_tree ''mempool'') (utf8 ''pending:'') s' =
      sled_scan_prefix S (Named_tree ''mempool'') (utf8 ''pending:'') s"
    using assms(2) by (intro scan_cong) auto
  then show ?thesis
    by (simp add: SledStorage_get_pending_transactions_def)
qed

lemma put_get_transaction:
  assumes "SledStorage_put_transaction L S std_handles tx s = (r, s')"
  shows "SledStorage_get_transaction L S std_handles (t_hash tx) s' \<noteq> Ok (Some tx)"
proof -
  obtain s1 where "tree_insert S (Named_tree ''transactions'') (arr32_bytes (t_hash tx)) (wire_ser (ser_Transaction tx)) s =
      (Ok (), s1)" and v: "view s1 (Named_tree ''transactions'') (arr32_bytes (t_hash tx)) = Some (wire_ser (ser_Transaction tx))"
    using tree_insert_ok [of "Named_tree ''transactions''" "arr32_bytes (t_hash tx)" "wire_ser (ser_Transaction tx)" s] by auto
  with assms have "s1 = s'"
    by (simp add: SledStorage_put_transaction_def)
  with v show ?thesis
    using Transaction_never_reads_back [OF bincode, of tx "[]"]
    by (auto simp: SledStorage_get_transaction_def tree_get_ok decode_opt_def decode_def bind_o_Ok_iff)
qed

lemma put_get_block:
  assumes "SledStorage_put_block L S std_handles b s = (r, s')"
    and "b_transactions b \<noteq> []" "length (b_transactions b) < 2 ^ 64"
  shows "SledStorage_get_block L S std_handles (b_hash b) s' \<noteq> Ok (Some b)"
    "SledStorage_get_block_by_height L S std_handles (b_index b) s' \<noteq> Ok (Some b)"
proof -
  obtain tx rest where txs: "b_transactions b = tx # rest"
    using assms(2) by (cases "b_transactions b") auto
  have never: "decode L shape_Block (de_Block L) (wire_ser (ser_Block b)) \<noteq> Ok b"
    using Block_never_reads_back [OF bincode txs assms(3)] by (auto simp: decode_def)
  have v: "view s' (Named_tree ''blocks'') k = Some (wire_ser (ser_Block b))"
    if "k = arr32_bytes (b_hash b) \<or> k = height_key (b_index b)" for k
    using put_block_ok [of b s] assms(1) that by auto
  show "SledStorage_get_block L S std_handles (b_hash b) s' \<noteq> Ok (Some b)"
    "SledStorage_get_block_by_height L S std_handles (b_index b) s' \<noteq> Ok (Some b)"
    using never v by (auto simp: SledStorage_get_block_def SledStorage_get_block_by_height_def tree_get_ok
        decode_opt_def bind_o_Ok_iff)
qed

lemma put_get_empty_block:
  assumes "b_transactions b = []" "metadata_ok (b_metadata b)"
  shows "\<exists>s'. SledStorage_put_block L S std_handles b s = (Ok (), s') \<and>
    SledStorage_get_block L S std_handles (b_hash b) s' = Ok (Some b) \<and>
    SledStorage_get_block_by_height L S std_handles (b_index b) s' = Ok (Some b)"
  using put_block_ok [of b s] decode_Block [OF assms]
  by (auto simp: SledStorage_get_block_def SledStorage_get_block_by_height_def tree_get_ok decode_opt_def)

lemmas accounts_put_all = accounts.put_all_get [simplified]

lemma slot_write_remove:
  "\<exists>s1 s2. SledStorage_contract_storage_write L S std_handles c k v s = (Ok (), s1) \<and>
    (\<forall>d l. SledStorage_contract_storage_read L S std_handles d l s1 =
       (if d = c \<and> l = k then Ok (Some v) else SledStorage_contract_storage_read L S std_handles d l s)) \<and>
    SledStorage_contract_storage_remove L S std_handles c k s1 = (Ok (), s2) \<and>
    (\<forall>d l. SledStorage_contract_storage_read L S std_handles d l s2 =
       (if d = c \<and> l = k then Ok None else SledStorage_contract_storage_read L S std_handles d l s))"
proof -
  obtain s1 where s1: "SledStorage_contract_storage_write L S std_handles c k v s = (Ok (), s1)"
    using slots.put_total [of "(c, k)" v s] by auto
  obtain s2 where s2: "SledStorage_contract_storage_remove L S std_handles c k s1 = (Ok (), s2)"
    using slots.del_total [of "(c, k)" s1] by auto
  have "SledStorage_contract_storage_read L S std_handles d l s1 =
       (if d = c \<and> l = k then Ok (Some v) else SledStorage_contract_storage_read L S std_handles d l s)" for d l
    using slots.get_put [of "(c, k)" v s s1] slots.get_put_other [of "(c, k)" v s s1 "(d, l)"] s1 by auto
  moreover from this have "SledStorage_contract_storage_read L S std_handles d l s2 =
       (if d = c \<and> l = k then Ok None else SledStorage_contract_storage_read L S std_handles d l s)" for d l
    using slots.get_del [of "(c, k)" s1 s2] slots.get_del_other [of "(c, k)" s1 s2 "(d, l)"] s2 by auto
  ultimately show ?thesis
    using s1 s2 by blast
qed

end

section \<open>Properties\<close>

definition empty_mem :: mem_db where
  "empty_mem = (\<lambda>_. [])"

definition block_at :: "u64 \<Rightarrow> block" where
  "block_at i = \<lparr>b_index = i, b_timestamp = i, b_prev_hash = 0, b_hash = ucast i, b_nonce = 0,
     b_transactions = [], b_metadata = None\<rparr>"

lemma block_at_simps [simp]:
  "b_index (block_at i) = i" "b_transactions (block_at i) = []" "metadata_ok (b_metadata (block_at i))"
  "b_hash (block_at i) = ucast i" "b_timestamp (block_at i) = i"
  by (simp_all add: block_at_def metadata_ok_def)

lemma hash_key_free_samples [simp]: "hash_key_free (block_at 1)" "hash_key_free (block_at 2)"
  by code_simp+

text \<open>
  C19: after any \<^verbatim>\<open>put_block\<close> calls on an empty blocks tree, in any order of heights and with any
  transactions, \<^verbatim>\<open>get_latest_block\<close> answers what \<^verbatim>\<open>get_block_by_height\<close> answers for the greatest
  height put, namely what the stored bytes of a block of that height decode to: the zero-padded
  decimal keys sort as the heights do. If that block has no transactions and its metadata read
  back, the answer is the block, and \<^verbatim>\<open>get_chain_height\<close> its height. (Block hashes that themselves
  begin with the seven bytes \<^verbatim>\<open>height:\<close> are excluded; they share the tree.)
\<close>

theorem latest_block_is_highest:
  assumes "sled_node S view L" "view s (Named_tree ''blocks'') = Map.empty" "bs \<noteq> []"
    and "list_all hash_key_free bs"
  defines "node \<equiv> SledStorage L S std_handles"
  shows "\<exists>s'. for_each (put_block node) bs s = (Ok (), s') \<and>
    (\<exists>b \<in> set bs. (\<forall>c \<in> set bs. b_index c \<le> b_index b) \<and>
       get_latest_block node s' = get_block_by_height node (b_index b) s' \<and>
       get_latest_block node s' =
         bind_o (decode L shape_Block (de_Block L) (wire_ser (ser_Block b))) (\<lambda>b. Ok (Some b)) \<and>
       (b_transactions b = [] \<and> metadata_ok (b_metadata b) \<longrightarrow>
         get_latest_block node s' = Ok (Some b) \<and> get_chain_height node s' = Ok (b_index b)))"
proof -
  have "height_index [] (view s (Named_tree ''blocks''))"
    by (simp add: assms(2) height_index_def)
  then obtain s' where s': "for_each (SledStorage_put_block L S std_handles) bs s = (Ok (), s')"
      "height_index bs (view s' (Named_tree ''blocks''))"
    using sled_node.put_blocks_index [OF assms(1), of "[]" s bs] assms(4) unfolding append_Nil by blast
  obtain b where b: "b \<in> set bs" "\<forall>c \<in> set bs. b_index c \<le> b_index b"
      "SledStorage_get_latest_block L S std_handles s' =
        bind_o (decode L shape_Block (de_Block L) (wire_ser (ser_Block b))) (\<lambda>b. Ok (Some b))"
      "SledStorage_get_block_by_height L S std_handles (b_index b) s' = SledStorage_get_latest_block L S std_handles s'"
    using sled_node.latest_block_of_index [OF assms(1), OF s'(2) assms(3)] by (elim bexE conjE) (rule that)
  have "SledStorage_get_latest_block L S std_handles s' = Ok (Some b)" if "b_transactions b = []" "metadata_ok (b_metadata b)"
    using sled_node.decode_Block [OF assms(1) that] b(3) by simp
  with s'(1) b show ?thesis
    unfolding node_def by (intro exI [of _ s'] conjI bexI [of _ b]) (simp_all add: SledStorage_get_chain_height_def)
qed

theorem latest_block_is_highest_witness:
  "\<exists>s' b. for_each (put_block (SledStorage ref_lib mem_sled std_handles)) [block_at 2, block_at 1] empty_mem = (Ok (), s') \<and>
    get_latest_block (SledStorage ref_lib mem_sled std_handles) s' = Ok (Some b) \<and>
    get_chain_height (SledStorage ref_lib mem_sled std_handles) s' = Ok (b_index b) \<and> b_index (block_at 2) \<le> b_index b"
proof -
  let ?node = "SledStorage ref_lib mem_sled std_handles" and ?bs = "[block_at 2, block_at 1]"
  have "mem_view empty_mem (Named_tree ''blocks'') = Map.empty" "?bs \<noteq> []" "list_all hash_key_free ?bs"
    by (simp_all add: mem_view_def empty_mem_def)
  from latest_block_is_highest [OF mem_node.sled_node_axioms, OF this] obtain s' b where
    run: "for_each (put_block ?node) ?bs empty_mem = (Ok (), s')" "b \<in> set ?bs" "\<forall>c \<in> set ?bs. b_index c \<le> b_index b"
    "b_transactions b = [] \<and> metadata_ok (b_metadata b) \<longrightarrow>
      get_latest_block ?node s' = Ok (Some b) \<and> get_chain_height ?node s' = Ok (b_index b)"
    by (elim exE conjE bexE) (rule that)
  have "b_transactions b = [] \<and> metadata_ok (b_metadata b)" "b_index (block_at 2) \<le> b_index b"
    using run(2, 3) by auto
  with run(1, 4) show ?thesis
    by blast
qed

text \<open>
  A block without transactions is found again, by its hash and by its height, right after
  \<^verbatim>\<open>put_block\<close>.
\<close>

theorem empty_block_roundtrip:
  assumes "sled_node S view L" "b_transactions b = []" "metadata_ok (b_metadata b)"
  shows "\<exists>s'. put_block (SledStorage L S std_handles) b s = (Ok (), s') \<and>
    get_block (SledStorage L S std_handles) (b_hash b) s' = Ok (Some b) \<and>
    get_block_by_height (SledStorage L S std_handles) (b_index b) s' = Ok (Some b)"
  using sled_node.put_get_empty_block [OF assms] by simp

theorem empty_block_roundtrip_witness:
  "\<exists>s'. put_block (SledStorage ref_lib mem_sled std_handles) (block_at 2) empty_mem = (Ok (), s') \<and>
    get_block (SledStorage ref_lib mem_sled std_handles) (b_hash (block_at 2)) s' = Ok (Some (block_at 2)) \<and>
    get_block_by_height (SledStorage ref_lib mem_sled std_handles) (b_index (block_at 2)) s' = Ok (Some (block_at 2))"
  by (rule empty_block_roundtrip [OF mem_node.sled_node_axioms]) simp_all

text \<open>
  C25: a transaction written by \<^verbatim>\<open>put_transaction\<close> is never returned as it was by
  \<^verbatim>\<open>get_transaction\<close>: the sender's key is misread, and with it every field after it.
\<close>

theorem stored_transaction_is_lost:
  assumes "sled_node S view L" "put_transaction (SledStorage L S std_handles) tx s = (r, s')"
  shows "get_transaction (SledStorage L S std_handles) (t_hash tx) s' \<noteq> Ok (Some tx)"
  using sled_node.put_get_transaction [OF assms(1)] assms(2) by simp

theorem stored_transaction_is_lost_witness:
  "\<exists>r s'. put_transaction (SledStorage ref_lib mem_sled std_handles) sample_tx empty_mem = (r, s') \<and>
    get_transaction (SledStorage ref_lib mem_sled std_handles) (t_hash sample_tx) s' \<noteq> Ok (Some sample_tx)"
  using stored_transaction_is_lost [OF mem_node.sled_node_axioms] by (metis surj_pair)

text \<open>
  Nor is a block that holds a transaction, by its hash or by its height.
\<close>

theorem stored_block_is_lost:
  assumes "sled_node S view L" "put_block (SledStorage L S std_handles) b s = (r, s')"
    and "b_transactions b \<noteq> []" "length (b_transactions b) < 2 ^ 64"
  shows "get_block (SledStorage L S std_handles) (b_hash b) s' \<noteq> Ok (Some b) \<and>
    get_block_by_height (SledStorage L S std_handles) (b_index b) s' \<noteq> Ok (Some b)"
  using sled_node.put_get_block [OF assms(1) _ assms(3,4)] assms(2) by simp

theorem stored_block_is_lost_witness:
  "\<exists>r s'. put_block (SledStorage ref_lib mem_sled std_handles) ((block_at 1)\<lparr>b_transactions := [sample_tx]\<rparr>) empty_mem = (r, s') \<and>
    get_block (SledStorage ref_lib mem_sled std_handles) 1 s' \<noteq> Ok (Some ((block_at 1)\<lparr>b_transactions := [sample_tx]\<rparr>))"
proof -
  let ?b = "(block_at 1)\<lparr>b_transactions := [sample_tx]\<rparr>"
  obtain r s' where put: "put_block (SledStorage ref_lib mem_sled std_handles) ?b empty_mem = (r, s')"
    by (rule prod.exhaust)
  have "get_block (SledStorage ref_lib mem_sled std_handles) (b_hash ?b) s' \<noteq> Ok (Some ?b)"
    using stored_block_is_lost [OF mem_node.sled_node_axioms put] by simp
  moreover have "b_hash ?b = 1"
    by (simp add: block_at_def)
  ultimately show ?thesis
    using put by (intro exI [of _ r] exI [of _ s'] conjI) simp_all
qed

text \<open>
  \<^verbatim>\<open>apply_batch\<close> succeeds and changes nothing that any typed getter returns: it writes the
  default tree, and every getter reads a tree of its own.
\<close>

theorem apply_batch_is_invisible:
  assumes "sled_node S view L"
  defines "node \<equiv> SledStorage L S std_handles"
  shows "\<exists>s'. apply_batch node ops s = (Ok (), s') \<and>
    get_block node h s' = get_block node h s \<and> get_latest_block node s' = get_latest_block node s \<and>
    get_account node a s' = get_account node a s \<and> get_chain_state node s' = get_chain_state node s \<and>
    get_transaction node h s' = get_transaction node h s \<and>
    get_pending_transactions node s' = get_pending_transactions node s \<and>
    get_contract_code node c s' = get_contract_code node c s \<and>
    contract_storage_read node c k s' = contract_storage_read node c k s"
proof -
  obtain s' where s': "SledStorage_apply_batch S std_handles ops s = (Ok (), s')"
    using sled_node.apply_batch_ok [OF assms(1)] by blast
  have "view s' (Named_tree name) = view s (Named_tree name)" for name
    by (rule sled_node.apply_batch_named [OF assms(1) s'])
  from sled_node.getters_cong [OF assms(1) this] s' show ?thesis
    by (simp add: node_def)
qed

theorem apply_batch_is_invisible_witness:
  "\<exists>s'. apply_batch (SledStorage ref_lib mem_sled std_handles) [Put current_key []] empty_mem = (Ok (), s') \<and>
    get_chain_state (SledStorage ref_lib mem_sled std_handles) s' =
    get_chain_state (SledStorage ref_lib mem_sled std_handles) empty_mem"
  using apply_batch_is_invisible [OF mem_node.sled_node_axioms, of "[Put current_key []]" empty_mem] by blast

text \<open>
  C24: the accounts table is a map. After any list of \<^verbatim>\<open>put_account\<close> calls, \<^verbatim>\<open>get_account\<close> returns for
  every address the account written last for it, and what it returned before for an address
  not written.
\<close>

theorem accounts_table:
  assumes "sled_node S view L"
  defines "node \<equiv> SledStorage L S std_handles"
  shows "\<exists>s'. for_each (\<lambda>kv. put_account node (fst kv) (snd kv)) kvs s = (Ok (), s') \<and>
    (\<forall>a. get_account node a s' =
       (case map_of (rev kvs) a of None \<Rightarrow> get_account node a s | Some acc \<Rightarrow> Ok (Some acc)))"
  unfolding node_def SledStorage_sel by (rule sled_node.accounts_put_all [OF assms(1)])

theorem accounts_table_witness:
  "\<exists>s'. for_each (\<lambda>kv. put_account (SledStorage ref_lib mem_sled std_handles) (fst kv) (snd kv))
      [(PublicKey 7, Wallet 10 0), (PublicKey 7, Wallet 4 1)] empty_mem = (Ok (), s') \<and>
    get_account (SledStorage ref_lib mem_sled std_handles) (PublicKey 7) s' = Ok (Some (Wallet 4 1))"
  using accounts_table [OF mem_node.sled_node_axioms,
      of "[(PublicKey 7, Wallet 10 0), (PublicKey 7, Wallet 4 1)]" empty_mem]
  by auto

text \<open>
  C23: contract storage is isolated. Writing under one contract id and key and reading under any
  other pair returns what was there before; reading the same pair returns the value written;
  removing it leaves nothing there and nothing else changed.
\<close>

theorem contract_storage_isolated:
  assumes "sled_node S view L"
  defines "node \<equiv> SledStorage L S std_handles"
  shows "\<exists>s1 s2. contract_storage_write node c k v s = (Ok (), s1) \<and>
    (\<forall>d l. contract_storage_read node d l s1 =
       (if d = c \<and> l = k then Ok (Some v) else contract_storage_read node d l s)) \<and>
    contract_storage_remove node c k s1 = (Ok (), s2) \<and>
    (\<forall>d l. contract_storage_read node d l s2 =
       (if d = c \<and> l = k then Ok None else contract_storage_read node d l s))"
  unfolding node_def SledStorage_sel by (rule sled_node.slot_write_remove [OF assms(1)])

theorem contract_storage_isolated_witness:
  "\<exists>s1. contract_storage_write (SledStorage ref_lib mem_sled std_handles) (ContractId 1) [2] [3] empty_mem = (Ok (), s1) \<and>
    contract_storage_read (SledStorage ref_lib mem_sled std_handles) (ContractId 1) [2] s1 = Ok (Some [3])"
  using contract_storage_isolated [OF mem_node.sled_node_axioms, of "ContractId 1" "[2]" "[3]" empty_mem] by auto

text \<open>
  \<^verbatim>\<open>remove_pending_transaction\<close> removes nothing that \<^verbatim>\<open>get_pending_transactions\<close> lists: one
  deletes the bare hash, the other scans the keys that start with \<^verbatim>\<open>pending:\<close> (short of a hash
  that itself starts with those bytes).
\<close>

theorem remove_pending_removes_nothing:
  assumes "sled_node S view L" "\<not> prefix (utf8 ''pending:'') (arr32_bytes h)"
    and "remove_pending_transaction (SledStorage L S std_handles) h s = (r, s')"
  shows "get_pending_transactions (SledStorage L S std_handles) s' =
    get_pending_transactions (SledStorage L S std_handles) s"
  using sled_node.remove_pending_pending [OF assms(1) _ assms(2)] assms(3) by simp

theorem remove_pending_removes_nothing_witness:
  "\<exists>r s'. remove_pending_transaction (SledStorage ref_lib mem_sled std_handles) 5 empty_mem = (r, s') \<and>
    get_pending_transactions (SledStorage ref_lib mem_sled std_handles) s' =
    get_pending_transactions (SledStorage ref_lib mem_sled std_handles) empty_mem"
proof -
  have "\<not> prefix (utf8 ''pending:'') (arr32_bytes 5)"
    by code_simp
  from remove_pending_removes_nothing [OF mem_node.sled_node_axioms this] show ?thesis
    by (metis surj_pair)
qed

end
