(* ===== verification/Baals_Contracts.thy ===== *)
theory Baals_Contracts
  imports Baals_Storage_Facts
begin

text \<open>
  \<^verbatim>\<open>src/contracts.rs\<close>: the \<^verbatim>\<open>ContractEngine\<close> trait as a record of operations over a storage, its
  implementation \<^verbatim>\<open>BaaLSContractEngine\<close>, and the frame contract the ledger relies on.
\<close>

section \<open>The ContractEngine trait\<close>

datatype contract_error =
    CE_StorageError storage_error
  | CE_ExecutionError string
  | CE_ContractNotFound string
  | CE_InvalidWasm string

record 's contract_engine =
  deploy_contract :: "public_key \<Rightarrow> bytes \<Rightarrow> bytes option \<Rightarrow> 's storage \<Rightarrow> u64 \<Rightarrow> ('s, contract_id, contract_error) prog"
  call_contract :: "public_key \<Rightarrow> contract_id \<Rightarrow> string \<Rightarrow> bytes \<Rightarrow> 's storage \<Rightarrow> ('s, bytes, contract_error) prog"
  query_contract :: "contract_id \<Rightarrow> bytes \<Rightarrow> 's storage \<Rightarrow> ('s, bytes, contract_error) prog"

record contract_execution_result =
  cer_success :: bool
  cer_output_data :: "bytes option"
  cer_gas_used :: u64
  cer_error_message :: "string option"

section \<open>BaaLSContractEngine\<close>

text \<open>The engine's own \<^verbatim>\<open>_storage\<close> is never used: every call works on the storage it is passed.\<close>

definition deploy_id :: "lib \<Rightarrow> public_key \<Rightarrow> bytes \<Rightarrow> contract_id" where
  "deploy_id L deployer wasm_bytes =
     ContractId_from_bytes (sha256 L (arr32_bytes (PublicKey_to_bytes deployer) @ wasm_bytes))"

definition BaaLS_deploy_contract ::
    "lib \<Rightarrow> public_key \<Rightarrow> bytes \<Rightarrow> bytes option \<Rightarrow> 's storage \<Rightarrow> u64 \<Rightarrow> ('s, contract_id, contract_error) prog" where
  "BaaLS_deploy_contract L deployer wasm_bytes init_payload T gas_limit =
     (let contract_id = deploy_id L deployer wasm_bytes in
      then_do (map_err CE_StorageError (put_contract_code T contract_id wasm_bytes)) (\<lambda>_.
      then_do (case init_payload of
           None \<Rightarrow> ret ()
         | Some payload \<Rightarrow>
             map_err CE_StorageError (contract_storage_write T contract_id (utf8 ''init_payload'') payload)) (\<lambda>_.
      ret contract_id)))"

definition BaaLS_call_contract ::
    "public_key \<Rightarrow> contract_id \<Rightarrow> string \<Rightarrow> bytes \<Rightarrow> 's storage \<Rightarrow> ('s, bytes, contract_error) prog" where
  "BaaLS_call_contract caller contract_id method_name args T = ret []"

definition BaaLS_query_contract ::
    "contract_id \<Rightarrow> bytes \<Rightarrow> 's storage \<Rightarrow> ('s, bytes, contract_error) prog" where
  "BaaLS_query_contract contract_id payload T = ret []"

definition BaaLSContractEngine :: "lib \<Rightarrow> 's contract_engine" where
  "BaaLSContractEngine L = \<lparr>
     deploy_contract = BaaLS_deploy_contract L,
     call_contract = BaaLS_call_contract,
     query_contract = BaaLS_query_contract\<rparr>"

lemma BaaLSContractEngine_sel [simp]:
  "deploy_contract (BaaLSContractEngine L) = BaaLS_deploy_contract L"
  "call_contract (BaaLSContractEngine L) = BaaLS_call_contract"
  "query_contract (BaaLSContractEngine L) = BaaLS_query_contract"
  by (simp_all add: BaaLSContractEngine_def)

section \<open>What the ledger relies on\<close>

text \<open>
  What the ledger reads of a storage: accounts, blocks by hash, the chain state. A \<open>kept_engine\<close>
  deploys and calls without touching the part \<open>obs\<close> of the state, failures included; for a
  \<open>framed_engine\<close> all that the ledger reads depends on that part.
\<close>

definition ledger_view :: "'s storage \<Rightarrow> 's \<Rightarrow>
    (public_key \<Rightarrow> (account option, storage_error) outcome) \<times>
    (arr32 \<Rightarrow> (block option, storage_error) outcome) \<times> (chain_state option, storage_error) outcome" where
  "ledger_view T s = (\<lambda>a. get_account T a s, \<lambda>h. get_block T h s, get_chain_state T s)"

lemma ledger_viewD:
  assumes "ledger_view T s' = ledger_view T s"
  shows "get_account T a s' = get_account T a s" "get_block T h s' = get_block T h s"
    "get_chain_state T s' = get_chain_state T s"
  using assms by (auto simp: ledger_view_def dest: fun_cong)

locale kept_engine =
  fixes T :: "'s storage" and E :: "'s contract_engine" and obs :: "'s \<Rightarrow> 'o"
  assumes deploy_keeps: "keeps obs (deploy_contract E pk wasm init T gas)"
    and call_keeps: "keeps obs (call_contract E pk c m args T)"

locale framed_engine = kept_engine T E obs
  for T :: "'s storage" and E :: "'s contract_engine" and obs :: "'s \<Rightarrow> 'o" +
  assumes obs_view: "obs s' = obs s \<Longrightarrow> ledger_view T s' = ledger_view T s"
begin

lemma kept_view: "keeps obs m \<Longrightarrow> m s = (r, s') \<Longrightarrow> ledger_view T s' = ledger_view T s"
  by (blast intro: obs_view dest: keepsD)

end

section \<open>The engine over SledStorage\<close>

text \<open>
  The trees a deployment or the index of a block may write; \<open>settled view s\<close> is all the rest of
  the database.
\<close>

definition unsettled_trees :: "tree set" where
  "unsettled_trees = {Named_tree ''contract_code'', Named_tree ''contract_storage'', Named_tree ''tx_by_block''}"

definition settled :: "('db \<Rightarrow> tree \<Rightarrow> bytes \<Rightarrow> bytes option) \<Rightarrow> 'db \<Rightarrow> tree \<Rightarrow> bytes \<Rightarrow> bytes option" where
  "settled view s t = (if t \<in> unsettled_trees then Map.empty else view s t)"

context sled_store
begin

lemma keeps_deploy:
  assumes "t \<noteq> Named_tree ''contract_code''" "t \<noteq> Named_tree ''contract_storage''"
  shows "keeps (\<lambda>s. view s t) (BaaLS_deploy_contract L pk wasm init (SledStorage L S std_handles) gas)"
  using assms
  by (auto simp: BaaLS_deploy_contract_def Let_def SledStorage_put_contract_code_def
      SledStorage_contract_storage_write_def intro!: keeps_rules split: option.split)

end

sublocale sled_store \<subseteq> default_tree: kept_engine
  "SledStorage L S std_handles" "BaaLSContractEngine L" "\<lambda>s. view s Default_tree" for L
proof unfold_locales
  show "keeps (\<lambda>s. view s Default_tree)
      (deploy_contract (BaaLSContractEngine L) pk wasm init (SledStorage L S std_handles) gas)" for pk wasm init gas
    unfolding BaaLSContractEngine_sel by (rule keeps_deploy) simp_all
  show "keeps (\<lambda>s. view s Default_tree)
      (call_contract (BaaLSContractEngine L) pk c m args (SledStorage L S std_handles))" for pk c m args
    by (simp add: BaaLS_call_contract_def keeps_pure)
qed

context sled_node
begin

lemma settled_view:
  assumes "settled view s' = settled view s"
  shows "ledger_view node s' = ledger_view node s"
proof -
  have "view s' t = view s t" if "t \<notin> unsettled_trees" for t
    using that fun_cong [OF assms, of t] by (simp add: settled_def)
  then show ?thesis
    by (simp add: ledger_view_def SledStorage_get_account_def SledStorage_get_block_def
        SledStorage_get_chain_state_def tree_get_ok unsettled_trees_def)
qed

lemma keeps_settled:
  assumes "\<And>t. t \<notin> unsettled_trees \<Longrightarrow> keeps (\<lambda>s. view s t) m"
  shows "keeps (settled view) m"
  using assms by (auto simp: keeps_def settled_def fun_eq_iff)

text \<open>The two entries a deployment writes.\<close>

lemma deploy_exact: "\<exists>s'. BaaLS_deploy_contract L pk wasm init node gas s = (Ok (deploy_id L pk wasm), s') \<and>
    view s' = (view s)(
      Named_tree ''contract_code'' := (view s (Named_tree ''contract_code''))
        (arr32_bytes (ContractId_to_bytes (deploy_id L pk wasm)) \<mapsto> wasm),
      Named_tree ''contract_storage'' := (case init of
          None \<Rightarrow> view s (Named_tree ''contract_storage'')
        | Some payload \<Rightarrow> (view s (Named_tree ''contract_storage''))
            (state_key L (deploy_id L pk wasm) (utf8 ''init_payload'') \<mapsto> payload)))"
proof -
  let ?id = "deploy_id L pk wasm"
  obtain s1 where s1: "SledStorage_put_contract_code S std_handles ?id wasm s = (Ok (), s1)"
    using code.put_total by blast
  have view1: "view s1 = (view s)(Named_tree ''contract_code'' :=
      (view s (Named_tree ''contract_code''))(arr32_bytes (ContractId_to_bytes ?id) \<mapsto> wasm))"
    using s1 by (simp add: SledStorage_put_contract_code_def tree_insert_Ok)
  show ?thesis
  proof (cases init)
    case None
    with s1 view1 show ?thesis
      by (auto simp: BaaLS_deploy_contract_def Let_def prog_simps)
  next
    case (Some payload)
    obtain s2 where s2: "SledStorage_contract_storage_write L S std_handles ?id (utf8 ''init_payload'') payload s1
        = (Ok (), s2)"
      using slots.put_total [of "(?id, utf8 ''init_payload'')" payload s1] by auto
    have "view s2 = (view s1)(Named_tree ''contract_storage'' :=
        (view s1 (Named_tree ''contract_storage''))(state_key L ?id (utf8 ''init_payload'') \<mapsto> payload))"
      using s2 by (simp add: SledStorage_contract_storage_write_def tree_insert_Ok)
    with Some s1 s2 view1 show ?thesis
      by (auto simp: BaaLS_deploy_contract_def Let_def prog_simps)
  qed
qed

lemma deploy_ok: "\<exists>s'. BaaLS_deploy_contract L pk wasm init node gas s = (Ok (deploy_id L pk wasm), s') \<and>
    SledStorage_get_contract_code S std_handles (deploy_id L pk wasm) s' = Ok (Some wasm) \<and>
    (\<forall>c. c \<noteq> deploy_id L pk wasm \<longrightarrow>
       SledStorage_get_contract_code S std_handles c s' = SledStorage_get_contract_code S std_handles c s) \<and>
    (\<forall>c k. SledStorage_contract_storage_read L S std_handles c k s' =
       (if c = deploy_id L pk wasm \<and> k = utf8 ''init_payload'' \<and> init \<noteq> None then Ok init
        else SledStorage_contract_storage_read L S std_handles c k s))"
  using deploy_exact [of pk wasm init gas s]
  by (auto simp: SledStorage_get_contract_code_def SledStorage_contract_storage_read_def tree_get_ok
      state_key_inject [OF hex] split: option.split)

end

sublocale sled_node \<subseteq> engine: framed_engine "SledStorage L S std_handles" "BaaLSContractEngine L" "settled view"
proof unfold_locales
  show "keeps (settled view) (deploy_contract (BaaLSContractEngine L) pk wasm init (SledStorage L S std_handles) gas)"
    for pk wasm init gas
    unfolding BaaLSContractEngine_sel by (intro keeps_settled keeps_deploy) (auto simp: unsettled_trees_def)
  show "keeps (settled view) (call_contract (BaaLSContractEngine L) pk c m args (SledStorage L S std_handles))"
    for pk c m args
    by (simp add: BaaLS_call_contract_def keeps_pure)
  show "settled view s' = settled view s \<Longrightarrow>
      ledger_view (SledStorage L S std_handles) s' = ledger_view (SledStorage L S std_handles) s" for s s'
    by (rule settled_view)
qed

context sled_node
begin

lemma deploy_view:
  "BaaLS_deploy_contract L pk wasm init node gas s = (r, s') \<Longrightarrow> ledger_view node s' = ledger_view node s"
  using engine.deploy_keeps by (rule engine.kept_view) simp

end

section \<open>Properties\<close>

text \<open>
  C35: deploying stores the code under the hash of deployer and code, and the initial payload,
  when there is one, under \<^verbatim>\<open>init_payload\<close> of that contract's storage. These are all its effects: the
  database after it is the one before with these two entries, in every tree and under every key, and the
  getters of code and contract storage see just them. The gas limit plays no part and the code is not
  looked at.
\<close>

theorem deploy_stores_code:
  fixes deployer :: public_key and wasm :: bytes
  assumes "sled_node S view L"
  defines "node \<equiv> SledStorage L S std_handles" and "cid \<equiv> deploy_id L deployer wasm"
  shows "\<exists>s'. deploy_contract (BaaLSContractEngine L) deployer wasm init node gas s = (Ok cid, s') \<and>
    view s' = (view s)(
      Named_tree ''contract_code'' := (view s (Named_tree ''contract_code''))
        (arr32_bytes (ContractId_to_bytes cid) \<mapsto> wasm),
      Named_tree ''contract_storage'' := (case init of
          None \<Rightarrow> view s (Named_tree ''contract_storage'')
        | Some payload \<Rightarrow> (view s (Named_tree ''contract_storage''))(state_key L cid (utf8 ''init_payload'') \<mapsto> payload))) \<and>
    get_contract_code node cid s' = Ok (Some wasm) \<and>
    (\<forall>c. c \<noteq> cid \<longrightarrow> get_contract_code node c s' = get_contract_code node c s) \<and>
    (\<forall>c k. contract_storage_read node c k s' =
       (if c = cid \<and> k = utf8 ''init_payload'' \<and> init \<noteq> None then Ok init
        else contract_storage_read node c k s)) \<and>
    ledger_view node s' = ledger_view node s"
proof -
  note defs = node_def cid_def
  obtain s' where run: "BaaLS_deploy_contract L deployer wasm init node gas s = (Ok cid, s')"
    and exact: "view s' = (view s)(
      Named_tree ''contract_code'' := (view s (Named_tree ''contract_code''))
        (arr32_bytes (ContractId_to_bytes cid) \<mapsto> wasm),
      Named_tree ''contract_storage'' := (case init of
          None \<Rightarrow> view s (Named_tree ''contract_storage'')
        | Some payload \<Rightarrow> (view s (Named_tree ''contract_storage''))(state_key L cid (utf8 ''init_payload'') \<mapsto> payload)))"
    using sled_node.deploy_exact [OF assms(1), of deployer wasm init gas s] unfolding defs by blast
  have "ledger_view node s' = ledger_view node s"
    using run unfolding defs by (rule sled_node.deploy_view [OF assms(1)])
  with run exact sled_node.deploy_ok [OF assms(1), of deployer wasm init gas s] show ?thesis
    unfolding defs BaaLSContractEngine_sel SledStorage_sel by (intro exI [of _ s']) auto
qed

theorem deploy_stores_code_witness:
  "\<exists>s'. deploy_contract (BaaLSContractEngine ref_lib) (PublicKey 7) [1, 2] (Some [3])
      (SledStorage ref_lib mem_sled std_handles) 0 empty_mem = (Ok (deploy_id ref_lib (PublicKey 7) [1, 2]), s') \<and>
    get_contract_code (SledStorage ref_lib mem_sled std_handles) (deploy_id ref_lib (PublicKey 7) [1, 2]) s' =
      Ok (Some [1, 2])"
  using deploy_stores_code [OF mem_node.sled_node_axioms, of "PublicKey 7" "[1, 2]" "Some [3]" 0 empty_mem] by blast

end
