(* ===== verification/Baals_Consensus.thy ===== *)
theory Baals_Consensus
  imports Baals_Types
begin

text \<open>
  \<^verbatim>\<open>src/consensus.rs\<close>: the \<^verbatim>\<open>ConsensusEngine\<close> trait as a record of operations, the implementation
  \<^verbatim>\<open>PoAConsensus\<close>, and the contract a block producer has to keep for the ledger to accept its
  blocks (locale \<open>block_producer\<close>).
\<close>

section \<open>The ConsensusEngine trait\<close>

datatype consensus_error =
    CO_ValidationFailed string
  | CO_InvalidSignature crypto_error
  | CO_UnauthorizedSigner
  | CO_InvalidTimestamp
  | CO_MismatchedPrevHash
  | CO_InvalidNonce
  | CO_NoPendingTransactions

record consensus_engine =
  validate_block :: "block \<Rightarrow> chain_state \<Rightarrow> (unit, consensus_error) outcome"
  generate_block :: "transaction list \<Rightarrow> block \<Rightarrow> chain_state \<Rightarrow> (block, consensus_error) outcome"

section \<open>PoAConsensus\<close>

record poa_consensus =
  authorized_signer_key :: public_key
  block_time_interval_ms :: u64

definition PoAConsensus_new :: "public_key \<Rightarrow> u64 \<Rightarrow> poa_consensus" where
  "PoAConsensus_new key interval = \<lparr>authorized_signer_key = key, block_time_interval_ms = interval\<rparr>"

definition PoA_validate_block :: "poa_consensus \<Rightarrow> block \<Rightarrow> (unit, consensus_error) outcome" where
  "PoA_validate_block self block = Ok ()"

text \<open>The signature is computed and dropped: \<^verbatim>\<open>let _signature = private_key.sign(&block.hash)\<close>.\<close>

definition PoA_sign_block :: "lib \<Rightarrow> poa_consensus \<Rightarrow> arr32 \<Rightarrow> (block, unit, consensus_error) prog" where
  "PoA_sign_block L self private_key =
     (if ed_verifying_key L private_key \<noteq> PublicKey_to_bytes (authorized_signer_key self)
      then fail CO_UnauthorizedSigner
      else then_do (reads (\<lambda>block. Ok (ed_sign L private_key (arr32_bytes (b_hash block))))) (\<lambda>signature.
        ret ()))"

text \<open>\<^verbatim>\<open>format!("{:?}", e)\<close> with the derived \<^verbatim>\<open>Debug\<close> of \<^verbatim>\<open>CryptoError\<close>.\<close>

primrec debug_crypto_error :: "crypto_error \<Rightarrow> string" where
  "debug_crypto_error HashConversionError = ''HashConversionError''"
| "debug_crypto_error SignatureVerificationFailed = ''SignatureVerificationFailed''"
| "debug_crypto_error InvalidPublicKey = ''InvalidPublicKey''"
| "debug_crypto_error InvalidSignature = ''InvalidSignature''"

definition PoA_generate_block ::
    "lib \<Rightarrow> transaction list \<Rightarrow> block \<Rightarrow> (block, consensus_error) outcome" where
  "PoA_generate_block L pending_transactions prev_block =
     (if pending_transactions = [] then Err CO_NoPendingTransactions
      else
        bind_o (add_checked (overflow_checks L) (b_index prev_block) 1) (\<lambda>index.
        bind_o (add_checked (overflow_checks L) (b_timestamp prev_block) 1) (\<lambda>timestamp.
        let block = \<lparr>b_index = index, b_timestamp = timestamp, b_prev_hash = b_hash prev_block,
              b_hash = 0, b_nonce = 0, b_transactions = pending_transactions, b_metadata = None\<rparr> in
        bind_o (map_err_o (\<lambda>e. CO_ValidationFailed (''Hash error: '' @ debug_crypto_error e))
          (Block_calculate_hash L block)) (\<lambda>h.
        Ok (block\<lparr>b_hash := h\<rparr>)))))"

definition PoAConsensus :: "lib \<Rightarrow> poa_consensus \<Rightarrow> consensus_engine" where
  "PoAConsensus L self = \<lparr>
     validate_block = (\<lambda>block chain_state. PoA_validate_block self block),
     generate_block = (\<lambda>pending_transactions prev_block chain_state.
       PoA_generate_block L pending_transactions prev_block)\<rparr>"

lemma PoAConsensus_sel [simp]:
  "validate_block (PoAConsensus L self) b cs = PoA_validate_block self b"
  "generate_block (PoAConsensus L self) txs prev cs = PoA_generate_block L txs prev"
  by (simp_all add: PoAConsensus_def)

section \<open>What a block producer promises\<close>

text \<open>
  \<open>extends L prev txs b\<close>: \<open>b\<close> is a block on top of \<open>prev\<close> with the transactions \<open>txs\<close>, one higher
  and one later, sealed with its own hash.
\<close>

definition extends :: "lib \<Rightarrow> block \<Rightarrow> transaction list \<Rightarrow> block \<Rightarrow> bool" where
  "extends L prev txs b \<longleftrightarrow>
     b_index b = b_index prev + 1 \<and> b_timestamp b = b_timestamp prev + 1 \<and>
     b_prev_hash b = b_hash prev \<and> b_transactions b = txs \<and> Block_calculate_hash L b = Ok (b_hash b)"

locale block_producer =
  fixes L :: lib and C :: consensus_engine
  assumes generated: "generate_block C txs prev cs = Ok b \<Longrightarrow> txs \<noteq> [] \<and> extends L prev txs b"
    and produces: "txs \<noteq> [] \<Longrightarrow> b_index prev < - 1 \<Longrightarrow> b_timestamp prev < - 1 \<Longrightarrow>
      bincode_documented L \<Longrightarrow> \<exists>b. generate_block C txs prev cs = Ok b"

text \<open>The stored hash is not part of what is hashed.\<close>

lemma Block_calculate_hash_update [simp]:
  "Block_calculate_hash L (b\<lparr>b_hash := h\<rparr>) = Block_calculate_hash L b"
  by (simp add: Block_calculate_hash_def)

lemma below_max: "(w :: 'w::len word) < - 1 \<longleftrightarrow> unat w + 1 < 2 ^ LENGTH('w)"
  by (simp add: word_less_nat_alt unsigned_minus_1_eq_mask mask_eq_exp_minus_1 less_diff_conv)

lemma successor_less: "(w :: 'w::len word) < - 1 \<Longrightarrow> w < w + 1"
  unfolding below_max by (simp add: word_less_nat_alt unat_word_ariths)

interpretation poa: block_producer L "PoAConsensus L self" for L self
proof unfold_locales
  fix txs prev cs b
  show "generate_block (PoAConsensus L self) txs prev cs = Ok b \<Longrightarrow> txs \<noteq> [] \<and> extends L prev txs b"
    by (auto simp: PoA_generate_block_def extends_def Let_def Block_calculate_hash_def bind_o_Ok_iff split: if_splits)
next
  fix txs :: "transaction list" and prev :: block and cs :: chain_state
  assume "txs \<noteq> []" "b_index prev < - 1" "b_timestamp prev < - 1" "bincode_documented L"
  then show "\<exists>b. generate_block (PoAConsensus L self) txs prev cs = Ok b"
    by (auto simp: PoA_generate_block_def Let_def add_checked_fits below_max Block_calculate_hash_def
        hash_metadata_def bincode_documented_def bind_o_Ok_iff)
qed

end
