(* ===== verification/Baals_Ledger.thy ===== *)
theory Baals_Ledger
  imports Baals_Contracts Baals_Consensus
begin

text \<open>
  \<^verbatim>\<open>src/ledger.rs\<close>: \<^verbatim>\<open>Ledger\<close> over any \<^verbatim>\<open>Storage\<close> and \<^verbatim>\<open>ContractEngine\<close> (the dictionaries \<open>T\<close> and \<open>E\<close>).
  \<^verbatim>\<open>apply_block\<close> runs on the storage and the caller's \<^verbatim>\<open>&mut ChainState\<close>, a pair; its
  \<^verbatim>\<open>accounts_to_update\<close> and \<^verbatim>\<open>batch\<close> are threaded through the loop over the transactions.
\<close>

datatype ledger_error =
    LE_StorageError storage_error
  | LE_CryptoError crypto_error
  | LE_BlockValidation string
  | LE_StateTransition string
  | LE_AccountNotFound string
  | LE_InsufficientBalance string
  | LE_InvalidNonce string u64 u64
  | LE_ContractNotFound string
  | LE_WasmValidationFailed string
  | LE_InvalidTransactionPayload
  | LE_SerializationError string
  | LE_ContractError contract_error
  | LE_NotFound

section \<open>Messages\<close>

text \<open>The derived \<^verbatim>\<open>Debug\<close> of \<^verbatim>\<open>PublicKey\<close>; that of \<^verbatim>\<open>VerifyingKey\<close> is the library's.\<close>

definition debug_PublicKey :: "lib \<Rightarrow> public_key \<Rightarrow> string" where
  "debug_PublicKey L pk = ''PublicKey('' @ debug_verifying_key L (PublicKey_to_bytes pk) @ '')''"

text \<open>\<^verbatim>\<open>{:x?}\<close> of a byte array: the elements in hexadecimal without padding.\<close>

definition hex_u8 :: "u8 \<Rightarrow> string" where
  "hex_u8 b = (if unat b < 16 then [hex_digit (unat b)]
     else [hex_digit (unat b div 16), hex_digit (unat b mod 16)])"

fun join_comma :: "string list \<Rightarrow> string" where
  "join_comma [] = []"
| "join_comma [x] = x"
| "join_comma (x # xs) = x @ '', '' @ join_comma xs"

definition debug_hex :: "arr32 \<Rightarrow> string" where
  "debug_hex h = ''['' @ join_comma (map hex_u8 (arr32_bytes h)) @ '']''"

definition ser_err :: "('a, string) outcome \<Rightarrow> ('a, ledger_error) outcome" where
  "ser_err r = map_err_o LE_SerializationError r"

definition global_current :: sval where
  "global_current = SStr ''global:current''"

section \<open>Genesis\<close>

definition genesis_block :: block where
  "genesis_block = \<lparr>b_index = 0, b_timestamp = 0, b_prev_hash = 0, b_hash = 0, b_nonce = 0,
     b_transactions = [], b_metadata = None\<rparr>"

definition Ledger_initialize_chain :: "lib \<Rightarrow> 's storage \<Rightarrow> ('s, unit, ledger_error) prog" where
  "Ledger_initialize_chain L T =
     then_do (map_err LE_StorageError (reads (get_chain_state T))) (\<lambda>found.
     if found \<noteq> None then ret ()
     else
       then_do (lift (map_err_o LE_CryptoError (Block_calculate_hash L genesis_block))) (\<lambda>calculated.
       let genesis = genesis_block\<lparr>b_hash := calculated\<rparr>;
           initial = \<lparr>latest_block_hash = b_hash genesis, latest_block_index = 0,
             accounts_root_hash = 0, total_supply = 0\<rparr> in
       then_do (lift (ser_err (bincode_serialize L (ser_arr32 (b_hash genesis))))) (\<lambda>k1.
       then_do (lift (ser_err (bincode_serialize L (ser_Block genesis)))) (\<lambda>v1.
       then_do (lift (ser_err (bincode_serialize L global_current))) (\<lambda>k2.
       then_do (lift (ser_err (bincode_serialize L (ser_ChainState initial)))) (\<lambda>v2.
       map_err LE_StorageError (apply_batch T [Put k1 v1, Put k2 v2])))))))"

section \<open>Validation\<close>

text \<open>The loop over the transactions of a block: every signature, in order.\<close>

primrec check_signatures :: "lib \<Rightarrow> transaction list \<Rightarrow> (unit, ledger_error) outcome" where
  "check_signatures L [] = Ok ()"
| "check_signatures L (tx # txs) =
     bind_o (map_err_o LE_CryptoError (Transaction_verify_signature L tx)) (\<lambda>valid.
     if \<not> valid then Err (LE_BlockValidation (''Invalid signature for transaction: '' @ debug_hex (t_hash tx)))
     else check_signatures L txs)"

text \<open>The parent is read only when the index is not 0, which \<^verbatim>\<open>&&\<close> decides first.\<close>

definition timestamp_not_after_parent ::
    "'s storage \<Rightarrow> block \<Rightarrow> 's \<Rightarrow> (bool, ledger_error) outcome" where
  "timestamp_not_after_parent T block s =
     (if b_index block > 0
      then bind_o (map_err_o LE_StorageError (get_block T (b_prev_hash block) s)) (\<lambda>parent.
        case parent of
          None \<Rightarrow> Err LE_NotFound
        | Some p \<Rightarrow> Ok (b_timestamp block \<le> b_timestamp p))
      else Ok False)"

definition Ledger_validate_block ::
    "lib \<Rightarrow> 's storage \<Rightarrow> block \<Rightarrow> chain_state \<Rightarrow> 's \<Rightarrow> (unit, ledger_error) outcome" where
  "Ledger_validate_block L T block current_chain_state s =
     bind_o (add_checked (overflow_checks L) (latest_block_index current_chain_state) 1) (\<lambda>expected.
     if b_index block \<noteq> expected
     then Err (LE_BlockValidation (''Invalid block index: expected '' @ show_dec (unat expected) @
       '', got '' @ show_dec (unat (b_index block))))
     else if b_prev_hash block \<noteq> latest_block_hash current_chain_state
     then Err (LE_BlockValidation (''Invalid previous hash: expected '' @
       debug_hex (latest_block_hash current_chain_state) @ '', got '' @ debug_hex (b_prev_hash block)))
     else
       bind_o (map_err_o LE_CryptoError (Block_calculate_hash L block)) (\<lambda>calculated.
       if calculated \<noteq> b_hash block
       then Err (LE_BlockValidation (''Invalid block hash: expected '' @ debug_hex calculated @
         '', got '' @ debug_hex (b_hash block)))
       else
         bind_o (timestamp_not_after_parent T block s) (\<lambda>stale.
         if stale
         then Err (LE_BlockValidation ''Block timestamp is not greater than previous block's timestamp'')
         else check_signatures L (b_transactions block))))"

section \<open>State transition\<close>

type_synonym updates = "(public_key, account) btree_map"

definition storage_err :: "('s, 'a, storage_error) prog \<Rightarrow> ('s, 'a, ledger_error) prog" where
  "storage_err m = map_err LE_StorageError m"

text \<open>
  \<^verbatim>\<open>TransactionPayload::Transfer\<close>: the sender is debited in the map of updates, the recipient is
  read from the storage, credited, and put over whatever the map held for it.
\<close>

definition transfer_credit ::
    "lib \<Rightarrow> 's storage \<Rightarrow> address \<Rightarrow> u64 \<Rightarrow> updates \<Rightarrow> ('s, updates, ledger_error) prog" where
  "transfer_credit L T recipient amount accounts =
     (case recipient of
        Addr_Contract c \<Rightarrow>
          fail (LE_StateTransition ''Cannot transfer native token to a contract directly'')
      | Addr_Wallet pk \<Rightarrow>
          then_do (storage_err (reads (get_account T pk))) (\<lambda>found.
          case found of
            Some (Wallet balance nonce) \<Rightarrow>
              then_do (lift (add_checked (overflow_checks L) balance amount)) (\<lambda>balance.
              ret (bt_insert pk (Wallet balance nonce) accounts))
          | Some (Contract code_hash storage_root_hash nonce) \<Rightarrow>
              fail (LE_StateTransition ''Recipient is not a wallet account'')
          | None \<Rightarrow> ret (bt_insert pk (Wallet amount 0) accounts)))"

definition apply_transfer ::
    "lib \<Rightarrow> 's storage \<Rightarrow> transaction \<Rightarrow> u64 \<Rightarrow> updates \<Rightarrow> ('s, updates, ledger_error) prog" where
  "apply_transfer L T tx amount accounts =
     (case map_of accounts (t_sender tx) of
        None \<Rightarrow> fail (LE_StateTransition ''Sender account not found in update map'')
      | Some (Contract code_hash storage_root_hash nonce) \<Rightarrow>
          fail (LE_StateTransition ''Sender is not a wallet account'')
      | Some (Wallet balance nonce) \<Rightarrow>
          if balance < amount then fail (LE_InsufficientBalance (debug_PublicKey L (t_sender tx)))
          else transfer_credit L T (t_recipient tx) amount
            (bt_insert (t_sender tx) (Wallet (balance - amount) nonce) accounts))"

definition apply_payload ::
    "lib \<Rightarrow> 's storage \<Rightarrow> 's contract_engine \<Rightarrow> transaction \<Rightarrow> account \<Rightarrow> updates \<Rightarrow>
     ('s, updates, ledger_error) prog" where
  "apply_payload L T E tx sender_account accounts =
     (case t_payload tx of
        Transfer amount \<Rightarrow> apply_transfer L T tx amount accounts
      | ContractDeploy wasm_bytes \<Rightarrow>
          then_do (map_err LE_ContractError
            (deploy_contract E (t_sender tx) wasm_bytes None T (t_gas_limit tx))) (\<lambda>contract_id.
          ret (bt_insert (t_sender tx)
            (Contract (ContractId_to_bytes contract_id) 0 (Account_nonce sender_account)) accounts))
      | ContractCall method args \<Rightarrow>
          (case t_recipient tx of
             Addr_Contract contract_id \<Rightarrow>
               then_do (discard (call_contract E (t_sender tx) contract_id method args T)) (\<lambda>_.
               ret accounts)
           | Addr_Wallet pk \<Rightarrow> fail LE_InvalidTransactionPayload)
      | Data data \<Rightarrow> ret accounts)"

text \<open>One pass of the loop: the sender's stored account, its nonce, the payload, the mempool delete.\<close>

definition apply_tx ::
    "lib \<Rightarrow> 's storage \<Rightarrow> 's contract_engine \<Rightarrow> transaction \<Rightarrow> updates \<times> storage_batch \<Rightarrow>
     ('s, updates \<times> storage_batch, ledger_error) prog" where
  "apply_tx L T E tx = (\<lambda>(accounts, batch).
     then_do (storage_err (reads (get_account T (t_sender tx)))) (\<lambda>found.
     case found of
       None \<Rightarrow> fail (LE_AccountNotFound
         (''Sender account not found: '' @ debug_PublicKey L (t_sender tx)))
     | Some stored \<Rightarrow>
         then_do (lift (add_checked (overflow_checks L) (Account_nonce stored) 1)) (\<lambda>expected.
         if expected \<noteq> t_nonce tx
         then fail (LE_InvalidNonce (debug_PublicKey L (t_sender tx)) expected (t_nonce tx))
         else
           let sender_account = Account_set_nonce expected stored in
           then_do (apply_payload L T E tx sender_account
             (bt_insert (t_sender tx) sender_account accounts)) (\<lambda>accounts.
           then_do (lift (ser_err (bincode_serialize L (ser_arr32 (t_hash tx))))) (\<lambda>key.
           ret (accounts, batch @ [Delete key]))))))"

primrec apply_txs ::
    "lib \<Rightarrow> 's storage \<Rightarrow> 's contract_engine \<Rightarrow> transaction list \<Rightarrow> updates \<times> storage_batch \<Rightarrow>
     ('s, updates \<times> storage_batch, ledger_error) prog" where
  "apply_txs L T E [] acc = ret acc"
| "apply_txs L T E (tx # txs) acc = then_do (apply_tx L T E tx acc) (apply_txs L T E txs)"

definition account_put :: "lib \<Rightarrow> public_key \<times> account \<Rightarrow> (storage_operation, ledger_error) outcome" where
  "account_put L = (\<lambda>(address, account).
     bind_o (ser_err (bincode_serialize L (ser_PublicKey address))) (\<lambda>key.
     bind_o (ser_err (bincode_serialize L (ser_Account account))) (\<lambda>value.
     Ok (Put key value))))"

definition index_transactions :: "'s storage \<Rightarrow> block \<Rightarrow> ('s, unit, ledger_error) prog" where
  "index_transactions T block =
     for_each (\<lambda>(i, tx). storage_err (index_transaction T (t_hash tx) (b_hash block) (word_of_nat i)))
       (enumerate 0 (b_transactions block))"

definition advance :: "block \<Rightarrow> chain_state \<Rightarrow> chain_state" where
  "advance block cs = cs\<lparr>latest_block_hash := b_hash block, latest_block_index := b_index block\<rparr>"

text \<open>
  \<^verbatim>\<open>apply_block\<close>: the loop, the account updates in key order, the chain state, the index of the
  transactions, the batch. The chain state is the second part of the state and is written
  before the steps that can still fail.
\<close>

definition Ledger_apply_block ::
    "lib \<Rightarrow> 's storage \<Rightarrow> 's contract_engine \<Rightarrow> block \<Rightarrow> ('s \<times> chain_state, unit, ledger_error) prog" where
  "Ledger_apply_block L T E block =
     then_do (on_fst (apply_txs L T E (b_transactions block) ([], []))) (\<lambda>(accounts, batch).
     then_do (lift (map_o (account_put L) accounts)) (\<lambda>puts.
     then_do (modify (map_prod id (advance block))) (\<lambda>_.
     then_do (lift (ser_err (bincode_serialize L global_current))) (\<lambda>key.
     then_do (reads (\<lambda>(s, cs). ser_err (bincode_serialize L (ser_ChainState cs)))) (\<lambda>value.
     then_do (on_fst (index_transactions T block)) (\<lambda>_.
     on_fst (storage_err (apply_batch T (batch @ puts @ [Put key value])))))))))"

end
