(* ===== verification/Baals_Ledger_Facts.thy ===== *)
theory Baals_Ledger_Facts
  imports Baals_Ledger
begin

text \<open>
  What \<^verbatim>\<open>Ledger\<close> does: when \<^verbatim>\<open>validate_block\<close> accepts, that it accepts what a block producer makes,
  that \<^verbatim>\<open>apply_block\<close> computes a pure function of the stored accounts (\<open>spec_txs\<close>), what that
  function conserves and where it does not, and what an applied block leaves in the storage.
\<close>

section \<open>Validation\<close>

lemma check_signatures_Ok:
  "check_signatures L txs = Ok () \<longleftrightarrow> (\<forall>tx \<in> set txs. Transaction_verify_signature L tx = Ok True)"
  by (induction txs) (auto simp: bind_o_Ok_iff split: if_splits)

lemma timestamp_not_after_parent_False:
  "timestamp_not_after_parent T b s = Ok False \<longleftrightarrow>
     b_index b = 0 \<or> (\<exists>p. get_block T (b_prev_hash b) s = Ok (Some p) \<and> b_timestamp p < b_timestamp b)"
  by (auto simp: timestamp_not_after_parent_def bind_o_Ok_iff word_neq_0_conv not_le split: option.splits)

lemma validate_block_Ok:
  "Ledger_validate_block L T b cs s = Ok () \<longleftrightarrow>
     add_checked (overflow_checks L) (latest_block_index cs) 1 = (Ok (b_index b) :: (u64, ledger_error) outcome) \<and>
     b_prev_hash b = latest_block_hash cs \<and> Block_calculate_hash L b = Ok (b_hash b) \<and>
     timestamp_not_after_parent T b s = Ok False \<and>
     (\<forall>tx \<in> set (b_transactions b). Transaction_verify_signature L tx = Ok True)"
  unfolding Ledger_validate_block_def check_signatures_Ok [symmetric]
  by (auto simp: bind_o_Ok_iff split: if_splits)

context block_producer
begin

lemma generated_validates:
  assumes gen: "generate_block C txs prev cs = Ok b"
    and prev: "get_block T (b_hash prev) s = Ok (Some prev)"
      "b_hash prev = latest_block_hash cs" "b_index prev = latest_block_index cs"
    and room: "b_index prev < - 1" "b_timestamp prev < - 1"
    and sigs: "\<forall>tx \<in> set txs. Transaction_verify_signature L tx = Ok True"
  shows "Ledger_validate_block L T b cs s = Ok ()"
proof -
  have b: "extends L prev txs b"
    using generated [OF gen] by blast
  have "b_timestamp prev < b_timestamp b"
    using b room(2) by (simp add: extends_def successor_less)
  then have "timestamp_not_after_parent T b s = Ok False"
    using b prev(1) by (auto simp: timestamp_not_after_parent_False extends_def)
  moreover have "add_checked (overflow_checks L) (latest_block_index cs) 1 = (Ok (b_index b) :: (u64, ledger_error) outcome)"
    using b prev(3) room(1) by (simp add: extends_def add_checked_fits below_max)
  ultimately show ?thesis
    using b prev(2) sigs by (simp add: validate_block_Ok extends_def)
qed

end

section \<open>Frames\<close>

context kept_engine
begin

lemma keeps_apply_transfer [keeps_rules]: "keeps obs (apply_transfer L T tx amount accounts)"
  by (auto simp: apply_transfer_def transfer_credit_def storage_err_def
      intro!: keeps_rules split: option.split account.split address.split)

lemma keeps_apply_payload [keeps_rules]: "keeps obs (apply_payload L T E tx a accounts)"
  by (auto simp: apply_payload_def intro!: keeps_rules deploy_keeps call_keeps
      split: transaction_payload.split address.split)

lemma keeps_apply_tx [keeps_rules]: "keeps obs (apply_tx L T E tx acc)"
  by (auto simp: apply_tx_def storage_err_def Let_def intro!: keeps_rules split: prod.split option.split)

lemma keeps_apply_txs [keeps_rules]: "keeps obs (apply_txs L T E txs acc)"
  by (induction txs arbitrary: acc) (auto intro!: keeps_rules)

end

context framed_engine
begin

lemma apply_tx_nonce:
  assumes "apply_tx L T E tx acc s = (Ok acc', s')"
  shows "\<exists>a. get_account T (t_sender tx) s = Ok (Some a) \<and> t_nonce tx = Account_nonce a + 1"
  using assms
  by (auto simp: apply_tx_def storage_err_def then_do_Ok_iff map_err_Ok_iff reads_def lift_def fail_def
      split: prod.splits option.splits if_splits)

text \<open>Every transaction of the block is checked against the accounts as they were before the block.\<close>

lemma apply_txs_nonces:
  assumes "apply_txs L T E txs acc s = (Ok acc', s')" "tx \<in> set txs"
  shows "\<exists>a. get_account T (t_sender tx) s = Ok (Some a) \<and> t_nonce tx = Account_nonce a + 1"
  using assms
proof (induction txs arbitrary: acc s)
  case (Cons tx' txs)
  then obtain acc1 s1 where step: "apply_tx L T E tx' acc s = (Ok acc1, s1)"
      and rest: "apply_txs L T E txs acc1 s1 = (Ok acc', s')"
    by (auto simp: then_do_Ok_iff)
  have same: "ledger_view T s1 = ledger_view T s"
    using keeps_apply_tx step by (rule kept_view)
  show ?case
    using Cons.IH [OF rest] Cons.prems(2) apply_tx_nonce [OF step] by (auto simp: ledger_viewD(1) [OF same])
qed simp

lemma apply_block_nonces:
  assumes "Ledger_apply_block L T E b (s, cs) = (Ok (), st)" "tx \<in> set (b_transactions b)"
  shows "\<exists>a. get_account T (t_sender tx) s = Ok (Some a) \<and> t_nonce tx = Account_nonce a + 1"
proof -
  from assms(1) obtain acc s1 where "apply_txs L T E (b_transactions b) ([], []) s = (Ok acc, s1)"
    by (auto simp: Ledger_apply_block_def then_do_Ok_iff on_fst_Ok_iff)
  then show ?thesis
    using assms(2) by (rule apply_txs_nonces)
qed

end

section \<open>The abstract state transition\<close>

text \<open>
  \<open>spec_txs L deployed stored txs upd\<close>: the account updates of a block as a pure function of the
  accounts \<open>stored\<close> before it, \<open>None\<close> when the block is refused. \<open>deployed\<close> is the id a deployment
  gets.
\<close>

type_synonym stored_accounts = "public_key \<Rightarrow> (account option, storage_error) outcome"

definition spec_credit :: "lib \<Rightarrow> stored_accounts \<Rightarrow> public_key \<Rightarrow> u64 \<Rightarrow> account option" where
  "spec_credit L stored pk amount = (case stored pk of
       Ok (Some (Wallet balance nonce)) \<Rightarrow>
         if overflow_checks L \<and> 2 ^ 64 \<le> unat balance + unat amount then None
         else Some (Wallet (balance + amount) nonce)
     | Ok None \<Rightarrow> Some (Wallet amount 0)
     | _ \<Rightarrow> None)"

definition spec_tx ::
    "lib \<Rightarrow> (public_key \<Rightarrow> bytes \<Rightarrow> contract_id) \<Rightarrow> stored_accounts \<Rightarrow> transaction \<Rightarrow>
     (public_key \<rightharpoonup> account) \<Rightarrow> (public_key \<rightharpoonup> account) option" where
  "spec_tx L deployed stored tx upd = (case stored (t_sender tx) of
       Ok (Some sender) \<Rightarrow>
         if overflow_checks L \<and> 2 ^ 64 \<le> unat (Account_nonce sender) + 1 then None
         else if t_nonce tx \<noteq> Account_nonce sender + 1 then None
         else (case t_payload tx of
             Transfer amount \<Rightarrow> (case (sender, t_recipient tx) of
                 (Wallet balance nonce, Addr_Wallet pk) \<Rightarrow>
                   if balance < amount then None
                   else map_option (\<lambda>r. upd(t_sender tx \<mapsto> Wallet (balance - amount) (t_nonce tx), pk \<mapsto> r))
                     (spec_credit L stored pk amount)
               | _ \<Rightarrow> None)
           | ContractDeploy wasm \<Rightarrow>
               Some (upd(t_sender tx \<mapsto>
                 Contract (ContractId_to_bytes (deployed (t_sender tx) wasm)) 0 (t_nonce tx)))
           | ContractCall method args \<Rightarrow> (case t_recipient tx of
                 Addr_Contract c \<Rightarrow> Some (upd(t_sender tx \<mapsto> Account_set_nonce (t_nonce tx) sender))
               | Addr_Wallet pk \<Rightarrow> None)
           | Data data \<Rightarrow> Some (upd(t_sender tx \<mapsto> Account_set_nonce (t_nonce tx) sender)))
     | _ \<Rightarrow> None)"

primrec spec_txs ::
    "lib \<Rightarrow> (public_key \<Rightarrow> bytes \<Rightarrow> contract_id) \<Rightarrow> stored_accounts \<Rightarrow> transaction list \<Rightarrow>
     (public_key \<rightharpoonup> account) \<Rightarrow> (public_key \<rightharpoonup> account) option" where
  "spec_txs L deployed stored [] upd = Some upd"
| "spec_txs L deployed stored (tx # txs) upd =
     Option.bind (spec_tx L deployed stored tx upd) (spec_txs L deployed stored txs)"

text \<open>What \<^verbatim>\<open>apply_block\<close> writes: a delete per transaction, the updates in key order, the chain state.\<close>

definition block_batch :: "transaction list \<Rightarrow> updates \<Rightarrow> chain_state \<Rightarrow> storage_batch" where
  "block_batch txs m cs =
     map (\<lambda>tx. Delete (wire_ser (ser_arr32 (t_hash tx)))) txs @
     map (\<lambda>(a, acc). Put (wire_ser (ser_PublicKey a)) (wire_ser (ser_Account acc))) m @
     [Put (wire_ser global_current) (wire_ser (ser_ChainState cs))]"

lemma transfer_credit_sorted:
  assumes "transfer_credit L T r amount m s = (Ok m', s')" "bt_sorted m"
  shows "bt_sorted m'"
  using assms
  by (cases r)
    (auto simp: transfer_credit_def then_do_def storage_err_def map_err_def prog_simps add_checked_def
      bt_sorted_insert split: outcome.splits option.splits account.splits if_splits)

lemma apply_payload_sorted:
  assumes "apply_payload L T E tx a m s = (Ok m', s')" "bt_sorted m"
  shows "bt_sorted m'"
  using assms
  by (auto simp: apply_payload_def apply_transfer_def then_do_Ok_iff prog_simps bt_sorted_insert
      split: transaction_payload.splits option.splits account.splits if_splits address.splits
      dest: transfer_credit_sorted)

lemma bincode_serialize_Ok: "bincode_documented L \<Longrightarrow> ser_err (bincode_serialize L v) = Ok (wire_ser v)"
  by (simp add: bincode_documented_def ser_err_def)

lemma apply_tx_shape:
  assumes bincode: "bincode_documented L"
    and run: "apply_tx L T E tx (m, batch) s = (Ok (m', b), s')"
  shows "b = batch @ [Delete (wire_ser (ser_arr32 (t_hash tx)))] \<and> (bt_sorted m \<longrightarrow> bt_sorted m')"
  using run
  by (auto simp: apply_tx_def then_do_Ok_iff prog_simps Let_def bincode_serialize_Ok [OF bincode]
      split: option.splits if_splits intro: apply_payload_sorted bt_sorted_insert)

lemma apply_txs_shape:
  assumes "bincode_documented L" "apply_txs L T E txs (m, batch) s = (Ok (m', b), s')" "bt_sorted m"
  shows "b = batch @ map (\<lambda>tx. Delete (wire_ser (ser_arr32 (t_hash tx)))) txs \<and> bt_sorted m'"
  using assms(2,3)
proof (induction txs arbitrary: m batch s)
  case (Cons tx txs)
  then obtain m1 b1 s1 where step: "apply_tx L T E tx (m, batch) s = (Ok (m1, b1), s1)"
      and rest: "apply_txs L T E txs (m1, b1) s1 = (Ok (m', b), s')"
    by (auto simp: then_do_Ok_iff)
  from apply_tx_shape [OF assms(1) step] Cons.IH [OF rest] Cons.prems(2) show ?case
    by simp
qed (simp add: prog_simps)

lemma account_puts:
  assumes "bincode_documented L"
  shows "map_o (account_put L) m =
    Ok (map (\<lambda>(a, acc). Put (wire_ser (ser_PublicKey a)) (wire_ser (ser_Account acc))) m)"
  using assms by (intro map_o_Ok) (auto simp: account_put_def ser_err_def bincode_documented_def)

text \<open>A backend on which nothing but the ledger's own checks can refuse a block.\<close>

locale working_backend = framed_engine T E obs
  for T :: "'s storage" and E :: "'s contract_engine" and obs :: "'s \<Rightarrow> 'o" +
  fixes L :: lib and deployed :: "public_key \<Rightarrow> bytes \<Rightarrow> contract_id"
  assumes bincode: "bincode_documented L"
    and deploy_total: "\<exists>s'. deploy_contract E pk wasm init T gas s = (Ok (deployed pk wasm), s')"
    and call_total: "fst (call_contract E pk c m args T s) \<noteq> Panic \<and> fst (call_contract E pk c m args T s) \<noteq> Hang"
    and index_total: "\<exists>s'. index_transaction T h b i s = (Ok (), s')"
    and index_keeps: "keeps obs (index_transaction T h b i)"
    and batch_total: "\<exists>s'. apply_batch T ops s = (Ok (), s')"
begin

lemma serialize [simp]: "bincode_serialize L v = Ok (wire_ser v)" "ser_err (Ok x) = Ok x"
  using bincode by (simp_all add: bincode_documented_def ser_err_def)

lemma call_ignored: "\<exists>s'. discard (call_contract E pk c m args T) s = (Ok (), s')"
  using call_total [of pk c m args s] by (auto simp: discard_def split: prod.split outcome.split)

lemma transfer_credit_spec:
  "(\<exists>m' s'. transfer_credit L T (Addr_Wallet pk) amount m s = (Ok m', s') \<and> map_of m' = upd) \<longleftrightarrow>
   map_option (\<lambda>r. (map_of m)(pk \<mapsto> r)) (spec_credit L (\<lambda>a. get_account T a s) pk amount) = Some upd"
  by (auto simp: transfer_credit_def spec_credit_def storage_err_def then_do_def map_err_def prog_simps
      add_checked_def split: outcome.splits option.splits account.splits)

lemma apply_payload_Ok:
  assumes "map_of m (t_sender tx) = Some a"
  shows "(\<exists>m' s'. apply_payload L T E tx a m s = (Ok m', s') \<and> map_of m' = upd) \<longleftrightarrow>
    (case t_payload tx of
        Transfer amount \<Rightarrow> (case (a, t_recipient tx) of
            (Wallet balance nonce, Addr_Wallet pk) \<Rightarrow> \<not> balance < amount \<and>
              map_option (\<lambda>r. (map_of m)(t_sender tx \<mapsto> Wallet (balance - amount) nonce, pk \<mapsto> r))
                (spec_credit L (\<lambda>a. get_account T a s) pk amount) = Some upd
          | _ \<Rightarrow> False)
      | ContractDeploy wasm \<Rightarrow> upd = (map_of m)(t_sender tx \<mapsto>
            Contract (ContractId_to_bytes (deployed (t_sender tx) wasm)) 0 (Account_nonce a))
      | ContractCall method args \<Rightarrow> (\<exists>c. t_recipient tx = Addr_Contract c) \<and> upd = map_of m
      | Data data \<Rightarrow> upd = map_of m)"
proof (cases "t_payload tx")
  case (Transfer amount)
  show ?thesis
  proof (cases a; cases "t_recipient tx")
    fix balance nonce pk
    assume a: "a = Wallet balance nonce" and r: "t_recipient tx = Addr_Wallet pk"
    show ?thesis
      using transfer_credit_spec [of pk amount "bt_insert (t_sender tx) (Wallet (balance - amount) nonce) m" s upd]
      by (simp add: Transfer apply_payload_def apply_transfer_def assms a r prog_simps)
  qed (auto simp: Transfer apply_payload_def apply_transfer_def assms transfer_credit_def prog_simps)
next
  case (ContractDeploy wasm)
  obtain s' where "deploy_contract E (t_sender tx) wasm None T (t_gas_limit tx) s = (Ok (deployed (t_sender tx) wasm), s')"
    using deploy_total by blast
  with ContractDeploy show ?thesis
    by (auto simp: apply_payload_def then_do_def map_err_def prog_simps)
next
  case (ContractCall mname args)
  show ?thesis
  proof (cases "t_recipient tx")
    case (Addr_Contract c)
    obtain s' where "discard (call_contract E (t_sender tx) c mname args T) s =
        (Ok () :: (unit, ledger_error) outcome, s')"
      using call_ignored by blast
    with ContractCall Addr_Contract show ?thesis
      by (auto simp: apply_payload_def then_do_def prog_simps)
  qed (simp add: ContractCall apply_payload_def prog_simps)
qed (auto simp: apply_payload_def prog_simps)

lemma apply_tx_spec:
  "(\<exists>m' b s'. apply_tx L T E tx (m, batch) s = (Ok (m', b), s') \<and> map_of m' = upd) \<longleftrightarrow>
   spec_tx L deployed (\<lambda>a. get_account T a s) tx (map_of m) = Some upd"
proof (cases "get_account T (t_sender tx) s")
  case (Ok found)
  show ?thesis
  proof (cases found)
    case None
    then show ?thesis
      by (simp add: apply_tx_def spec_tx_def storage_err_def map_err_def then_do_def prog_simps Ok)
  next
    case (Some stored)
    let ?sender = "Account_set_nonce (t_nonce tx) stored"
    let ?m = "bt_insert (t_sender tx) ?sender m"
    have "(\<exists>m' b s'. apply_tx L T E tx (m, batch) s = (Ok (m', b), s') \<and> map_of m' = upd) \<longleftrightarrow>
        \<not> (overflow_checks L \<and> 2 ^ 64 \<le> unat (Account_nonce stored) + 1) \<and> t_nonce tx = Account_nonce stored + 1 \<and>
        (\<exists>m' s'. apply_payload L T E tx ?sender ?m s = (Ok m', s') \<and> map_of m' = upd)"
      by (auto simp: apply_tx_def storage_err_def map_err_def then_do_def prog_simps Ok Some add_checked_def
          Let_def split: prod.splits outcome.splits)
    also have "\<dots> \<longleftrightarrow> spec_tx L deployed (\<lambda>a. get_account T a s) tx (map_of m) = Some upd"
      by (subst apply_payload_Ok, simp)
        (cases stored; auto simp: spec_tx_def Ok Some split: transaction_payload.splits address.splits)
    finally show ?thesis .
  qed
qed (simp_all add: apply_tx_def spec_tx_def storage_err_def map_err_def then_do_def prog_simps)

text \<open>The loop of \<^verbatim>\<open>apply_block\<close> computes the abstract transition.\<close>

lemma apply_txs_spec:
  "(\<exists>m' b s'. apply_txs L T E txs (m, batch) s = (Ok (m', b), s') \<and> map_of m' = upd) \<longleftrightarrow>
   spec_txs L deployed (\<lambda>a. get_account T a s) txs (map_of m) = Some upd"
proof (induction txs arbitrary: m batch s)
  case Nil
  then show ?case
    by (simp add: prog_simps)
next
  case (Cons tx txs)
  have step: "(\<exists>m' b s'. apply_txs L T E txs (m1, b1) s1 = (Ok (m', b), s') \<and> map_of m' = upd) \<longleftrightarrow>
      spec_txs L deployed (\<lambda>a. get_account T a s) txs (map_of m1) = Some upd"
    if "apply_tx L T E tx (m, batch) s = (Ok (m1, b1), s1)" for m1 b1 s1
    using Cons.IH [of m1 b1 s1] ledger_viewD(1) [OF kept_view [OF keeps_apply_tx that]] by simp
  have "(\<exists>m' b s'. apply_txs L T E (tx # txs) (m, batch) s = (Ok (m', b), s') \<and> map_of m' = upd) \<longleftrightarrow>
      (\<exists>m1 b1 s1. apply_tx L T E tx (m, batch) s = (Ok (m1, b1), s1) \<and>
        (\<exists>m' b s'. apply_txs L T E txs (m1, b1) s1 = (Ok (m', b), s') \<and> map_of m' = upd))"
    by (auto simp: then_do_Ok_iff)
  also have "\<dots> \<longleftrightarrow> (\<exists>m1 b1 s1. apply_tx L T E tx (m, batch) s = (Ok (m1, b1), s1) \<and>
      spec_txs L deployed (\<lambda>a. get_account T a s) txs (map_of m1) = Some upd)"
    using step by blast
  also have "\<dots> \<longleftrightarrow> (\<exists>u. spec_tx L deployed (\<lambda>a. get_account T a s) tx (map_of m) = Some u \<and>
      spec_txs L deployed (\<lambda>a. get_account T a s) txs u = Some upd)"
    unfolding apply_tx_spec [of tx m batch s, symmetric] by blast
  finally show ?case
    by (auto simp: bind_eq_Some_conv)
qed

lemma index_transactions_total:
  "\<exists>s'. index_transactions T b s = (Ok (), s') \<and> obs s' = obs s"
proof -
  have total: "\<exists>s'. for_each (\<lambda>(i, tx). storage_err (index_transaction T (t_hash tx) h (word_of_nat i))) xs s = (Ok (), s')"
    for h xs s
  proof (induction xs arbitrary: s)
    case (Cons x xs)
    obtain s' where "index_transaction T (t_hash (snd x)) h (word_of_nat (fst x)) s = (Ok (), s')"
      using index_total by blast
    with Cons.IH [of s'] show ?case
      by (cases x) (auto simp: prog_simps storage_err_def map_err_def then_do_def)
  qed (simp add: prog_simps)
  have keeps: "keeps obs (index_transactions T b)"
    unfolding index_transactions_def storage_err_def by (auto intro!: keeps_rules index_keeps)
  obtain s' where s': "index_transactions T b s = (Ok (), s')"
    unfolding index_transactions_def using total by blast
  with keepsD [OF keeps s'] show ?thesis
    by blast
qed

lemmas account_puts_Ok [simp] = account_puts [OF bincode]

text \<open>After the loop nothing can fail any more: the block is refused with the chain state untouched, or goes through.\<close>

lemma apply_block_after:
  assumes "apply_txs L T E (b_transactions b) ([], []) s = (Ok (m, batch), s1)"
  shows "\<exists>s2 s'. obs s2 = obs s1 \<and>
    apply_batch T (block_batch (b_transactions b) m (advance b cs)) s2 = (Ok (), s') \<and>
    Ledger_apply_block L T E b (s, cs) = (Ok (), (s', advance b cs))"
proof -
  obtain s2 where s2: "index_transactions T b s1 = (Ok (), s2)" "obs s2 = obs s1"
    using index_transactions_total by blast
  obtain s' where s': "apply_batch T (block_batch (b_transactions b) m (advance b cs)) s2 = (Ok (), s')"
    using batch_total by blast
  have "batch = map (\<lambda>tx. Delete (wire_ser (ser_arr32 (t_hash tx)))) (b_transactions b)"
    using apply_txs_shape [OF bincode assms] by simp
  then have "Ledger_apply_block L T E b (s, cs) = (Ok (), (s', advance b cs))"
    using assms s2(1) s'
    by (simp add: Ledger_apply_block_def then_do_def on_fst_def prog_simps storage_err_def map_err_def block_batch_def)
  with s2(2) s' show ?thesis
    by blast
qed

lemma apply_block_spec:
  assumes "spec_txs L deployed (\<lambda>a. get_account T a s) (b_transactions b) Map.empty = Some upd"
  shows "\<exists>m s2 s'. map_of m = upd \<and> bt_sorted m \<and> obs s2 = obs s \<and>
    apply_batch T (block_batch (b_transactions b) m (advance b cs)) s2 = (Ok (), s') \<and>
    Ledger_apply_block L T E b (s, cs) = (Ok (), (s', advance b cs))"
proof -
  from assms obtain m batch s1 where txs: "apply_txs L T E (b_transactions b) ([], []) s = (Ok (m, batch), s1)"
      "map_of m = upd"
    using apply_txs_spec [of "b_transactions b" "[]" "[]" s upd] by auto
  have "obs s1 = obs s"
    using keeps_apply_txs txs(1) by (rule keepsD)
  moreover have "bt_sorted m"
    using apply_txs_shape [OF bincode txs(1)] by simp
  ultimately show ?thesis
    using apply_block_after [OF txs(1), of cs] txs(2) by metis
qed

lemma apply_block_refused:
  assumes "spec_txs L deployed (\<lambda>a. get_account T a s) (b_transactions b) Map.empty = None"
    and "Ledger_apply_block L T E b (s, cs) = (r, (s', cs'))"
  shows "r \<noteq> Ok () \<and> cs' = cs \<and> obs s' = obs s"
proof -
  obtain q s1 where txs: "apply_txs L T E (b_transactions b) ([], []) s = (q, s1)"
    by (rule prod.exhaust)
  have "q \<noteq> Ok acc" for acc
    using apply_txs_spec [of "b_transactions b" "[]" "[]" s] txs assms(1) by (cases acc) auto
  moreover have "obs s1 = obs s"
    using keeps_apply_txs txs by (rule keepsD)
  ultimately show ?thesis
    using assms(2) txs by (cases q) (auto simp: Ledger_apply_block_def then_do_def on_fst_def)
qed

end

end
