(* ===== verification/Baals_Ledger_Props.thy ===== *)
theory Baals_Ledger_Props
  imports Baals_Ledger_Facts
begin

text \<open>
  The properties of \<^verbatim>\<open>Ledger\<close> over \<^verbatim>\<open>SledStorage\<close> and \<^verbatim>\<open>BaaLSContractEngine\<close>: validation, the
  refinement of \<^verbatim>\<open>apply_block\<close> to the abstract transition, conservation and its exceptions,
  atomicity, and what a node can and cannot find again after a block.
\<close>

section \<open>The backend of the node\<close>

context sled_node
begin

lemma index_ok: "\<exists>s'. SledStorage_index_transaction L S std_handles h b i s = (Ok (), s')"
  by (simp add: SledStorage_index_transaction_def)

lemma keeps_index: "t \<noteq> Named_tree ''tx_by_block'' \<Longrightarrow>
    keeps (\<lambda>s. view s t) (SledStorage_index_transaction L S std_handles h b i)"
  by (auto simp: SledStorage_index_transaction_def intro!: keeps_rules)

end

sublocale sled_node \<subseteq> backend: working_backend
  "SledStorage L S std_handles" "BaaLSContractEngine L" "settled view" L "deploy_id L"
proof unfold_locales
  show "bincode_documented L"
    by (rule bincode)
  show "\<exists>s'. deploy_contract (BaaLSContractEngine L) pk wasm init (SledStorage L S std_handles) gas s =
      (Ok (deploy_id L pk wasm), s')" for pk wasm init gas s
    using deploy_ok [of pk wasm init gas s] by auto
  show "fst (call_contract (BaaLSContractEngine L) pk c m args (SledStorage L S std_handles) s) \<noteq> Panic \<and>
      fst (call_contract (BaaLSContractEngine L) pk c m args (SledStorage L S std_handles) s) \<noteq> Hang" for pk c m args s
    by (simp add: BaaLS_call_contract_def prog_simps)
  show "\<exists>s'. index_transaction (SledStorage L S std_handles) h b i s = (Ok (), s')" for h b i s
    using index_ok by simp
  show "keeps (settled view) (index_transaction (SledStorage L S std_handles) h b i)" for h b i
    unfolding SledStorage_sel by (intro keeps_settled keeps_index) (auto simp: unsettled_trees_def)
  show "\<exists>s'. apply_batch (SledStorage L S std_handles) ops s = (Ok (), s')" for ops s
    using apply_batch_ok [of ops s] by auto
qed

section \<open>What the batch of a block does to the default tree\<close>

primrec op_key :: "storage_operation \<Rightarrow> bytes" where
  "op_key (Put k v) = k"
| "op_key (Delete k) = k"

lemma batch_untouched:
  "\<forall>op \<in> set ops. op_key op \<noteq> k \<Longrightarrow> fold batch_step (map batch_of ops) m k = m k"
proof (induction ops arbitrary: m)
  case (Cons op ops)
  then show ?case
    by (cases op) auto
qed simp

lemma key_lengths [simp]:
  "length (wire_ser (ser_arr32 h)) = 32" "length (wire_ser (ser_PublicKey pk)) = 40"
  "length (wire_ser global_current) = 22"
  by (simp_all add: ser_arr32_def ser_PublicKey_def global_current_def o_def)

lemma PublicKey_key_inject [simp]: "wire_ser (ser_PublicKey p) = wire_ser (ser_PublicKey q) \<longleftrightarrow> p = q"
  by (auto simp: ser_PublicKey_def)

lemma key_neq [simp]:
  "wire_ser (ser_arr32 h) \<noteq> wire_ser (ser_PublicKey pk)" "wire_ser global_current \<noteq> wire_ser (ser_PublicKey pk)"
  by (metis key_lengths numeral_eq_iff num.simps)+

definition account_op :: "public_key \<times> account \<Rightarrow> storage_operation" where
  "account_op = (\<lambda>(a, acc). Put (wire_ser (ser_PublicKey a)) (wire_ser (ser_Account acc)))"

lemma account_ops:
  "distinct (map fst m) \<Longrightarrow>
   fold batch_step (map batch_of (map account_op m)) t (wire_ser (ser_PublicKey a)) =
     (case map_of m a of Some acc \<Rightarrow> Some (wire_ser (ser_Account acc)) | None \<Rightarrow> t (wire_ser (ser_PublicKey a)))"
proof (induction m arbitrary: t)
  case (Cons x m)
  obtain p acc where x: "x = (p, acc)"
    by (rule prod.exhaust)
  from Cons.prems x have "map_of m p = None"
    by (auto simp: map_of_eq_None_iff)
  with Cons x show ?case
    by (auto simp: account_op_def split: option.split)
qed simp

lemma block_batch_accounts:
  assumes "bt_sorted m"
  shows "fold batch_step (map batch_of (block_batch txs m cs)) t (wire_ser (ser_PublicKey a)) =
    (case map_of m a of Some acc \<Rightarrow> Some (wire_ser (ser_Account acc)) | None \<Rightarrow> t (wire_ser (ser_PublicKey a)))"
proof -
  let ?dels = "map (\<lambda>tx. Delete (wire_ser (ser_arr32 (t_hash tx)))) txs"
  have "fold batch_step (map batch_of ?dels) t (wire_ser (ser_PublicKey a)) = t (wire_ser (ser_PublicKey a))"
    by (rule batch_untouched) auto
  moreover have "block_batch txs m cs = ?dels @ map account_op m @ [Put (wire_ser global_current) (wire_ser (ser_ChainState cs))]"
    by (simp add: block_batch_def account_op_def)
  ultimately show ?thesis
    using account_ops [OF bt_sorted_distinct [OF assms]]
    by (simp add: key_neq(2) [symmetric] del: map_map split: option.split)
qed

lemma block_batch_chain_state:
  "fold batch_step (map batch_of (block_batch txs m cs)) t (wire_ser global_current) =
    Some (wire_ser (ser_ChainState cs))"
  by (simp add: block_batch_def)

context sled_node
begin

text \<open>The default tree after a block that goes through, and everything after one that is refused.\<close>

lemma apply_block_default_tree:
  assumes "spec_txs L (deploy_id L) (\<lambda>a. get_account node a s) (b_transactions b) Map.empty = Some upd"
  shows "\<exists>s'. Ledger_apply_block L node (BaaLSContractEngine L) b (s, cs) = (Ok (), (s', advance b cs)) \<and>
    (\<forall>a. view s' Default_tree (wire_ser (ser_PublicKey a)) =
       (case upd a of Some acc \<Rightarrow> Some (wire_ser (ser_Account acc))
          | None \<Rightarrow> view s Default_tree (wire_ser (ser_PublicKey a)))) \<and>
    view s' Default_tree (wire_ser global_current) = Some (wire_ser (ser_ChainState (advance b cs)))"
proof -
  obtain m s2 s' where m: "map_of m = upd" "bt_sorted m" and s2: "settled view s2 = settled view s"
      and s': "apply_batch node (block_batch (b_transactions b) m (advance b cs)) s2 = (Ok (), s')"
      "Ledger_apply_block L node (BaaLSContractEngine L) b (s, cs) = (Ok (), (s', advance b cs))"
    using backend.apply_block_spec [OF assms] by blast
  have "view s2 Default_tree = view s Default_tree"
    using fun_cong [OF s2, of Default_tree] by (simp add: settled_def unsettled_trees_def)
  moreover have "view s' Default_tree =
      fold batch_step (map batch_of (block_batch (b_transactions b) m (advance b cs))) (view s2 Default_tree)"
    using s'(1) apply_batch_ok [of "block_batch (b_transactions b) m (advance b cs)" s2] by auto
  ultimately show ?thesis
    using s'(2) block_batch_accounts [OF m(2)] block_batch_chain_state m(1) by auto
qed

text \<open>A block that is not refused went through the abstract transition.\<close>

lemma apply_block_Ok_spec:
  assumes "Ledger_apply_block L node (BaaLSContractEngine L) b (s, cs) = (Ok (), (s', cs'))"
  shows "cs' = advance b cs \<and> ledger_view node s' = ledger_view node s \<and>
    (\<exists>upd. spec_txs L (deploy_id L) (\<lambda>a. get_account node a s) (b_transactions b) Map.empty = Some upd \<and>
      (\<forall>a. view s' Default_tree (wire_ser (ser_PublicKey a)) =
         (case upd a of Some acc \<Rightarrow> Some (wire_ser (ser_Account acc))
            | None \<Rightarrow> view s Default_tree (wire_ser (ser_PublicKey a)))))"
proof -
  obtain upd where upd: "spec_txs L (deploy_id L) (\<lambda>a. get_account node a s) (b_transactions b) Map.empty = Some upd"
    using backend.apply_block_refused [of s b cs "Ok ()" s' cs'] assms by fastforce
  obtain m s2 where s2: "settled view s2 = settled view s"
      and s': "apply_batch node (block_batch (b_transactions b) m (advance b cs)) s2 = (Ok (), s')"
    using backend.apply_block_spec [OF upd, of cs] assms by auto
  have "view s' (Named_tree name) = view s2 (Named_tree name)" for name
    using s' by (auto intro: apply_batch_named)
  then have "ledger_view node s' = ledger_view node s2"
    by (simp add: ledger_view_def getters_cong [of s' s2])
  also have "\<dots> = ledger_view node s"
    by (rule settled_view [OF s2])
  finally show ?thesis
    using apply_block_default_tree [OF upd, of cs] assms upd by auto
qed

lemmas apply_block_refused = backend.apply_block_refused

lemmas apply_block_nonces = engine.apply_block_nonces

lemma initialize_chain_fresh:
  assumes "get_chain_state node s = Ok None"
  shows "\<exists>s'. Ledger_initialize_chain L node s = (Ok (), s') \<and> get_chain_state node s' = Ok None \<and>
    (\<forall>h. get_block node h s' = get_block node h s) \<and>
    (\<exists>h. view s' Default_tree (wire_ser global_current) = Some (wire_ser (ser_ChainState
      \<lparr>latest_block_hash = h, latest_block_index = 0, accounts_root_hash = 0, total_supply = 0\<rparr>)))"
proof -
  obtain h where h: "Block_calculate_hash L genesis_block = Ok h"
    using bincode by (auto simp: Block_calculate_hash_def hash_metadata_def genesis_block_def bincode_documented_def)
  let ?g = "genesis_block\<lparr>b_hash := h\<rparr>"
  let ?c = "\<lparr>latest_block_hash = h, latest_block_index = 0, accounts_root_hash = 0, total_supply = 0\<rparr>"
  let ?ops = "[Put (wire_ser (ser_arr32 h)) (wire_ser (ser_Block ?g)),
    Put (wire_ser global_current) (wire_ser (ser_ChainState ?c))]"
  obtain s' where s': "SledStorage_apply_batch S std_handles ?ops s = (Ok (), s')"
      "view s' = (view s)(Default_tree := fold batch_step (map batch_of ?ops) (view s Default_tree))"
    using apply_batch_ok by blast
  have "Ledger_initialize_chain L node s = (Ok (), s')"
    using assms s'(1) bincode h
    by (simp add: Ledger_initialize_chain_def then_do_def map_err_def prog_simps Let_def ser_err_def
        bincode_documented_def genesis_block_def)
  moreover have "view s' (Named_tree name) = view s (Named_tree name)" for name
    using s'(2) by simp
  then have "get_chain_state node s' = Ok None" "\<forall>h. get_block node h s' = get_block node h s"
    using assms by (simp_all add: getters_cong [of s' s])
  moreover have "view s' Default_tree (wire_ser global_current) = Some (wire_ser (ser_ChainState ?c))"
    using s'(2) by simp
  ultimately show ?thesis
    by blast
qed

end

end
