(* ===== verification/Baals_Ledger_Claims.thy ===== *)
theory Baals_Ledger_Claims
  imports Baals_Ledger_Props
begin

text \<open>
  The ledger's properties, stated over \<^verbatim>\<open>SledStorage\<close> on any database that keeps sled's
  documentation and does not fail, with the witnesses on the in-memory database.
\<close>

section \<open>Balances\<close>

primrec balance_of :: "account \<Rightarrow> nat" where
  "balance_of (Wallet balance nonce) = unat balance"
| "balance_of (Contract code_hash storage_root_hash nonce) = 0"

definition stored_balance :: "stored_accounts \<Rightarrow> public_key \<Rightarrow> nat" where
  "stored_balance stored a = (case stored a of Ok (Some acc) \<Rightarrow> balance_of acc | _ \<Rightarrow> 0)"

definition updated_balance :: "(public_key \<rightharpoonup> account) \<Rightarrow> public_key \<Rightarrow> nat" where
  "updated_balance upd a = (case upd a of Some acc \<Rightarrow> balance_of acc | None \<Rightarrow> 0)"

definition parties :: "transaction \<Rightarrow> public_key list" where
  "parties tx = t_sender tx # (case t_recipient tx of Addr_Wallet pk \<Rightarrow> [pk] | Addr_Contract c \<Rightarrow> [])"

definition is_transfer :: "transaction \<Rightarrow> bool" where
  "is_transfer tx = (case t_payload tx of Transfer amount \<Rightarrow> True | _ \<Rightarrow> False)"

text \<open>
  A total is conserved up to the wrap-around of the balance type; exactly, when the build checks for
  overflow or the total fits the type.
\<close>

definition conserved :: "lib \<Rightarrow> nat \<Rightarrow> nat \<Rightarrow> bool" where
  "conserved L old new \<longleftrightarrow>
     new mod 2 ^ 64 = old mod 2 ^ 64 \<and> (overflow_checks L \<or> old < 2 ^ 64 \<longrightarrow> new = old)"

lemma conserved_refl [simp]: "conserved L n n"
  by (simp add: conserved_def)

lemma conserved_add: "conserved L a a' \<Longrightarrow> conserved L b b' \<Longrightarrow> conserved L (a + b) (a' + b')"
  unfolding conserved_def by (metis add_lessD1 add.commute mod_add_cong)

lemma spec_credit_balance:
  assumes "spec_credit L stored pk amount = Some r"
  shows "conserved L (stored_balance stored pk + unat amount) (balance_of r)"
  using assms unat_bound [of amount]
  by (auto simp: spec_credit_def stored_balance_def conserved_def unat_word_ariths not_le
      split: outcome.splits option.splits account.splits if_splits)

lemma spec_transfer_balance:
  assumes "spec_tx L deployed stored tx upd = Some upd'" "is_transfer tx" "distinct (parties tx)"
  shows "conserved L (\<Sum>a\<leftarrow>parties tx. stored_balance stored a) (\<Sum>a\<leftarrow>parties tx. updated_balance upd' a)"
    and "a \<in> set (parties tx) \<Longrightarrow> upd' a \<noteq> None"
    and "a \<notin> set (parties tx) \<Longrightarrow> upd' a = upd a"
proof -
  obtain amount where "t_payload tx = Transfer amount"
    using assms(2) by (auto simp: is_transfer_def split: transaction_payload.splits)
  with assms(1) obtain balance nonce pk r where
    tx: "stored (t_sender tx) = Ok (Some (Wallet balance nonce))" "t_recipient tx = Addr_Wallet pk"
    "\<not> balance < amount" "spec_credit L stored pk amount = Some r"
    "upd' = upd(t_sender tx \<mapsto> Wallet (balance - amount) (t_nonce tx), pk \<mapsto> r)"
    by (auto simp: spec_tx_def split: outcome.splits option.splits account.splits address.splits if_splits)
  then have "unat (balance - amount) + unat amount = unat balance"
    by (simp add: unat_sub not_less word_le_nat_alt)
  moreover have "conserved L (unat (balance - amount) + (stored_balance stored pk + unat amount))
      (unat (balance - amount) + balance_of r)"
    using tx(4) by (intro conserved_add spec_credit_balance) simp_all
  ultimately have "conserved L (unat balance + stored_balance stored pk) (unat (balance - amount) + balance_of r)"
    by (metis add.assoc add.commute)
  with tx show "conserved L (\<Sum>a\<leftarrow>parties tx. stored_balance stored a) (\<Sum>a\<leftarrow>parties tx. updated_balance upd' a)"
    "a \<in> set (parties tx) \<Longrightarrow> upd' a \<noteq> None" "a \<notin> set (parties tx) \<Longrightarrow> upd' a = upd a"
    using assms(3) by (auto simp: parties_def updated_balance_def stored_balance_def)
qed

lemma spec_txs_balance:
  assumes "spec_txs L deployed stored txs upd = Some upd'" "list_all is_transfer txs"
    and "distinct (concat (map parties txs))"
  shows "conserved L (\<Sum>a\<leftarrow>concat (map parties txs). stored_balance stored a)
      (\<Sum>a\<leftarrow>concat (map parties txs). updated_balance upd' a) \<and>
    (\<forall>a \<in> set (concat (map parties txs)). upd' a \<noteq> None) \<and>
    (\<forall>a. a \<notin> set (concat (map parties txs)) \<longrightarrow> upd' a = upd a)"
  using assms
proof (induction txs arbitrary: upd)
  case (Cons tx txs)
  from Cons.prems obtain u where u: "spec_tx L deployed stored tx upd = Some u"
      "spec_txs L deployed stored txs u = Some upd'"
    by (auto simp: bind_eq_Some_conv)
  have tx: "is_transfer tx" "distinct (parties tx)"
    and txs: "list_all is_transfer txs" "distinct (concat (map parties txs))"
    and apart: "set (parties tx) \<inter> set (concat (map parties txs)) = {}"
    using Cons.prems(2, 3) by simp_all
  note step = spec_transfer_balance [OF u(1) tx] and rest = Cons.IH [OF u(2) txs]
  have same: "upd' a = u a" if "a \<in> set (parties tx)" for a
    using rest apart that by blast
  then have "(\<Sum>a\<leftarrow>parties tx. updated_balance upd' a) = (\<Sum>a\<leftarrow>parties tx. updated_balance u a)"
    by (intro arg_cong [of _ _ sum_list] map_cong) (auto simp: updated_balance_def)
  with step(1) rest have "conserved L (\<Sum>a\<leftarrow>concat (map parties (tx # txs)). stored_balance stored a)
      (\<Sum>a\<leftarrow>concat (map parties (tx # txs)). updated_balance upd' a)"
    by (simp add: conserved_add)
  with step(2, 3) rest same show ?case
    by auto
qed simp

section \<open>Sample databases\<close>

text \<open>An in-memory database that holds some accounts and blocks, and nothing else.\<close>

definition mem_with :: "(public_key \<times> account) list \<Rightarrow> block list \<Rightarrow> mem_db" where
  "mem_with accs bs = empty_mem
     (Named_tree ''accounts'' :=
        map (\<lambda>(a, acc). (arr32_bytes (PublicKey_to_bytes a), wire_ser (ser_Account acc))) accs,
      Named_tree ''blocks'' := map (\<lambda>b. (arr32_bytes (b_hash b), wire_ser (ser_Block b))) bs)"

lemma get_account_mem_with [simp]:
  "SledStorage_get_account ref_lib mem_sled std_handles a (mem_with accs bs) = Ok (map_of accs a)"
proof -
  have "map_of (map (\<lambda>(a, acc). (arr32_bytes (PublicKey_to_bytes a), wire_ser (ser_Account acc))) accs)
      (arr32_bytes (PublicKey_to_bytes a)) = map_option (\<lambda>acc. wire_ser (ser_Account acc)) (map_of accs a)"
    by (induction accs) auto
  then show ?thesis
    by (simp add: SledStorage_get_account_def mem.tree_get_ok mem_view_def mem_with_def decode_opt_def
        split: option.split)
qed

lemma get_block_mem_with [simp]:
  assumes "\<forall>b \<in> set bs. b_transactions b = [] \<and> metadata_ok (b_metadata b)"
  shows "SledStorage_get_block ref_lib mem_sled std_handles h (mem_with accs bs) =
    Ok (map_of (map (\<lambda>b. (b_hash b, b)) bs) h)"
proof -
  have "map_of (map (\<lambda>b. (arr32_bytes (b_hash b), wire_ser (ser_Block b))) bs) (arr32_bytes h) =
      map_option (\<lambda>b. wire_ser (ser_Block b)) (map_of (map (\<lambda>b. (b_hash b, b)) bs) h)"
    by (induction bs) auto
  moreover have "b \<in> set bs" if "map_of (map (\<lambda>b. (b_hash b, b)) bs) h = Some b" for b
    using map_of_SomeD [OF that] by auto
  ultimately show ?thesis
    using assms
    by (auto simp: SledStorage_get_block_def mem.tree_get_ok mem_view_def mem_with_def decode_opt_def
        mem_node.decode_Block split: option.split)
qed

lemma signed_tx_verifies [simp]: "Transaction_verify_signature ref_lib signed_tx = Ok True"
  by (simp add: signed_tx_def Transaction_sign_def Transaction_verify_signature_def PublicKey_verify_def
      prog_simps Transaction_calculate_hash_def sample_tx_def hash_metadata_def then_do_def)

section \<open>Validation\<close>

text \<open>
  C8: \<^verbatim>\<open>validate_block\<close> accepts exactly the blocks one above the chain state's height that name its
  latest hash, carry their own hash, are later than their stored parent (unless their height is 0,
  which the successor of the chain's height is only when it wraps around in a build without overflow
  checks), and whose transactions all verify. The clock, nonces and balances are not looked at: a
  block dated in the future is accepted.
\<close>

theorem validate_block_accepts:
  "Ledger_validate_block L T b cs s = Ok () \<longleftrightarrow>
     add_checked (overflow_checks L) (latest_block_index cs) 1 = (Ok (b_index b) :: (u64, ledger_error) outcome) \<and>
     b_prev_hash b = latest_block_hash cs \<and> Block_calculate_hash L b = Ok (b_hash b) \<and>
     (b_index b = 0 \<or> (\<exists>p. get_block T (b_prev_hash b) s = Ok (Some p) \<and> b_timestamp p < b_timestamp b)) \<and>
     (\<forall>tx \<in> set (b_transactions b). Transaction_verify_signature L tx = Ok True)"
  by (simp add: validate_block_Ok timestamp_not_after_parent_False)

definition sealed_child :: block where
  "sealed_child = (case PoA_generate_block ref_lib [signed_tx] (block_at 1) of Ok b \<Rightarrow> b | _ \<Rightarrow> block_at 0)"

definition state_at :: "u64 \<Rightarrow> chain_state" where
  "state_at i = \<lparr>latest_block_hash = ucast i, latest_block_index = i, accounts_root_hash = 0, total_supply = 0\<rparr>"

lemma one_below_max [simp]: "(1 :: u64) < - 1"
  by (simp add: below_max)

lemma sealed_child_generated:
  "PoA_generate_block ref_lib [signed_tx] (block_at 1) = Ok sealed_child"
  using poa.produces [of "[signed_tx]" "block_at 1" ref_lib undefined undefined]
  by (auto simp: sealed_child_def)

lemma sealed_child_extends: "extends ref_lib (block_at 1) [signed_tx] sealed_child"
  using poa.generated [of ref_lib undefined "[signed_tx]" "block_at 1" undefined sealed_child] sealed_child_generated
  by simp

theorem validate_block_accepts_witness:
  "Ledger_validate_block ref_lib (SledStorage ref_lib mem_sled std_handles) sealed_child (state_at 1)
     (mem_with [] [block_at 1]) = Ok ()"
  unfolding validate_block_accepts
  using sealed_child_extends
  by (simp add: extends_def add_checked_def state_at_def)

text \<open>
  C9: a block \<^verbatim>\<open>PoAConsensus\<close> generates from verified transactions on top of the stored latest block
  passes \<^verbatim>\<open>validate_block\<close>; short of the last height and timestamp it generates one whenever
  there is a transaction.
\<close>

theorem generated_block_validates:
  assumes "bincode_documented L" "txs \<noteq> []" "b_index prev < - 1" "b_timestamp prev < - 1"
    and "get_block T (b_hash prev) s = Ok (Some prev)"
    and "latest_block_hash cs = b_hash prev" "latest_block_index cs = b_index prev"
    and "\<forall>tx \<in> set txs. Transaction_verify_signature L tx = Ok True"
  shows "\<exists>b. generate_block (PoAConsensus L self) txs prev cs = Ok b \<and> b_transactions b = txs \<and>
    Ledger_validate_block L T b cs s = Ok ()"
proof -
  obtain b where b: "generate_block (PoAConsensus L self) txs prev cs = Ok b"
    using poa.produces [OF assms(2-4,1)] by blast
  have "Ledger_validate_block L T b cs s = Ok ()"
    using poa.generated_validates [OF b assms(5)] assms(3,4,6-8) by simp
  moreover have "b_transactions b = txs"
    using poa.generated [OF b] by (simp add: extends_def)
  ultimately show ?thesis
    using b by blast
qed

theorem generated_block_validates_witness:
  "\<exists>b. generate_block (PoAConsensus ref_lib (PoAConsensus_new (PublicKey 7) 1000)) [signed_tx] (block_at 1) (state_at 1) = Ok b \<and>
    b_transactions b = [signed_tx] \<and>
    Ledger_validate_block ref_lib (SledStorage ref_lib mem_sled std_handles) b (state_at 1) (mem_with [] [block_at 1]) = Ok ()"
  by (rule generated_block_validates) (simp_all add: state_at_def)

section \<open>State transition\<close>

abbreviation apply_block_on where
  "apply_block_on L S \<equiv> Ledger_apply_block L (SledStorage L S std_handles) (BaaLSContractEngine L)"

text \<open>
  C1: \<^verbatim>\<open>apply_block\<close> implements the abstract transition. When \<open>spec_txs\<close>, a pure function of the
  accounts stored before the block, refuses the transactions, \<^verbatim>\<open>apply_block\<close> does not succeed.
  When it yields updates, \<^verbatim>\<open>apply_block\<close> succeeds, the chain state names the block, and the default
  tree holds the updated account of every updated key, what it held for every other key, and
  the new chain state.
\<close>

theorem apply_block_refines_spec:
  assumes "sled_node S view L"
  shows "case spec_txs L (deploy_id L) (\<lambda>a. get_account (SledStorage L S std_handles) a s) (b_transactions b) Map.empty of
      None \<Rightarrow> fst (apply_block_on L S b (s, cs)) \<noteq> Ok ()
    | Some upd \<Rightarrow> \<exists>s'. apply_block_on L S b (s, cs) = (Ok (), (s', advance b cs)) \<and>
        (\<forall>a. view s' Default_tree (wire_ser (ser_PublicKey a)) =
           (case upd a of Some acc \<Rightarrow> Some (wire_ser (ser_Account acc))
              | None \<Rightarrow> view s Default_tree (wire_ser (ser_PublicKey a)))) \<and>
        view s' Default_tree (wire_ser global_current) = Some (wire_ser (ser_ChainState (advance b cs)))"
proof (cases "spec_txs L (deploy_id L) (\<lambda>a. get_account (SledStorage L S std_handles) a s) (b_transactions b) Map.empty")
  case None
  obtain r s' cs' where run: "apply_block_on L S b (s, cs) = (r, (s', cs'))"
    by (metis prod.collapse)
  show ?thesis
    using sled_node.apply_block_refused [OF assms None run] None run by simp
next
  case (Some upd)
  show ?thesis
    using sled_node.apply_block_default_tree [OF assms Some, of cs] Some by simp
qed

definition tx_from :: "public_key \<Rightarrow> public_key \<Rightarrow> u64 \<Rightarrow> u64 \<Rightarrow> transaction" where
  "tx_from p q amount nonce = sample_tx\<lparr>t_sender := p, t_recipient := Addr_Wallet q,
     t_payload := Transfer amount, t_nonce := nonce\<rparr>"

lemma tx_from_simps [simp]:
  "t_sender (tx_from p q amount nonce) = p" "t_recipient (tx_from p q amount nonce) = Addr_Wallet q"
  "t_payload (tx_from p q amount nonce) = Transfer amount" "t_nonce (tx_from p q amount nonce) = nonce"
  "is_transfer (tx_from p q amount nonce)" "parties (tx_from p q amount nonce) = [p, q]"
  by (simp_all add: tx_from_def is_transfer_def parties_def)

definition block_of :: "transaction list \<Rightarrow> block" where
  "block_of txs = (block_at 2)\<lparr>b_transactions := txs\<rparr>"

lemma block_of_simps [simp]: "b_transactions (block_of txs) = txs"
  by (simp add: block_of_def)

theorem apply_block_refines_spec_witness:
  "\<exists>s'. apply_block_on ref_lib mem_sled (block_of [tx_from (PublicKey 7) (PublicKey 9) 30 1])
      (mem_with [(PublicKey 7, Wallet 100 0), (PublicKey 9, Wallet 5 0)] [], state_at 1) =
      (Ok (), (s', advance (block_of [tx_from (PublicKey 7) (PublicKey 9) 30 1]) (state_at 1))) \<and>
    mem_view s' Default_tree (wire_ser (ser_PublicKey (PublicKey 9))) = Some (wire_ser (ser_Account (Wallet 35 0)))"
proof -
  let ?s = "mem_with [(PublicKey 7, Wallet 100 0), (PublicKey 9, Wallet 5 0)] []"
  have spec: "spec_txs ref_lib (deploy_id ref_lib) (\<lambda>a. get_account (SledStorage ref_lib mem_sled std_handles) a ?s)
      [tx_from (PublicKey 7) (PublicKey 9) 30 1] Map.empty =
      Some [PublicKey 7 \<mapsto> Wallet 70 1, PublicKey 9 \<mapsto> Wallet 35 0]"
    by (simp add: spec_tx_def spec_credit_def)
  show ?thesis
    using apply_block_refines_spec [OF mem_node.sled_node_axioms, where s = ?s and cs = "state_at 1"
        and b = "block_of [tx_from (PublicKey 7) (PublicKey 9) 30 1]"]
    by (simp only: block_of_simps spec) auto
qed

text \<open>
  C7: transfers conserve the native balance. In a block that goes through and moves value only,
  between wallets no two of which are the same, every party's account is written, and the
  balances written add up, modulo \<open>2 ^ 64\<close>, to the balances stored before. They add up exactly if
  the build checks for overflow or the stored balances of the parties together fit a \<^verbatim>\<open>u64\<close>; without
  either the credit may wrap around.
\<close>

theorem transfers_conserve_balance:
  assumes "sled_node S view L"
    and "list_all is_transfer (b_transactions b)" "distinct (concat (map parties (b_transactions b)))"
    and "apply_block_on L S b (s, cs) = (Ok (), (s', cs'))"
  defines "before \<equiv> \<Sum>a\<leftarrow>concat (map parties (b_transactions b)).
      stored_balance (\<lambda>a. get_account (SledStorage L S std_handles) a s) a"
  shows "\<exists>acc. (\<forall>a \<in> set (concat (map parties (b_transactions b))).
        view s' Default_tree (wire_ser (ser_PublicKey a)) = Some (wire_ser (ser_Account (acc a)))) \<and>
      (\<Sum>a\<leftarrow>concat (map parties (b_transactions b)). balance_of (acc a)) mod 2 ^ 64 = before mod 2 ^ 64 \<and>
      (overflow_checks L \<or> before < 2 ^ 64 \<longrightarrow>
        (\<Sum>a\<leftarrow>concat (map parties (b_transactions b)). balance_of (acc a)) = before)"
proof -
  let ?parties = "concat (map parties (b_transactions b))"
  obtain upd where upd: "spec_txs L (deploy_id L) (\<lambda>a. get_account (SledStorage L S std_handles) a s)
        (b_transactions b) Map.empty = Some upd"
      "\<And>a. view s' Default_tree (wire_ser (ser_PublicKey a)) =
         (case upd a of Some acc \<Rightarrow> Some (wire_ser (ser_Account acc))
            | None \<Rightarrow> view s Default_tree (wire_ser (ser_PublicKey a)))"
    using sled_node.apply_block_Ok_spec [OF assms(1,4)] by auto
  note bal = spec_txs_balance [OF upd(1) assms(2,3)]
  have some: "upd a = Some (the (upd a))" if "a \<in> set ?parties" for a
    using bal that by (metis option.collapse)
  then have "updated_balance upd a = balance_of (the (upd a))" if "a \<in> set ?parties" for a
    using that by (metis option.simps(5) updated_balance_def)
  then have "(\<Sum>a\<leftarrow>?parties. balance_of (the (upd a))) = (\<Sum>a\<leftarrow>?parties. updated_balance upd a)"
    by (intro arg_cong [of _ _ sum_list] map_cong) simp_all
  moreover have "view s' Default_tree (wire_ser (ser_PublicKey a)) = Some (wire_ser (ser_Account (the (upd a))))"
    if "a \<in> set ?parties" for a
    using some [OF that] upd(2) [of a] by (metis option.simps(5))
  ultimately show ?thesis
    using bal unfolding conserved_def before_def by (intro exI [of _ "the \<circ> upd"]) simp
qed

theorem transfers_conserve_balance_witness:
  "\<exists>s' cs' acc. apply_block_on ref_lib mem_sled (block_of [tx_from (PublicKey 7) (PublicKey 9) 30 1])
      (mem_with [(PublicKey 7, Wallet 100 0), (PublicKey 9, Wallet 5 0)] [], state_at 1) = (Ok (), (s', cs')) \<and>
    balance_of (acc (PublicKey 7)) + balance_of (acc (PublicKey 9)) = 105"
proof -
  let ?s = "mem_with [(PublicKey 7, Wallet 100 0), (PublicKey 9, Wallet 5 0)] []"
  let ?b = "block_of [tx_from (PublicKey 7) (PublicKey 9) 30 1]"
  have spec: "spec_txs ref_lib (deploy_id ref_lib) (\<lambda>a. get_account mem_node.node a ?s)
      (b_transactions ?b) Map.empty = Some [PublicKey 7 \<mapsto> Wallet 70 1, PublicKey 9 \<mapsto> Wallet 35 0]"
    by (simp add: spec_tx_def spec_credit_def)
  from mem_node.apply_block_default_tree [OF spec, of "state_at 1"] obtain s' where
    run: "apply_block_on ref_lib mem_sled ?b (?s, state_at 1) = (Ok (), (s', advance ?b (state_at 1)))"
    by blast
  from transfers_conserve_balance [OF mem_node.sled_node_axioms _ _ run] obtain acc where
    "(\<Sum>a\<leftarrow>[PublicKey 7, PublicKey 9]. balance_of (acc a)) =
     (\<Sum>a\<leftarrow>[PublicKey 7, PublicKey 9]. stored_balance (\<lambda>a. get_account mem_node.node a ?s) a)"
    by auto
  then have "balance_of (acc (PublicKey 7)) + balance_of (acc (PublicKey 9)) = 105"
    by (simp add: stored_balance_def)
  with run show ?thesis
    by blast
qed

text \<open>
  C29: a transfer to oneself mints. A wallet with balance \<open>b\<close> and nonce \<open>n\<close> that sends itself an
  amount it has ends up with \<open>b\<close> plus the amount, and still nonce \<open>n\<close>: the credit is computed
  from the stored account and written over the debited one.
\<close>

theorem self_transfer_mints:
  assumes "sled_node S view L"
    and "b_transactions b = [tx]" "t_recipient tx = Addr_Wallet (t_sender tx)" "t_payload tx = Transfer amount"
    and "get_account (SledStorage L S std_handles) (t_sender tx) s = Ok (Some (Wallet balance nonce))"
    and "amount \<le> balance" "t_nonce tx = nonce + 1" "nonce < - 1" "unat balance + unat amount < 2 ^ 64"
  shows "\<exists>s'. apply_block_on L S b (s, cs) = (Ok (), (s', advance b cs)) \<and>
    view s' Default_tree (wire_ser (ser_PublicKey (t_sender tx))) =
      Some (wire_ser (ser_Account (Wallet (balance + amount) nonce)))"
proof -
  have "spec_txs L (deploy_id L) (\<lambda>a. get_account (SledStorage L S std_handles) a s) (b_transactions b) Map.empty =
      Some [t_sender tx \<mapsto> Wallet (balance + amount) nonce]"
    using assms(2-9) by (simp add: spec_tx_def spec_credit_def below_max not_less)
  from sled_node.apply_block_default_tree [OF assms(1) this, of cs] show ?thesis
    by auto
qed

theorem self_transfer_mints_witness:
  "\<exists>s'. apply_block_on ref_lib mem_sled (block_of [tx_from (PublicKey 7) (PublicKey 7) 100 1])
      (mem_with [(PublicKey 7, Wallet 100 0)] [], state_at 1) =
      (Ok (), (s', advance (block_of [tx_from (PublicKey 7) (PublicKey 7) 100 1]) (state_at 1))) \<and>
    mem_view s' Default_tree (wire_ser (ser_PublicKey (PublicKey 7))) = Some (wire_ser (ser_Account (Wallet 200 0)))"
  using self_transfer_mints [OF mem_node.sled_node_axioms,
      of "block_of [tx_from (PublicKey 7) (PublicKey 7) 100 1]" "tx_from (PublicKey 7) (PublicKey 7) 100 1" 100
        "mem_with [(PublicKey 7, Wallet 100 0)] []" 100 0 "state_at 1"]
  by (simp add: below_max)

text \<open>
  C30: two transfers to one recipient in a block lose the first. Both senders pay, and the recipient
  ends up with its stored balance plus the second amount only.
\<close>

theorem second_credit_wins:
  assumes "sled_node S view L" "b_transactions b = [tx1, tx2]" "distinct [t_sender tx1, t_sender tx2, pk]"
    and "t_recipient tx1 = Addr_Wallet pk" "t_payload tx1 = Transfer x"
    and "t_recipient tx2 = Addr_Wallet pk" "t_payload tx2 = Transfer y"
    and "apply_block_on L S b (s, cs) = (Ok (), (s', cs'))"
    and "get_account (SledStorage L S std_handles) pk s = Ok (Some (Wallet balance nonce))"
  shows "view s' Default_tree (wire_ser (ser_PublicKey pk)) = Some (wire_ser (ser_Account (Wallet (balance + y) nonce))) \<and>
    (\<exists>c n. get_account (SledStorage L S std_handles) (t_sender tx1) s = Ok (Some (Wallet c n)) \<and> x \<le> c \<and>
      view s' Default_tree (wire_ser (ser_PublicKey (t_sender tx1))) = Some (wire_ser (ser_Account (Wallet (c - x) (n + 1)))))"
proof -
  let ?stored = "\<lambda>a. get_account (SledStorage L S std_handles) a s"
  obtain upd where upd: "spec_txs L (deploy_id L) ?stored (b_transactions b) Map.empty = Some upd"
      "\<And>a. view s' Default_tree (wire_ser (ser_PublicKey a)) =
         (case upd a of Some acc \<Rightarrow> Some (wire_ser (ser_Account acc))
            | None \<Rightarrow> view s Default_tree (wire_ser (ser_PublicKey a)))"
    using sled_node.apply_block_Ok_spec [OF assms(1,8)] by auto
  obtain u where u: "spec_tx L (deploy_id L) ?stored tx1 Map.empty = Some u"
      "spec_tx L (deploy_id L) ?stored tx2 u = Some upd"
    using upd(1) assms(2) by (auto simp: bind_eq_Some_conv)
  from u(1) assms(4,5) obtain c n where "?stored (t_sender tx1) = Ok (Some (Wallet c n))" "x \<le> c"
      "u (t_sender tx1) = Some (Wallet (c - x) (n + 1))"
    using assms(3) by (auto simp: spec_tx_def not_less split: outcome.splits option.splits account.splits if_splits)
  moreover from u(2) assms(3,6,7,9) have "upd pk = Some (Wallet (balance + y) nonce)" "upd (t_sender tx1) = u (t_sender tx1)"
    by (auto simp: spec_tx_def spec_credit_def split: outcome.splits option.splits account.splits if_splits)
  ultimately show ?thesis
    using upd(2) [of pk] upd(2) [of "t_sender tx1"] by auto
qed

definition two_senders_block :: block where
  "two_senders_block = block_of
     [tx_from (PublicKey 7) (PublicKey 9) 30 1, tx_from (PublicKey 8) (PublicKey 9) 20 1]"

definition two_senders_mem :: mem_db where
  "two_senders_mem = mem_with [(PublicKey 7, Wallet 100 0), (PublicKey 8, Wallet 50 0), (PublicKey 9, Wallet 5 0)] []"

lemma two_senders_run:
  obtains s' where "apply_block_on ref_lib mem_sled
      two_senders_block (two_senders_mem, state_at 1) =
      (Ok (), (s', advance two_senders_block (state_at 1)))"
proof -
  have "\<exists>upd. spec_txs ref_lib (deploy_id ref_lib) (\<lambda>a. get_account mem_node.node a two_senders_mem)
      (b_transactions two_senders_block) Map.empty = Some upd"
    by (simp add: spec_tx_def spec_credit_def two_senders_block_def two_senders_mem_def)
  then show thesis
    using mem_node.apply_block_default_tree [of two_senders_mem two_senders_block _ "state_at 1"] that by blast
qed

theorem second_credit_wins_witness:
  "\<exists>s'. apply_block_on ref_lib mem_sled two_senders_block (two_senders_mem, state_at 1) =
      (Ok (), (s', advance two_senders_block (state_at 1))) \<and>
    mem_view s' Default_tree (wire_ser (ser_PublicKey (PublicKey 9))) = Some (wire_ser (ser_Account (Wallet 25 0)))"
proof -
  obtain s' where run: "apply_block_on ref_lib mem_sled
      two_senders_block (two_senders_mem, state_at 1) =
      (Ok (), (s', advance two_senders_block (state_at 1)))"
    by (rule two_senders_run)
  have txs: "b_transactions two_senders_block = [tx_from (PublicKey 7) (PublicKey 9) 30 1, tx_from (PublicKey 8) (PublicKey 9) 20 1]"
    by (simp add: two_senders_block_def)
  show ?thesis
    using second_credit_wins [OF mem_node.sled_node_axioms txs _ _ _ _ _ run, of "PublicKey 9" 30 20 5 0] run
    by (auto simp: two_senders_mem_def)
qed

text \<open>
  C28: every transaction of a block is checked against the accounts stored before the block. Each
  one of a block that goes through carries its sender's stored nonce plus one; two of the same
  sender carry the same nonce, so consecutive nonces of a sender never go through in one block.
\<close>

theorem block_nonces_from_stored_accounts:
  assumes "sled_node S view L" "apply_block_on L S b (s, cs) = (Ok (), st)"
  shows "(\<forall>tx \<in> set (b_transactions b). \<exists>a. get_account (SledStorage L S std_handles) (t_sender tx) s = Ok (Some a) \<and>
      t_nonce tx = Account_nonce a + 1) \<and>
    (\<forall>tx \<in> set (b_transactions b). \<forall>tx' \<in> set (b_transactions b).
      t_sender tx = t_sender tx' \<longrightarrow> t_nonce tx = t_nonce tx')"
proof -
  note n = sled_node.apply_block_nonces [OF assms]
  have "t_nonce tx = t_nonce tx'"
    if "tx \<in> set (b_transactions b)" "tx' \<in> set (b_transactions b)" "t_sender tx = t_sender tx'" for tx tx'
    using n [OF that(1)] n [OF that(2)] that(3) by auto
  with n show ?thesis
    by blast
qed

theorem block_nonces_from_stored_accounts_witness:
  "\<exists>st. apply_block_on ref_lib mem_sled
      two_senders_block
      (two_senders_mem, state_at 1) =
      (Ok (), st) \<and>
    (\<exists>a. get_account (SledStorage ref_lib mem_sled std_handles) (PublicKey 8)
       two_senders_mem = Ok (Some a) \<and>
      Account_nonce a + 1 = 1)"
proof -
  obtain s' where run: "apply_block_on ref_lib mem_sled
      two_senders_block (two_senders_mem, state_at 1) =
      (Ok (), (s', advance two_senders_block (state_at 1)))"
    by (rule two_senders_run)
  show ?thesis
    using block_nonces_from_stored_accounts [OF mem_node.sled_node_axioms run] run
    by (auto simp: two_senders_block_def)
qed

text \<open>
  C6: a refused block changes nothing the ledger reads. On a database that does not fail, when
  \<^verbatim>\<open>apply_block\<close> does not succeed, the chain state and every tree but those of contract code,
  contract storage and the transaction index are as they were.
\<close>

theorem refused_block_changes_nothing:
  assumes "sled_node S view L" "apply_block_on L S b (s, cs) = (r, (s', cs'))" "r \<noteq> Ok ()"
  shows "cs' = cs \<and> (\<forall>t. t \<notin> unsettled_trees \<longrightarrow> view s' t = view s t)"
proof -
  have "spec_txs L (deploy_id L) (\<lambda>a. get_account (SledStorage L S std_handles) a s) (b_transactions b) Map.empty = None"
    using sled_node.apply_block_default_tree [OF assms(1), of s b _ cs] assms(2,3) by (cases rule: option.exhaust) auto
  from sled_node.apply_block_refused [OF assms(1) this assms(2)] have "cs' = cs" "settled view s' = settled view s"
    by simp_all
  then show ?thesis
    by (metis settled_def)
qed

theorem refused_block_changes_nothing_witness:
  "\<exists>r s' cs'. apply_block_on ref_lib mem_sled (block_of [tx_from (PublicKey 7) (PublicKey 9) 30 1])
      (mem_with [(PublicKey 7, Wallet 10 0)] [], state_at 1) = (r, (s', cs')) \<and> r \<noteq> Ok () \<and> cs' = state_at 1"
proof -
  let ?b = "block_of [tx_from (PublicKey 7) (PublicKey 9) 30 1]" and ?s = "mem_with [(PublicKey 7, Wallet 10 0)] []"
  obtain r s' cs' where run: "apply_block_on ref_lib mem_sled ?b (?s, state_at 1) = (r, (s', cs'))"
    by (metis prod.collapse)
  have "spec_txs ref_lib (deploy_id ref_lib) (\<lambda>a. get_account mem_node.node a ?s) (b_transactions ?b) Map.empty = None"
    by (simp add: spec_tx_def)
  from mem_node.apply_block_refused [OF this run] have "r \<noteq> Ok ()"
    by simp
  with refused_block_changes_nothing [OF mem_node.sled_node_axioms run] run show ?thesis
    by auto
qed

text \<open>
  C27: an applied block leaves no trace in what a node reads back. No account, block or chain state
  a getter returns changes, so the same block can be applied again, and again succeeds.
\<close>

theorem applied_block_can_be_replayed:
  assumes "sled_node S view L" "apply_block_on L S b (s, cs) = (Ok (), (s', cs'))"
  shows "ledger_view (SledStorage L S std_handles) s' = ledger_view (SledStorage L S std_handles) s \<and>
    (\<exists>s''. apply_block_on L S b (s', cs') = (Ok (), (s'', cs')))"
proof -
  let ?node = "SledStorage L S std_handles"
  from sled_node.apply_block_Ok_spec [OF assms] obtain upd where
    "cs' = advance b cs" and same: "ledger_view ?node s' = ledger_view ?node s"
    and upd: "spec_txs L (deploy_id L) (\<lambda>a. get_account ?node a s) (b_transactions b) Map.empty = Some upd"
    by blast
  moreover from upd have "spec_txs L (deploy_id L) (\<lambda>a. get_account ?node a s') (b_transactions b) Map.empty = Some upd"
    by (simp only: ledger_viewD(1) [OF same])
  from sled_node.apply_block_default_tree [OF assms(1) this, of cs'] obtain s'' where
    "apply_block_on L S b (s', cs') = (Ok (), (s'', advance b cs'))"
    by blast
  ultimately show ?thesis
    by (simp add: advance_def)
qed

theorem applied_block_can_be_replayed_witness:
  "\<exists>s' s''. apply_block_on ref_lib mem_sled two_senders_block (two_senders_mem, state_at 1) =
      (Ok (), (s', advance two_senders_block (state_at 1))) \<and>
    apply_block_on ref_lib mem_sled two_senders_block (s', advance two_senders_block (state_at 1)) =
      (Ok (), (s'', advance two_senders_block (state_at 1)))"
proof -
  obtain s' where run: "apply_block_on ref_lib mem_sled two_senders_block (two_senders_mem, state_at 1) =
      (Ok (), (s', advance two_senders_block (state_at 1)))"
    by (rule two_senders_run)
  with applied_block_can_be_replayed [OF mem_node.sled_node_axioms run] show ?thesis
    by blast
qed

text \<open>
  C15: \<^verbatim>\<open>apply_block\<close> never stores the block. After a new block has gone through, no block of height
  above 0 validates against the new chain state: its parent is not found.
\<close>

theorem chain_stops_after_applied_block:
  assumes "sled_node S view L" "apply_block_on L S b (s, cs) = (Ok (), (s', cs'))"
    and "get_block (SledStorage L S std_handles) (b_hash b) s = Ok None"
    and "b_index c \<noteq> 0"
  shows "Ledger_validate_block L (SledStorage L S std_handles) c cs' s' \<noteq> Ok ()"
proof
  assume "Ledger_validate_block L (SledStorage L S std_handles) c cs' s' = Ok ()"
  then have "b_prev_hash c = latest_block_hash cs'"
      "timestamp_not_after_parent (SledStorage L S std_handles) c s' = Ok False"
    by (simp_all add: validate_block_Ok)
  moreover have cs': "cs' = advance b cs"
      and same: "ledger_view (SledStorage L S std_handles) s' = ledger_view (SledStorage L S std_handles) s"
    using sled_node.apply_block_Ok_spec [OF assms(1,2)] by blast+
  moreover have "get_block (SledStorage L S std_handles) (b_hash b) s' = Ok None"
    using assms(3) by (simp only: ledger_viewD(2) [OF same])
  ultimately show False
    using assms(4) by (simp add: timestamp_not_after_parent_False advance_def)
qed

theorem chain_stops_after_applied_block_witness:
  "\<exists>s'. apply_block_on ref_lib mem_sled two_senders_block (two_senders_mem, state_at 1) =
      (Ok (), (s', advance two_senders_block (state_at 1))) \<and>
    Ledger_validate_block ref_lib (SledStorage ref_lib mem_sled std_handles) (block_at 3)
      (advance two_senders_block (state_at 1)) s' \<noteq> Ok ()"
proof -
  obtain s' where run: "apply_block_on ref_lib mem_sled two_senders_block (two_senders_mem, state_at 1) =
      (Ok (), (s', advance two_senders_block (state_at 1)))"
    by (rule two_senders_run)
  have "get_block (SledStorage ref_lib mem_sled std_handles) (b_hash two_senders_block) two_senders_mem = Ok None"
    by (simp add: two_senders_mem_def)
  from chain_stops_after_applied_block [OF mem_node.sled_node_axioms run this, of "block_at 3"] run show ?thesis
    by auto
qed

text \<open>
  C31: deploying turns the sender's wallet into a contract. A wallet that deploys in a block is
  replaced by a \<^verbatim>\<open>Contract\<close> account with the code's id and the next nonce, and its balance is gone.
\<close>

theorem deploy_replaces_wallet:
  assumes "sled_node S view L" "b_transactions b = [tx]" "t_payload tx = ContractDeploy wasm"
    and "get_account (SledStorage L S std_handles) (t_sender tx) s = Ok (Some (Wallet balance nonce))"
    and "nonce < - 1" "t_nonce tx = nonce + 1"
  shows "\<exists>s'. apply_block_on L S b (s, cs) = (Ok (), (s', advance b cs)) \<and>
    view s' Default_tree (wire_ser (ser_PublicKey (t_sender tx))) = Some (wire_ser (ser_Account
      (Contract (ContractId_to_bytes (deploy_id L (t_sender tx) wasm)) 0 (nonce + 1))))"
proof -
  have "spec_txs L (deploy_id L) (\<lambda>a. get_account (SledStorage L S std_handles) a s) (b_transactions b) Map.empty =
      Some [t_sender tx \<mapsto> Contract (ContractId_to_bytes (deploy_id L (t_sender tx) wasm)) 0 (nonce + 1)]"
    using assms(2-6) by (simp add: spec_tx_def below_max)
  from sled_node.apply_block_default_tree [OF assms(1) this, of cs] show ?thesis
    by auto
qed

definition deploy_from :: "public_key \<Rightarrow> bytes \<Rightarrow> u64 \<Rightarrow> transaction" where
  "deploy_from p wasm nonce = sample_tx\<lparr>t_sender := p, t_payload := ContractDeploy wasm, t_nonce := nonce\<rparr>"

lemma deploy_from_simps [simp]:
  "t_sender (deploy_from p wasm nonce) = p" "t_payload (deploy_from p wasm nonce) = ContractDeploy wasm"
  "t_nonce (deploy_from p wasm nonce) = nonce"
  by (simp_all add: deploy_from_def)

theorem deploy_replaces_wallet_witness:
  "\<exists>s'. apply_block_on ref_lib mem_sled (block_of [deploy_from (PublicKey 7) [1] 1])
      (mem_with [(PublicKey 7, Wallet 100 0)] [], state_at 1) =
      (Ok (), (s', advance (block_of [deploy_from (PublicKey 7) [1] 1]) (state_at 1))) \<and>
    mem_view s' Default_tree (wire_ser (ser_PublicKey (PublicKey 7))) = Some (wire_ser (ser_Account
      (Contract (ContractId_to_bytes (deploy_id ref_lib (PublicKey 7) [1])) 0 1)))"
  using deploy_replaces_wallet [OF mem_node.sled_node_axioms,
      of "block_of [deploy_from (PublicKey 7) [1] 1]" "deploy_from (PublicKey 7) [1] 1" "[1]"
        "mem_with [(PublicKey 7, Wallet 100 0)] []" 100 0 "state_at 1"]
  by (simp add: below_max)

text \<open>
  C32: contract code of a refused block stays. When a deployment is followed by a transaction whose
  sender has no account, \<^verbatim>\<open>apply_block\<close> fails and the code is stored all the same: it is written
  outside the batch.
\<close>

theorem refused_block_keeps_code:
  assumes "sled_node S view L" "b_transactions b = [tx, tx']" "t_payload tx = ContractDeploy wasm"
    and "get_account (SledStorage L S std_handles) (t_sender tx) s = Ok (Some acc)"
    and "Account_nonce acc < - 1" "t_nonce tx = Account_nonce acc + 1"
    and "get_account (SledStorage L S std_handles) (t_sender tx') s = Ok None"
  shows "\<exists>e s'. apply_block_on L S b (s, cs) = (Err e, (s', cs)) \<and>
    get_contract_code (SledStorage L S std_handles) (deploy_id L (t_sender tx) wasm) s' = Ok (Some wasm)"
proof -
  let ?node = "SledStorage L S std_handles" and ?id = "deploy_id L (t_sender tx) wasm"
  from sled_node.deploy_ok [OF assms(1), of "t_sender tx" wasm None "t_gas_limit tx" s] obtain s1 where
    s1: "BaaLS_deploy_contract L (t_sender tx) wasm None ?node (t_gas_limit tx) s = (Ok ?id, s1)"
      "get_contract_code ?node ?id s1 = Ok (Some wasm)"
    by auto
  have same: "ledger_view ?node s1 = ledger_view ?node s"
    by (rule sled_node.deploy_view [OF assms(1) s1(1)])
  have "get_account ?node (t_sender tx') s1 = Ok None"
    using assms(7) by (simp only: ledger_viewD(1) [OF same])
  then have second: "apply_tx L ?node (BaaLSContractEngine L) tx' acc' s1 =
      (Err (LE_AccountNotFound (''Sender account not found: '' @ debug_PublicKey L (t_sender tx'))), s1)" for acc'
    by (cases acc') (simp add: apply_tx_def storage_err_def then_do_def map_err_def prog_simps)
  have "bincode_documented L"
    using assms(1) by (simp add: sled_node_def sled_node_axioms_def)
  then have "\<exists>acc'. apply_tx L ?node (BaaLSContractEngine L) tx ([], []) s = (Ok acc', s1)"
    using assms(3-6) s1(1)
    by (simp add: apply_tx_def apply_payload_def storage_err_def then_do_def map_err_def prog_simps Let_def
        add_checked_fits below_max ser_err_def bincode_documented_def)
  then have "apply_txs L ?node (BaaLSContractEngine L) [tx, tx'] ([], []) s =
      (Err (LE_AccountNotFound (''Sender account not found: '' @ debug_PublicKey L (t_sender tx'))), s1)"
    using second by (auto simp: then_do_def)
  then have "\<exists>e. apply_block_on L S b (s, cs) = (Err e, (s1, cs))"
    by (simp add: Ledger_apply_block_def assms(2) then_do_def on_fst_def)
  with s1(2) show ?thesis
    by blast
qed

theorem refused_block_keeps_code_witness:
  "\<exists>e s'. apply_block_on ref_lib mem_sled
      (block_of [deploy_from (PublicKey 7) [1] 1, deploy_from (PublicKey 8) [2] 1])
      (mem_with [(PublicKey 7, Wallet 100 0)] [], state_at 1) = (Err e, (s', state_at 1)) \<and>
    get_contract_code (SledStorage ref_lib mem_sled std_handles) (deploy_id ref_lib (PublicKey 7) [1]) s' = Ok (Some [1])"
  using refused_block_keeps_code [OF mem_node.sled_node_axioms,
      of "block_of [deploy_from (PublicKey 7) [1] 1, deploy_from (PublicKey 8) [2] 1]"
        "deploy_from (PublicKey 7) [1] 1" "deploy_from (PublicKey 8) [2] 1" "[1]"
        "mem_with [(PublicKey 7, Wallet 100 0)] []" "Wallet 100 0" "state_at 1"]
  by (simp add: below_max)

text \<open>
  C34: initialising a fresh chain succeeds, and leaves a chain that is still not initialised: genesis
  block and chain state go to the default tree, and \<^verbatim>\<open>get_chain_state\<close> and \<^verbatim>\<open>get_block\<close> answer as
  before.
\<close>

theorem initialize_chain_stays_uninitialised:
  assumes "sled_node S view L" "get_chain_state (SledStorage L S std_handles) s = Ok None"
  shows "\<exists>s'. Ledger_initialize_chain L (SledStorage L S std_handles) s = (Ok (), s') \<and>
    get_chain_state (SledStorage L S std_handles) s' = Ok None \<and>
    (\<forall>h. get_block (SledStorage L S std_handles) h s' = get_block (SledStorage L S std_handles) h s) \<and>
    (\<exists>h. view s' Default_tree (wire_ser global_current) = Some (wire_ser (ser_ChainState
      \<lparr>latest_block_hash = h, latest_block_index = 0, accounts_root_hash = 0, total_supply = 0\<rparr>)))"
  using sled_node.initialize_chain_fresh [OF assms] by simp

theorem initialize_chain_stays_uninitialised_witness:
  "\<exists>s'. Ledger_initialize_chain ref_lib (SledStorage ref_lib mem_sled std_handles) empty_mem = (Ok (), s') \<and>
    get_chain_state (SledStorage ref_lib mem_sled std_handles) s' = Ok None"
proof -
  have "get_chain_state (SledStorage ref_lib mem_sled std_handles) empty_mem = Ok None"
    by (simp add: SledStorage_get_chain_state_def mem.tree_get_ok decode_opt_def mem_view_def empty_mem_def)
  from initialize_chain_stays_uninitialised [OF mem_node.sled_node_axioms this] show ?thesis
    by blast
qed

text \<open>
  C33: the caller's chain state runs ahead of the storage. When writing the transaction index fails
  after the transactions went through, \<^verbatim>\<open>apply_block\<close> returns the error, no batch is applied, and the
  chain state it was given already names the block.
\<close>

theorem chain_state_runs_ahead:
  assumes "bincode_documented L"
    and "apply_txs L T E (b_transactions b) ([], []) s = (Ok (accounts, batch), s1)"
    and "index_transactions T b s1 = (Err e, s2)"
  shows "Ledger_apply_block L T E b (s, cs) = (Err e, (s2, advance b cs))"
  using assms account_puts [OF assms(1), of accounts]
  by (simp add: Ledger_apply_block_def then_do_def on_fst_def prog_simps ser_err_def bincode_documented_def)

definition index_failing_sled :: "mem_db sled" where
  "index_failing_sled = mem_sled\<lparr>sled_insert := (\<lambda>t k v s.
     if t = Named_tree ''tx_by_block'' then (Err ''io'', s) else sled_insert mem_sled t k v s)\<rparr>"

definition data_from :: "public_key \<Rightarrow> u64 \<Rightarrow> transaction" where
  "data_from p nonce = sample_tx\<lparr>t_sender := p, t_payload := Data [], t_nonce := nonce\<rparr>"

theorem chain_state_runs_ahead_witness:
  "\<exists>e s'. Ledger_apply_block ref_lib (SledStorage ref_lib index_failing_sled std_handles)
      (BaaLSContractEngine ref_lib) (block_of [data_from (PublicKey 7) 1])
      (mem_with [(PublicKey 7, Wallet 100 0)] [], state_at 1) =
    (Err e, (s', advance (block_of [data_from (PublicKey 7) 1]) (state_at 1)))"
proof -
  let ?T = "SledStorage ref_lib index_failing_sled std_handles"
  let ?s = "mem_with [(PublicKey 7, Wallet 100 0)] []"
  have "SledStorage_get_account ref_lib index_failing_sled std_handles a s =
      SledStorage_get_account ref_lib mem_sled std_handles a s" for a s
    by (simp add: SledStorage_get_account_def tree_get_def index_failing_sled_def)
  then have txs: "\<exists>acc. apply_txs ref_lib ?T (BaaLSContractEngine ref_lib)
      (b_transactions (block_of [data_from (PublicKey 7) 1])) ([], []) ?s = (Ok acc, ?s)"
    by (simp add: apply_tx_def apply_payload_def storage_err_def then_do_def map_err_def prog_simps Let_def
        add_checked_fits ser_err_def data_from_def)
  have "\<exists>e. index_transactions ?T (block_of [data_from (PublicKey 7) 1]) ?s = (Err e, ?s)"
    by (simp add: index_transactions_def storage_err_def then_do_def map_err_def prog_simps
        SledStorage_index_transaction_def tree_insert_def index_failing_sled_def)
  with txs show ?thesis
    using chain_state_runs_ahead [OF ref_bincode] by fastforce
qed

end
