(* ===== verification/Baals_Sync.thy ===== *)
theory Baals_Sync
  imports Baals_Ledger_Claims
begin

text \<open>
  \<^verbatim>\<open>src/sync.rs\<close>: the wire frames, \<^verbatim>\<open>CustomSync\<close> and \<^verbatim>\<open>NoopSync\<close>. The sockets are a parameter (the
  record \<open>net\<close> over a state \<open>'w\<close> of the network, with streams \<open>'c\<close>); known peers and the running
  flag are the state of \<^verbatim>\<open>CustomSync\<close> itself.
\<close>

datatype sync_error =
    NE_NetworkError string
  | NE_SerializationError string
  | NE_SynchronizationError string
  | NE_BlockNotFound
  | NE_ConnectionTimeout
  | NE_AuthenticationFailed
  | NE_InvalidMessage

text \<open>\<^verbatim>\<open>SocketAddr\<close> is only stored and handed on.\<close>

type_synonym socket_addr = string

record peer =
  peer_id :: public_key
  peer_address :: socket_addr

section \<open>Messages\<close>

datatype network_message =
    Handshake public_key u32
  | HandshakeAck public_key u32
  | GetChainHead
  | ChainHeadResponse arr32 u64
  | GetBlocks u64 u64
  | BlocksResponse "block list"
  | NewBlockAnnouncement arr32 u64
  | Ping
  | Pong

primrec ser_NetworkMessage :: "network_message \<Rightarrow> sval" where
  "ser_NetworkMessage (Handshake pid version) = SVariant 0 [ser_PublicKey pid, SU32 version]"
| "ser_NetworkMessage (HandshakeAck pid version) = SVariant 1 [ser_PublicKey pid, SU32 version]"
| "ser_NetworkMessage GetChainHead = SVariant 2 []"
| "ser_NetworkMessage (ChainHeadResponse hash height) = SVariant 3 [ser_arr32 hash, SU64 height]"
| "ser_NetworkMessage (GetBlocks from_height to_height) = SVariant 4 [SU64 from_height, SU64 to_height]"
| "ser_NetworkMessage (BlocksResponse blocks) = SVariant 5 [SSeq (map ser_Block blocks)]"
| "ser_NetworkMessage (NewBlockAnnouncement hash height) = SVariant 6 [ser_arr32 hash, SU64 height]"
| "ser_NetworkMessage Ping = SVariant 7 []"
| "ser_NetworkMessage Pong = SVariant 8 []"

definition shape_NetworkMessage :: shape where
  "shape_NetworkMessage = HEnum
     [[shape_PublicKey, HU32], [shape_PublicKey, HU32], [], [shape_arr32, HU64], [HU64, HU64],
      [HSeq shape_Block], [shape_arr32, HU64], [], []]"

fun de_Blocks :: "lib \<Rightarrow> sval \<Rightarrow> block list option" where
  "de_Blocks L (SSeq vs) = opt_all (map (de_Block L) vs)" | "de_Blocks L _ = None"

definition de_NetworkMessage :: "lib \<Rightarrow> sval \<Rightarrow> network_message option" where
  "de_NetworkMessage L v = (case v of
       SVariant i [] \<Rightarrow>
         (if i = 2 then Some GetChainHead else if i = 7 then Some Ping
          else if i = 8 then Some Pong else None)
     | SVariant i [a] \<Rightarrow> (if i = 5 then map_option BlocksResponse (de_Blocks L a) else None)
     | SVariant i [a, b] \<Rightarrow>
         (if i = 0 then Option.bind (de_PublicKey L a) (\<lambda>p. map_option (Handshake p) (de_u32 b))
          else if i = 1 then Option.bind (de_PublicKey L a) (\<lambda>p. map_option (HandshakeAck p) (de_u32 b))
          else if i = 3 then Option.bind (de_arr32 a) (\<lambda>h. map_option (ChainHeadResponse h) (de_u64 b))
          else if i = 4 then Option.bind (de_u64 a) (\<lambda>f. map_option (GetBlocks f) (de_u64 b))
          else if i = 6 then Option.bind (de_arr32 a) (\<lambda>h. map_option (NewBlockAnnouncement h) (de_u64 b))
          else None)
     | _ \<Rightarrow> None)"

section \<open>Frames\<close>

record message_frame =
  mf_length :: u32
  mf_message :: network_message

definition MessageFrame_new :: "lib \<Rightarrow> network_message \<Rightarrow> (message_frame, sync_error) outcome" where
  "MessageFrame_new L message =
     bind_o (map_err_o NE_SerializationError (bincode_serialize L (ser_NetworkMessage message))) (\<lambda>message_bytes.
     Ok \<lparr>mf_length = word_of_nat (length message_bytes), mf_message = message\<rparr>)"

definition MessageFrame_to_bytes :: "lib \<Rightarrow> message_frame \<Rightarrow> (bytes, sync_error) outcome" where
  "MessageFrame_to_bytes L frame =
     bind_o (map_err_o NE_SerializationError
       (bincode_serialize L (ser_NetworkMessage (mf_message frame)))) (\<lambda>message_bytes.
     Ok (le32 (mf_length frame) @ message_bytes))"

text \<open>\<^verbatim>\<open>&data[from..to]\<close>: a range that ends before it starts or past the end panics.\<close>

definition slice :: "nat \<Rightarrow> nat \<Rightarrow> bytes \<Rightarrow> (bytes, 'e) outcome" where
  "slice from to data =
     (if to < from \<or> length data < to then Panic else Ok (drop from (take to data)))"

definition MessageFrame_from_bytes :: "lib \<Rightarrow> bytes \<Rightarrow> (message_frame, sync_error) outcome" where
  "MessageFrame_from_bytes L data =
     (if length data < 4 then Err NE_InvalidMessage
      else
        let len = of_le32 (take 4 data) in
        bind_o (add_checked (overflow_checks L) len 4) (\<lambda>end.
        if length data < unat end then Err NE_InvalidMessage
        else
          bind_o (slice 4 (unat end) data) (\<lambda>message_bytes.
          bind_o (map_err_o NE_SerializationError
            (bincode_read L shape_NetworkMessage (de_NetworkMessage L) message_bytes)) (\<lambda>message.
          Ok \<lparr>mf_length = len, mf_message = message\<rparr>))))"

section \<open>The network\<close>

text \<open>
  \<^verbatim>\<open>timeout(secs, TcpStream::connect(addr))\<close> yields a stream, a refusal or the timeout; \<^verbatim>\<open>read_exact\<close>
  fills its buffer or fails, \<^verbatim>\<open>read\<close> returns at most as many bytes as its buffer has (none when the
  peer has closed).
\<close>

datatype 'c dialed = Connected 'c | Refused string | Elapsed

record ('w, 'c) net =
  net_connect :: "nat \<Rightarrow> socket_addr \<Rightarrow> 'w \<Rightarrow> 'c dialed \<times> 'w"
  net_write_all :: "'c \<Rightarrow> bytes \<Rightarrow> ('w, unit, string) prog"
  net_read_exact :: "'c \<Rightarrow> nat \<Rightarrow> ('w, bytes, string) prog"
  net_read :: "'c \<Rightarrow> nat \<Rightarrow> ('w, bytes, string) prog"
  net_bind :: "socket_addr \<Rightarrow> ('w, unit, string) prog"
  net_accept :: "('w, 'c \<times> socket_addr, string) prog"

definition send_message :: "lib \<Rightarrow> ('w, 'c) net \<Rightarrow> 'c \<Rightarrow> network_message \<Rightarrow> ('w, unit, sync_error) prog" where
  "send_message L N stream message =
     then_do (lift (MessageFrame_new L message)) (\<lambda>frame.
     then_do (lift (MessageFrame_to_bytes L frame)) (\<lambda>bytes.
     map_err NE_NetworkError (net_write_all N stream bytes)))"

text \<open>The body that follows the length is itself handed to \<^verbatim>\<open>MessageFrame::from_bytes\<close>.\<close>

definition receive_message :: "lib \<Rightarrow> ('w, 'c) net \<Rightarrow> 'c \<Rightarrow> ('w, network_message, sync_error) prog" where
  "receive_message L N stream =
     then_do (map_err NE_NetworkError (net_read_exact N stream 4)) (\<lambda>length_buffer.
     then_do (map_err NE_NetworkError
       (net_read_exact N stream (unat (of_le32 length_buffer)))) (\<lambda>message_buffer.
     then_do (lift (MessageFrame_from_bytes L message_buffer)) (\<lambda>frame.
     ret (mf_message frame))))"

section \<open>CustomSync\<close>

text \<open>
  \<^verbatim>\<open>known_peers\<close> is a \<^verbatim>\<open>HashMap\<close>, whose iteration order is unspecified: an association list in some
  order, one entry per key.
\<close>

type_synonym known_peers = "(public_key \<times> socket_addr) list"

record custom_sync =
  cs_peer_id :: public_key
  cs_listen_addr :: socket_addr

text \<open>A new node knows no peer and is not running.\<close>

definition CustomSync_new :: "public_key \<Rightarrow> socket_addr \<Rightarrow> custom_sync \<times> known_peers \<times> bool" where
  "CustomSync_new pid listen_addr =
     (\<lparr>cs_peer_id = pid, cs_listen_addr = listen_addr\<rparr>, [], False)"

definition peers_insert :: "public_key \<Rightarrow> socket_addr \<Rightarrow> known_peers \<Rightarrow> known_peers" where
  "peers_insert pid addr peers = (pid, addr) # filter (\<lambda>p. fst p \<noteq> pid) peers"

definition CustomSync_add_peer :: "peer \<Rightarrow> known_peers \<Rightarrow> known_peers" where
  "CustomSync_add_peer p peers = peers_insert (peer_id p) (peer_address p) peers"

definition CustomSync_discover_peers :: "known_peers \<Rightarrow> (peer list, sync_error) outcome" where
  "CustomSync_discover_peers peers = Ok (map (\<lambda>(pid, addr). \<lparr>peer_id = pid, peer_address = addr\<rparr>) peers)"

text \<open>One incoming connection, on the network and the known peers.\<close>

definition handle_connection ::
    "lib \<Rightarrow> ('w, 'c) net \<Rightarrow> 'c \<Rightarrow> socket_addr \<Rightarrow> public_key \<Rightarrow> ('w \<times> known_peers, unit, sync_error) prog" where
  "handle_connection L N socket addr pid =
     then_do (lift (MessageFrame_new L (Handshake pid 1))) (\<lambda>handshake.
     then_do (lift (MessageFrame_to_bytes L handshake)) (\<lambda>handshake_bytes.
     then_do (on_fst (map_err NE_NetworkError (net_write_all N socket handshake_bytes))) (\<lambda>_.
     then_do (on_fst (map_err NE_NetworkError (net_read N socket 1024))) (\<lambda>buffer.
     if length buffer = 0 then fail (NE_NetworkError ''Connection closed'')
     else
       then_do (lift (MessageFrame_from_bytes L buffer)) (\<lambda>frame.
       case mf_message frame of
         HandshakeAck remote_peer_id version \<Rightarrow>
           if version \<noteq> 1 then fail (NE_NetworkError ''Version mismatch'')
           else modify (map_prod id (peers_insert remote_peer_id addr))
       | _ \<Rightarrow> fail NE_InvalidMessage)))))"

text \<open>
  \<^verbatim>\<open>start_server\<close>: \<open>serve n\<close> follows the accept loop for \<open>n\<close> connections, each handed to a task of
  its own (the list of sockets spawned); \<open>None\<close> is a server still listening.
\<close>

fun serve :: "nat \<Rightarrow> ('w, 'c) net \<Rightarrow> ('c \<times> socket_addr) list \<Rightarrow> 'w \<Rightarrow>
    ((unit, sync_error) outcome option \<times> ('c \<times> socket_addr) list) \<times> 'w" where
  "serve 0 N spawned w = ((None, spawned), w)"
| "serve (Suc n) N spawned w = (case map_err NE_NetworkError (net_accept N) w of
       (Ok c, w') \<Rightarrow> serve n N (spawned @ [c]) w'
     | (Err e, w') \<Rightarrow> ((Some (Err e), spawned), w')
     | (Panic, w') \<Rightarrow> ((Some Panic, spawned), w')
     | (Hang, w') \<Rightarrow> ((Some Hang, spawned), w'))"

definition start_server :: "nat \<Rightarrow> ('w, 'c) net \<Rightarrow> custom_sync \<Rightarrow> 'w \<times> bool \<Rightarrow>
    ((unit, sync_error) outcome option \<times> ('c \<times> socket_addr) list) \<times> 'w \<times> bool" where
  "start_server n N self = (\<lambda>(w, running).
     if running then ((Some (Ok ()), []), (w, True))
     else case map_err NE_NetworkError (net_bind N (cs_listen_addr self)) w of
         (Ok _, w') \<Rightarrow> (case serve n N [] w' of (r, w'') \<Rightarrow> (r, (w'', True)))
       | (Err e, w') \<Rightarrow> ((Some (Err e), []), (w', True))
       | (Panic, w') \<Rightarrow> ((Some Panic, []), (w', True))
       | (Hang, w') \<Rightarrow> ((Some Hang, []), (w', True)))"

definition connect :: "('w, 'c) net \<Rightarrow> nat \<Rightarrow> socket_addr \<Rightarrow> ('w, 'c, sync_error) prog" where
  "connect N secs addr = (\<lambda>w. case net_connect N secs addr w of
       (Connected c, w') \<Rightarrow> (Ok c, w')
     | (Refused e, w') \<Rightarrow> (Err (NE_NetworkError e), w')
     | (Elapsed, w') \<Rightarrow> (Err NE_ConnectionTimeout, w'))"

definition CustomSync_sync_with_peer ::
    "lib \<Rightarrow> ('w, 'c) net \<Rightarrow> custom_sync \<Rightarrow> peer \<Rightarrow> chain_state \<Rightarrow> ('w, block, sync_error) prog" where
  "CustomSync_sync_with_peer L N self p local_chain_state =
     then_do (connect N 5 (peer_address p)) (\<lambda>stream.
     then_do (send_message L N stream (Handshake (cs_peer_id self) 1)) (\<lambda>_.
     then_do (receive_message L N stream) (\<lambda>response.
     case response of
       HandshakeAck remote version \<Rightarrow>
         then_do (send_message L N stream GetChainHead) (\<lambda>_.
         then_do (receive_message L N stream) (\<lambda>chain_head.
         case chain_head of
           ChainHeadResponse latest_hash height \<Rightarrow>
             fail (NE_SynchronizationError ''Sync not fully implemented'')
         | _ \<Rightarrow> fail NE_InvalidMessage))
     | _ \<Rightarrow> fail NE_AuthenticationFailed)))"

text \<open>A peer that cannot be reached or written to is skipped.\<close>

definition announce :: "lib \<Rightarrow> ('w, 'c) net \<Rightarrow> network_message \<Rightarrow> peer \<Rightarrow> ('w, unit, sync_error) prog" where
  "announce L N announcement p = (\<lambda>w. case net_connect N 2 (peer_address p) w of
       (Connected stream, w') \<Rightarrow> discard (send_message L N stream announcement) w'
     | (_, w') \<Rightarrow> (Ok (), w'))"

definition CustomSync_broadcast_block ::
    "lib \<Rightarrow> ('w, 'c) net \<Rightarrow> block \<Rightarrow> peer list \<Rightarrow> ('w, unit, sync_error) prog" where
  "CustomSync_broadcast_block L N block peers =
     for_each (announce L N (NewBlockAnnouncement (b_hash block) (b_index block))) peers"

section \<open>NoopSync\<close>

definition NoopSync_sync_with_peer :: "peer \<Rightarrow> chain_state \<Rightarrow> (block, sync_error) outcome" where
  "NoopSync_sync_with_peer p local_chain_state =
     Err (NE_SynchronizationError ''No-op sync does not perform actual synchronization'')"

definition NoopSync_discover_peers :: "(peer list, sync_error) outcome" where
  "NoopSync_discover_peers = Ok []"

definition NoopSync_broadcast_block :: "block \<Rightarrow> peer list \<Rightarrow> (unit, sync_error) outcome" where
  "NoopSync_broadcast_block block peers = Ok ()"

section \<open>The SyncLayer trait\<close>

record 'w sync_layer =
  sync_with_peer :: "peer \<Rightarrow> chain_state \<Rightarrow> ('w, block, sync_error) prog"
  discover_peers :: "'w \<Rightarrow> (peer list, sync_error) outcome"
  broadcast_block :: "block \<Rightarrow> peer list \<Rightarrow> ('w, unit, sync_error) prog"

definition CustomSync :: "lib \<Rightarrow> ('w, 'c) net \<Rightarrow> custom_sync \<Rightarrow> ('w \<times> known_peers) sync_layer" where
  "CustomSync L N self = \<lparr>
     sync_with_peer = (\<lambda>p cs. on_fst (CustomSync_sync_with_peer L N self p cs)),
     discover_peers = (\<lambda>(w, peers). CustomSync_discover_peers peers),
     broadcast_block = (\<lambda>b ps. on_fst (CustomSync_broadcast_block L N b ps))\<rparr>"

definition NoopSync :: "'w sync_layer" where
  "NoopSync = \<lparr>
     sync_with_peer = (\<lambda>p cs. lift (NoopSync_sync_with_peer p cs)),
     discover_peers = (\<lambda>_. NoopSync_discover_peers),
     broadcast_block = (\<lambda>b ps. lift (NoopSync_broadcast_block b ps))\<rparr>"

text \<open>The task \<^verbatim>\<open>produce_block\<close> spawns; both errors are only printed.\<close>

definition broadcast_task :: "'w sync_layer \<Rightarrow> block \<Rightarrow> ('w, unit, sync_error) prog" where
  "broadcast_task Y new_block =
     then_do (reads (\<lambda>w. case discover_peers Y w of Err e \<Rightarrow> Ok [] | r \<Rightarrow> r)) (\<lambda>peers.
     discard (broadcast_block Y new_block peers))"

text \<open>
  What both implementations share: peers are always found, broadcasting never reports an error,
  and synchronising never delivers a block.
\<close>

locale sync_contract =
  fixes Y :: "'w sync_layer"
  assumes discovers: "\<exists>ps. discover_peers Y w = Ok ps"
    and broadcast_no_Err: "fst (broadcast_block Y b ps w) \<noteq> Err e"
    and sync_no_block: "fst (sync_with_peer Y p cs w) \<noteq> Ok b"
begin

lemma task_broadcasts:
  "\<exists>ps. discover_peers Y w = Ok ps \<and> broadcast_task Y b w = broadcast_block Y b ps w"
proof -
  obtain ps where ps: "discover_peers Y w = Ok ps"
    using discovers by blast
  have "discard m w = m w" if "\<forall>e. fst (m w) \<noteq> Err e" for m :: "('w, unit, sync_error) prog"
    using that by (auto simp: discard_def split: prod.split outcome.split)
  with ps show ?thesis
    by (simp add: broadcast_task_def then_do_def reads_def broadcast_no_Err)
qed

end

lemma for_each_no_Err:
  assumes "\<And>x w. fst (f x w) \<noteq> Err e"
  shows "fst (for_each f xs w) \<noteq> Err e"
proof (induction xs arbitrary: w)
  case (Cons x xs)
  then show ?case
    using assms [of x w] by (auto simp: then_do_def split: prod.split outcome.split)
qed (simp add: ret_def)

lemma announce_no_Err: "fst (announce L N m p w) \<noteq> Err e"
  by (auto simp: announce_def discard_def split: prod.splits dialed.splits outcome.splits)

interpretation noop: sync_contract NoopSync
  by unfold_locales
    (simp_all add: NoopSync_def NoopSync_discover_peers_def NoopSync_broadcast_block_def
      NoopSync_sync_with_peer_def lift_def)

section \<open>Facts\<close>

text \<open>Messages whose parts the codec reads back: no keys, and blocks without transactions.\<close>

definition plain_message :: "network_message \<Rightarrow> bool" where
  "plain_message m = (case m of
       Handshake pid version \<Rightarrow> False
     | HandshakeAck pid version \<Rightarrow> False
     | BlocksResponse blocks \<Rightarrow> length blocks < 2 ^ 64 \<and>
         list_all (\<lambda>b. b_transactions b = [] \<and> metadata_ok (b_metadata b)) blocks
     | _ \<Rightarrow> True)"

lemma fits_Block: "b_transactions b = [] \<Longrightarrow> metadata_ok (b_metadata b) \<Longrightarrow>
    fits shape_Block (ser_Block b) \<and> de_Block L (as_read (ser_Block b)) = Some b"
  by (simp add: ser_Block_def ser_Transactions_def shape_Block_def de_Block_def codec)

lemma NetworkMessage_read_back:
  assumes "bincode_documented L" "plain_message m"
  shows "bincode_read L shape_NetworkMessage (de_NetworkMessage L) (wire_ser (ser_NetworkMessage m) @ r) = Ok m"
proof (cases m)
  case (BlocksResponse blocks)
  with assms(2) have blocks: "length blocks < 2 ^ 64"
      "\<forall>b \<in> set blocks. b_transactions b = [] \<and> metadata_ok (b_metadata b)"
    by (simp_all add: plain_message_def list_all_iff)
  then have "opt_all (map (de_Block L) (map as_read (map ser_Block blocks))) = Some blocks"
    by (induction blocks) (simp_all add: fits_Block)
  with blocks BlocksResponse assms(1) show ?thesis
    by (intro bincode_read_ser)
      (simp_all add: shape_NetworkMessage_def de_NetworkMessage_def list_all_iff fits_Block)
qed (rule bincode_read_ser; use assms in \<open>simp add: plain_message_def shape_NetworkMessage_def
  de_NetworkMessage_def codec\<close>)+

lemma slice_frame: "slice 4 (n + 4) (le32 w @ bs) = (if length bs < n then Panic else Ok (take n bs))"
  by (simp add: slice_def)

lemma from_bytes_frame:
  assumes "bincode_documented L" "length (wire_ser (ser_NetworkMessage m)) + 4 < 2 ^ 32"
  shows "MessageFrame_from_bytes L
      (le32 (word_of_nat (length (wire_ser (ser_NetworkMessage m)))) @ wire_ser (ser_NetworkMessage m) @ r) =
    bind_o (map_err_o NE_SerializationError
      (bincode_read L shape_NetworkMessage (de_NetworkMessage L) (wire_ser (ser_NetworkMessage m)))) (\<lambda>message.
    Ok \<lparr>mf_length = word_of_nat (length (wire_ser (ser_NetworkMessage m))), mf_message = message\<rparr>)"
proof -
  let ?n = "length (wire_ser (ser_NetworkMessage m))"
  have n: "unat (word_of_nat ?n :: u32) = ?n" "unat (word_of_nat ?n + 4 :: u32) = ?n + 4"
    using assms(2) by (simp_all add: unat_word_ariths unat_of_nat)
  then show ?thesis
    using assms(2)
    by (simp add: MessageFrame_from_bytes_def Let_def add_checked_fits slice_frame del: of_nat_add)
qed

text \<open>A handshake message does not read back: the key is misread and the version is four bytes of it.\<close>

definition misread_version :: "public_key \<Rightarrow> u32" where
  "misread_version pk = of_le32 (take 4 (drop 24 (arr32_bytes (PublicKey_to_bytes pk))))"

lemma HandshakeAck_misread:
  assumes "bincode_documented L"
  shows "bincode_read L shape_NetworkMessage (de_NetworkMessage L)
      (wire_ser (ser_NetworkMessage (HandshakeAck pk version)) @ r) =
    (if vk_decodes L (misread_key pk) then Ok (HandshakeAck (PublicKey (misread_key pk)) (misread_version pk))
     else Err ''custom'')"
proof -
  let ?k = "arr32_bytes (PublicKey_to_bytes pk)"
  have "wire_de HU32 (drop 24 ?k @ le32 version @ r) =
      Some (SU32 (misread_version pk), drop 28 ?k @ le32 version @ r)"
    by (simp add: p_map_def p_take_def misread_version_def)
  then have "wire_de shape_NetworkMessage (wire_ser (ser_NetworkMessage (HandshakeAck pk version)) @ r) =
      Some (SVariant 1 [ser_arr32 (misread_key pk), SU32 (misread_version pk)], drop 28 ?k @ le32 version @ r)"
    using wire_de_PublicKey [of pk "le32 version @ r"]
    by (simp add: shape_NetworkMessage_def p_bind_def p_map_def p_take_def p_ret_def)
  from bincode_de_Some [OF assms this] show ?thesis
    by (simp add: bincode_read_def de_NetworkMessage_def de_PublicKey_misread)
qed

text \<open>A body whose variant tag is below 4, taken for a frame, has no room for a message.\<close>

lemma wire_de_tag_short: "length bs < 4 \<Longrightarrow> wire_de shape_NetworkMessage bs = None"
  by (simp add: shape_NetworkMessage_def p_bind_def p_take_def)

lemma from_bytes_short:
  assumes "bincode_documented L" "unat w < 4"
  shows "\<exists>e. MessageFrame_from_bytes L (le32 w @ bs) = Err e"
proof -
  have w: "unat (w + 4) = unat w + 4"
    using assms(2) by (simp add: unat_word_ariths)
  have "wire_de shape_NetworkMessage (take (unat w) bs) = None"
    using assms(2) by (intro wire_de_tag_short) simp
  from bincode_de_None [OF assms(1) this] w assms(2) show ?thesis
    by (auto simp: MessageFrame_from_bytes_def Let_def add_checked_fits slice_frame bincode_read_def)
qed

text \<open>The frame header decides alone whether \<^verbatim>\<open>from_bytes\<close> panics.\<close>

lemma from_bytes_panics:
  assumes "bincode_documented L"
  shows "MessageFrame_from_bytes L data = Panic \<longleftrightarrow>
    4 \<le> length data \<and> 2 ^ 32 \<le> unat (of_le32 (take 4 data)) + 4"
proof (cases "length data < 4")
  case False
  let ?w = "of_le32 (take 4 data)"
  have de: "bincode_read L shape_NetworkMessage (de_NetworkMessage L) bs \<noteq> Panic" for bs
    using bincode_de_Some [OF assms, of shape_NetworkMessage bs] bincode_de_None [OF assms, of shape_NetworkMessage bs]
    by (cases "wire_de shape_NetworkMessage bs") (auto simp: bincode_read_def split: option.splits)
  show ?thesis
  proof (cases "2 ^ 32 \<le> unat ?w + 4")
    case True
    then have "unat (?w + 4) < 4"
      using unat_bound [of ?w] by (simp add: unat_word_ariths mod_if) arith
    with True False show ?thesis
      by (simp add: MessageFrame_from_bytes_def Let_def add_checked_def slice_def)
  next
    case no: False
    then have "unat (?w + 4) = unat ?w + 4"
      by (simp add: unat_word_ariths)
    with no False de show ?thesis
      by (auto simp: MessageFrame_from_bytes_def Let_def add_checked_def slice_def bind_o_def map_err_o_def
          split: outcome.split)
  qed
qed (simp add: MessageFrame_from_bytes_def)

text \<open>No branch of \<^verbatim>\<open>sync_with_peer\<close> returns a block.\<close>

lemma chain_head_never_Ok:
  "(case m of ChainHeadResponse h height \<Rightarrow> fail e1 | _ \<Rightarrow> fail e2) w \<noteq> (Ok b, w')"
  by (cases m) (simp_all add: fail_def)

lemma handshake_never_Ok:
  assumes "\<And>w w'. f w \<noteq> (Ok b, w')"
  shows "(case m of HandshakeAck remote version \<Rightarrow> f | _ \<Rightarrow> fail e) w \<noteq> (Ok b, w')"
  using assms by (cases m) (simp_all add: fail_def)

lemma sync_never_Ok: "fst (CustomSync_sync_with_peer L N self p cs w) \<noteq> Ok b"
proof
  assume "fst (CustomSync_sync_with_peer L N self p cs w) = Ok b"
  then obtain w' where "CustomSync_sync_with_peer L N self p cs w = (Ok b, w')"
    by (metis prod.collapse)
  then show False
    by (auto simp: CustomSync_sync_with_peer_def then_do_Ok_iff chain_head_never_Ok handshake_never_Ok)
qed

interpretation custom: sync_contract "CustomSync L N self" for L N self
  by unfold_locales
    (auto simp: CustomSync_def CustomSync_discover_peers_def CustomSync_broadcast_block_def on_fst_def
      for_each_no_Err [OF announce_no_Err] sync_never_Ok split: prod.split
      dest: arg_cong [of _ _ fst])

lemma added_peers:
  "distinct (map fst (fold CustomSync_add_peer added [])) \<and>
   map_of (fold CustomSync_add_peer added []) = map_of (map (\<lambda>p. (peer_id p, peer_address p)) (rev added))"
proof (induction added rule: rev_induct)
  case (snoc p added)
  then show ?case
    by (auto simp: CustomSync_add_peer_def peers_insert_def map_of_filter_neq distinct_map_filter)
qed simp

text \<open>A network that is a fixed stream of incoming bytes and takes every write.\<close>

definition script_net :: "(bytes, unit) net" where
  "script_net = \<lparr>
     net_connect = (\<lambda>secs addr w. (Connected (), w)),
     net_write_all = (\<lambda>c bs w. (Ok (), w)),
     net_read_exact = (\<lambda>c n w. if length w < n then (Err ''early eof'', w) else (Ok (take n w), drop n w)),
     net_read = (\<lambda>c n w. (Ok (take n w), drop n w)),
     net_bind = (\<lambda>addr w. (Ok (), w)),
     net_accept = (\<lambda>w. (Err ''closed'', w))\<rparr>"

lemma script_net_sel [simp]:
  "net_connect script_net secs addr w = (Connected (), w)" "net_write_all script_net c bs w = (Ok (), w)"
  "net_read_exact script_net c n w = (if length w < n then (Err ''early eof'', w) else (Ok (take n w), drop n w))"
  "net_read script_net c n w = (Ok (take n w), drop n w)"
  by (simp_all add: script_net_def)

section \<open>Properties\<close>

text \<open>
  C36: a message without keys or transactions survives its frame: \<^verbatim>\<open>from_bytes\<close> of what \<^verbatim>\<open>new\<close> and
  \<^verbatim>\<open>to_bytes\<close> wrote, whatever follows it, is the same message with its length.
\<close>

theorem frame_roundtrip:
  assumes "bincode_documented L" "plain_message m" "length (wire_ser (ser_NetworkMessage m)) + 4 < 2 ^ 32"
  shows "bind_o (bind_o (MessageFrame_new L m) (MessageFrame_to_bytes L)) (\<lambda>data.
      MessageFrame_from_bytes L (data @ rest)) =
    Ok \<lparr>mf_length = word_of_nat (length (wire_ser (ser_NetworkMessage m))), mf_message = m\<rparr>"
  using assms from_bytes_frame [OF assms(1,3), of rest] NetworkMessage_read_back [OF assms(1,2), of "[]"]
  by (simp add: MessageFrame_new_def MessageFrame_to_bytes_def)

theorem frame_roundtrip_witness:
  "bind_o (bind_o (MessageFrame_new ref_lib (GetBlocks 7 9)) (MessageFrame_to_bytes ref_lib)) (\<lambda>data.
      MessageFrame_from_bytes ref_lib (data @ [1, 2])) = Ok \<lparr>mf_length = 20, mf_message = GetBlocks 7 9\<rparr>"
proof -
  have "length (wire_ser (ser_NetworkMessage (GetBlocks 7 9))) = 20"
    by simp
  with frame_roundtrip [of ref_lib "GetBlocks 7 9" "[1, 2]"] show ?thesis
    by (simp only: ref_bincode) (simp add: plain_message_def)
qed

text \<open>
  C37: four bytes from a peer can take a task down: \<^verbatim>\<open>from_bytes\<close> panics on exactly the inputs whose
  length field is \<^verbatim>\<open>u32::MAX - 3\<close> or more, with overflow checks (the addition) and without (the
  slice).
\<close>

theorem from_bytes_panics_iff:
  assumes "bincode_documented L"
  shows "MessageFrame_from_bytes L data = Panic \<longleftrightarrow>
    4 \<le> length data \<and> 2 ^ 32 \<le> unat (of_le32 (take 4 data)) + 4"
  using assms by (rule from_bytes_panics)

theorem from_bytes_panics_iff_witness:
  "MessageFrame_from_bytes ref_lib [255, 255, 255, 255] = Panic \<and> MessageFrame_from_bytes ref_lib [0, 0, 0, 0] \<noteq> Panic"
proof -
  have "2 ^ 32 \<le> unat (of_le32 (take 4 [255, 255, 255, 255])) + 4" "\<not> 2 ^ 32 \<le> unat (of_le32 (take 4 [0, 0, 0, 0])) + 4"
    by (simp_all add: of_le32_def)
  then show ?thesis
    by (simp add: from_bytes_panics_iff [OF ref_bincode])
qed

text \<open>
  C38: synchronising never gets past the handshake. \<^verbatim>\<open>sync_with_peer\<close> never returns a block; and when a
  peer answers with a well-formed acknowledgement frame, \<^verbatim>\<open>receive_message\<close> takes its body for a
  frame of its own, fails, and nothing further is sent or read.
\<close>

theorem sync_stops_at_handshake:
  assumes "bincode_documented L" "net_connect N 5 (peer_address p) w = (Connected c, w1)"
    and "send_message L N c (Handshake (cs_peer_id self) 1) w1 = (Ok (), w2)"
    and "net_read_exact N c 4 w2 = (Ok (le32 (word_of_nat (length (wire_ser (ser_NetworkMessage (HandshakeAck pk v)))))), w3)"
    and "net_read_exact N c (length (wire_ser (ser_NetworkMessage (HandshakeAck pk v)))) w3 =
      (Ok (wire_ser (ser_NetworkMessage (HandshakeAck pk v))), w4)"
  shows "(\<exists>e. CustomSync_sync_with_peer L N self p cs w = (Err e, w4)) \<and>
    (\<forall>q w' b. fst (CustomSync_sync_with_peer L N self q cs w') \<noteq> Ok b)"
proof -
  let ?body = "wire_ser (ser_NetworkMessage (HandshakeAck pk v))"
  have len: "length ?body = 48"
    by (simp add: ser_PublicKey_def)
  obtain e where "MessageFrame_from_bytes L ?body = Err e"
    using from_bytes_short [OF assms(1), of 1] by auto
  with assms(4,5) len have "receive_message L N c w2 = (Err e, w4)"
    by (simp add: receive_message_def then_do_def map_err_def lift_def del: wire_ser.simps)
  with assms(2,3) have "CustomSync_sync_with_peer L N self p cs w = (Err e, w4)"
    by (simp add: CustomSync_sync_with_peer_def then_do_def connect_def)
  then show ?thesis
    using sync_never_Ok [of L N self _ cs] by blast
qed

theorem sync_stops_at_handshake_witness:
  "\<exists>e. CustomSync_sync_with_peer ref_lib script_net \<lparr>cs_peer_id = PublicKey 7, cs_listen_addr = []\<rparr>
      \<lparr>peer_id = PublicKey 9, peer_address = []\<rparr> (state_at 1)
      (le32 48 @ wire_ser (ser_NetworkMessage (HandshakeAck (PublicKey 9) 1)) @ [1, 2, 3]) = (Err e, [1, 2, 3])"
proof -
  let ?body = "wire_ser (ser_NetworkMessage (HandshakeAck (PublicKey 9) 1))"
  have len: "length ?body = 48"
    by (simp add: ser_PublicKey_def)
  have "send_message ref_lib script_net () (Handshake (PublicKey 7) 1) w = (Ok (), w)" for w
    by (simp add: send_message_def MessageFrame_new_def MessageFrame_to_bytes_def then_do_def lift_def map_err_def)
  moreover have "net_read_exact script_net () 4 (le32 48 @ ?body @ [1, 2, 3]) =
      (Ok (le32 (word_of_nat (length ?body))), ?body @ [1, 2, 3])"
    unfolding len by simp
  moreover have "net_read_exact script_net () (length ?body) (?body @ [1, 2, 3]) = (Ok ?body, [1, 2, 3])"
    by (simp del: wire_ser.simps ser_NetworkMessage.simps)
  ultimately show ?thesis
    using sync_stops_at_handshake [of ref_lib script_net "\<lparr>peer_id = PublicKey 9, peer_address = []\<rparr>"
        "le32 48 @ ?body @ [1, 2, 3]" "()" "le32 48 @ ?body @ [1, 2, 3]"
        "\<lparr>cs_peer_id = PublicKey 7, cs_listen_addr = []\<rparr>" "le32 48 @ ?body @ [1, 2, 3]" "PublicKey 9" 1]
    by (simp del: wire_ser.simps ser_NetworkMessage.simps)
qed

text \<open>
  A peer is never registered under the key it sends. Of a well-formed acknowledgement
  \<^verbatim>\<open>handle_connection\<close> reads another key and another version; it registers that key if the bytes
  it takes for the version happen to be 1, and otherwise leaves the known peers alone and fails.
\<close>

theorem handshake_registers_misread_key:
  assumes "bincode_documented L" "net_write_all N c
      (le32 48 @ wire_ser (ser_NetworkMessage (Handshake pid 1))) w = (Ok (), w1)"
    and "net_read N c 1024 w1 = (Ok (le32 48 @ wire_ser (ser_NetworkMessage (HandshakeAck pk v))), w2)"
    and "handle_connection L N c addr pid (w, peers) = (r, (w', peers'))"
  shows "(r = Ok ()) = (vk_decodes L (misread_key pk) \<and> misread_version pk = 1) \<and>
    peers' = (if r = Ok () then peers_insert (PublicKey (misread_key pk)) addr peers else peers)"
proof -
  let ?body = "wire_ser (ser_NetworkMessage (HandshakeAck pk v))"
  have len: "length ?body = 48" "length (wire_ser (ser_NetworkMessage (Handshake pid 1))) = 48"
    by (simp_all add: ser_PublicKey_def)
  have frame: "MessageFrame_from_bytes L (le32 48 @ ?body) =
      (if vk_decodes L (misread_key pk)
       then Ok \<lparr>mf_length = 48, mf_message = HandshakeAck (PublicKey (misread_key pk)) (misread_version pk)\<rparr>
       else Err (NE_SerializationError ''custom''))"
    using from_bytes_frame [OF assms(1), of "HandshakeAck pk v" "[]"]
      HandshakeAck_misread [OF assms(1), of pk v "[]"] len(1)
    by (simp del: wire_ser.simps ser_NetworkMessage.simps)
  show ?thesis
    using assms len(2)
    by (auto simp: handle_connection_def MessageFrame_new_def MessageFrame_to_bytes_def then_do_def on_fst_def
        map_err_def lift_def fail_def modify_def frame simp del: wire_ser.simps ser_NetworkMessage.simps
        split: if_splits)
qed

theorem handshake_registers_misread_key_witness:
  "\<exists>r w'. handle_connection ref_lib script_net () [] (PublicKey 7)
      (le32 48 @ wire_ser (ser_NetworkMessage (HandshakeAck (PublicKey 9) 1)), []) = (r, (w', [])) \<and> r \<noteq> Ok ()"
proof -
  let ?in = "le32 48 @ wire_ser (ser_NetworkMessage (HandshakeAck (PublicKey 9) 1))"
  obtain r w' peers' where run: "handle_connection ref_lib script_net () [] (PublicKey 7) (?in, []) = (r, (w', peers'))"
    by (metis prod.collapse)
  have "length ?in = 52"
    by (simp add: ser_PublicKey_def)
  then have "net_read script_net () 1024 ?in = (Ok ?in, [])"
    by (simp del: wire_ser.simps ser_NetworkMessage.simps)
  from handshake_registers_misread_key [OF ref_bincode script_net_sel(2) this run]
  have "(r = Ok ()) = (misread_version (PublicKey 9) = 1)" "peers' = (if r = Ok () then peers_insert (PublicKey (misread_key (PublicKey 9))) [] [] else [])"
    by simp_all
  moreover have "misread_version (PublicKey 9) \<noteq> 1"
    by code_simp
  ultimately show ?thesis
    using run by simp
qed

text \<open>
  The known peers are a map. After any \<^verbatim>\<open>add_peer\<close> calls on a new \<^verbatim>\<open>CustomSync\<close>, \<^verbatim>\<open>discover_peers\<close>
  lists every added peer exactly once, at the address it was added with last.
\<close>

theorem discover_lists_latest_address:
  "\<exists>ps. CustomSync_discover_peers (fold CustomSync_add_peer added []) = Ok ps \<and>
    distinct (map peer_id ps) \<and>
    map_of (map (\<lambda>p. (peer_id p, peer_address p)) ps) =
    map_of (map (\<lambda>p. (peer_id p, peer_address p)) (rev added))"
  using added_peers [of added] by (simp add: CustomSync_discover_peers_def o_def case_prod_unfold)

end
