(* ===== verification/Baals_Runtime.thy ===== *)
theory Baals_Runtime
  imports Baals_Ledger_Claims
begin

text \<open>
  \<^verbatim>\<open>src/runtime.rs\<close>: \<^verbatim>\<open>Runtime\<close> as the state of its storage and of its mutexes. A guard is held from
  \<^verbatim>\<open>lock\<close> to \<^verbatim>\<open>drop\<close> or to the end of the call. Of a second \<^verbatim>\<open>lock\<close> of a held mutex by the same thread
  the standard library only promises that it does not return; it is modelled as the platforms
  implement it, blocking forever.
\<close>

datatype runtime_error =
    RE_StorageError storage_error
  | RE_LedgerError ledger_error
  | RE_ConsensusError consensus_error
  | RE_CryptoError crypto_error
  | RE_ChainInitializationError
  | RE_KeypairGenerationError
  | RE_InvalidTransaction string
  | RE_AlreadyRunning
  | RE_NotRunning

section \<open>Mutexes\<close>

record 'a mutex =
  m_value :: 'a
  m_held :: bool
  m_poisoned :: bool

definition Mutex_new :: "'a \<Rightarrow> 'a mutex" where
  "Mutex_new v = \<lparr>m_value = v, m_held = False, m_poisoned = False\<rparr>"

definition unlocked :: "'a mutex \<Rightarrow> bool" where
  "unlocked m \<longleftrightarrow> \<not> m_held m \<and> \<not> m_poisoned m"

text \<open>
  \<^verbatim>\<open>m.lock()\<close>. A poisoned mutex is locked and then released with the \<^verbatim>\<open>PoisonError\<close> that
  \<^verbatim>\<open>map_err\<close> drops.
\<close>

definition mutex_lock :: "('a mutex, unit, unit) prog" where
  "mutex_lock = (\<lambda>m.
     if m_held m then (Hang, m)
     else if m_poisoned m then (Err (), m)
     else (Ok (), m\<lparr>m_held := True\<rparr>))"

text \<open>Dropping the guard; a panic while it is held poisons the mutex.\<close>

definition mutex_release :: "bool \<Rightarrow> 'a mutex \<Rightarrow> 'a mutex" where
  "mutex_release panicking m =
     (if m_held m then m\<lparr>m_held := False, m_poisoned := m_poisoned m \<or> panicking\<rparr> else m)"

section \<open>The runtime's state\<close>

text \<open>\<open>rt_spawned\<close> are the blocks handed to a spawned broadcast task, the one use of the sync layer.\<close>

record runtime_cells =
  rt_mempool :: "transaction list mutex"
  rt_chain_state :: "chain_state mutex"
  rt_is_running :: "bool mutex"
  rt_spawned :: "block list"

type_synonym 's runtime = "'s \<times> runtime_cells"

definition lock_failure :: "string \<Rightarrow> runtime_error" where
  "lock_failure what = RE_InvalidTransaction (''Failed to acquire '' @ what @ '' lock'')"

definition lock_mempool :: "('s runtime, unit, runtime_error) prog" where
  "lock_mempool = (\<lambda>(s, c). case mutex_lock (rt_mempool c) of (r, m) \<Rightarrow>
     (map_err_o (\<lambda>_. lock_failure ''mempool'') r, (s, c\<lparr>rt_mempool := m\<rparr>)))"

definition lock_chain_state :: "('s runtime, unit, runtime_error) prog" where
  "lock_chain_state = (\<lambda>(s, c). case mutex_lock (rt_chain_state c) of (r, m) \<Rightarrow>
     (map_err_o (\<lambda>_. lock_failure ''chain state'') r, (s, c\<lparr>rt_chain_state := m\<rparr>)))"

definition drop_mempool :: "bool \<Rightarrow> runtime_cells \<Rightarrow> runtime_cells" where
  "drop_mempool panicking c = c\<lparr>rt_mempool := mutex_release panicking (rt_mempool c)\<rparr>"

definition drop_chain_state :: "bool \<Rightarrow> runtime_cells \<Rightarrow> runtime_cells" where
  "drop_chain_state panicking c = c\<lparr>rt_chain_state := mutex_release panicking (rt_chain_state c)\<rparr>"

text \<open>
  The scope of a call: when it returns or unwinds, the guards it took and still holds are dropped; a
  mutex that was held when the call began is held by another call, and stays so. A call that does
  not return keeps its guards.
\<close>

definition drop_own :: "bool \<Rightarrow> runtime_cells \<Rightarrow> runtime_cells \<Rightarrow> runtime_cells" where
  "drop_own panicking before c =
     (let c = (if m_held (rt_chain_state before) then c else drop_chain_state panicking c) in
      if m_held (rt_mempool before) then c else drop_mempool panicking c)"

definition scope :: "('s runtime, 'a, runtime_error) prog \<Rightarrow> ('s runtime, 'a, runtime_error) prog" where
  "scope m = (\<lambda>st. case m st of (r, (s, c)) \<Rightarrow>
     (case r of
        Hang \<Rightarrow> (Hang, (s, c))
      | Panic \<Rightarrow> (Panic, (s, drop_own True (snd st) c))
      | _ \<Rightarrow> (r, (s, drop_own False (snd st) c))))"

definition mempool :: "'s runtime \<Rightarrow> transaction list" where
  "mempool st = m_value (rt_mempool (snd st))"

definition the_chain_state :: "'s runtime \<Rightarrow> chain_state" where
  "the_chain_state st = m_value (rt_chain_state (snd st))"

section \<open>Operations\<close>

definition Runtime_new :: "lib \<Rightarrow> 's storage \<Rightarrow> ('s, runtime_cells, runtime_error) prog" where
  "Runtime_new L T =
     then_do (map_err RE_LedgerError (Ledger_initialize_chain L T)) (\<lambda>_.
     then_do (map_err RE_StorageError (reads (get_chain_state T))) (\<lambda>found.
     case found of
       None \<Rightarrow> fail RE_ChainInitializationError
     | Some initial_chain_state \<Rightarrow> ret
         \<lparr>rt_mempool = Mutex_new [], rt_chain_state = Mutex_new initial_chain_state,
          rt_is_running = Mutex_new False, rt_spawned = []\<rparr>))"

definition storage_call :: "('s \<Rightarrow> ('a, storage_error) outcome) \<Rightarrow> ('s runtime, 'a, runtime_error) prog" where
  "storage_call f = on_fst (map_err RE_StorageError (reads f))"

definition push_mempool :: "transaction \<Rightarrow> runtime_cells \<Rightarrow> runtime_cells" where
  "push_mempool tx c = c\<lparr>rt_mempool := (rt_mempool c)\<lparr>m_value := m_value (rt_mempool c) @ [tx]\<rparr>\<rparr>"

definition Runtime_submit_transaction ::
    "lib \<Rightarrow> 's storage \<Rightarrow> transaction \<Rightarrow> ('s runtime, unit, runtime_error) prog" where
  "Runtime_submit_transaction L T transaction = scope (
     then_do (lift (map_err_o RE_CryptoError (Transaction_verify_signature L transaction))) (\<lambda>valid.
     if \<not> valid then fail (RE_InvalidTransaction ''Invalid transaction signature'')
     else
       then_do lock_chain_state (\<lambda>_.
       then_do (storage_call (get_account T (t_sender transaction))) (\<lambda>found.
       let sender_account = (case found of None \<Rightarrow> Wallet 0 0 | Some a \<Rightarrow> a) in
       if t_nonce transaction \<le> Account_nonce sender_account
       then fail (RE_InvalidTransaction (''Invalid nonce: expected greater than '' @
         show_dec (unat (Account_nonce sender_account)) @ '', got '' @ show_dec (unat (t_nonce transaction))))
       else
         then_do lock_mempool (\<lambda>_.
         modify (map_prod id (push_mempool transaction)))))))"

text \<open>\<^verbatim>\<open>apply_block\<close> on the chain state behind the guard.\<close>

definition apply_guarded ::
    "lib \<Rightarrow> 's storage \<Rightarrow> 's contract_engine \<Rightarrow> block \<Rightarrow> ('s runtime, unit, runtime_error) prog" where
  "apply_guarded L T E block = (\<lambda>(s, c).
     case Ledger_apply_block L T E block (s, m_value (rt_chain_state c)) of (r, (s', cs)) \<Rightarrow>
       (map_err_o RE_LedgerError r, (s', c\<lparr>rt_chain_state := (rt_chain_state c)\<lparr>m_value := cs\<rparr>\<rparr>)))"

text \<open>\<^verbatim>\<open>produce_block\<close> from the second lock of the chain state to its end.\<close>

definition produce_tail ::
    "lib \<Rightarrow> 's storage \<Rightarrow> 's contract_engine \<Rightarrow> block \<Rightarrow> ('s runtime, block, runtime_error) prog" where
  "produce_tail L T E new_block =
     then_do lock_chain_state (\<lambda>_.
     then_do (reads (\<lambda>st. map_err_o RE_LedgerError
       (Ledger_validate_block L T new_block (the_chain_state st) (fst st)))) (\<lambda>_.
     then_do (apply_guarded L T E new_block) (\<lambda>_.
     then_do (modify (map_prod id (\<lambda>c. c\<lparr>rt_spawned := rt_spawned c @ [new_block]\<rparr>))) (\<lambda>_.
     then_do lock_mempool (\<lambda>_.
     then_do (modify (map_prod id (\<lambda>c. c\<lparr>rt_mempool := (rt_mempool c)\<lparr>m_value := []\<rparr>\<rparr>))) (\<lambda>_.
     ret new_block))))))"

definition Runtime_produce_block ::
    "lib \<Rightarrow> 's storage \<Rightarrow> 's contract_engine \<Rightarrow> consensus_engine \<Rightarrow> ('s runtime, block, runtime_error) prog" where
  "Runtime_produce_block L T E C = scope (
     then_do lock_mempool (\<lambda>_.
     then_do (reads (\<lambda>st. Ok (mempool st))) (\<lambda>txs.
     if txs = [] then fail (RE_ConsensusError CO_NoPendingTransactions)
     else
       then_do lock_chain_state (\<lambda>_.
       then_do (reads (\<lambda>st. Ok (the_chain_state st))) (\<lambda>current_chain_state.
       then_do (storage_call (get_block T (latest_block_hash current_chain_state))) (\<lambda>found.
       case found of
         None \<Rightarrow> fail (RE_StorageError SE_NotFound)
       | Some prev_block \<Rightarrow>
           then_do (lift (map_err_o RE_ConsensusError
             (generate_block C txs prev_block current_chain_state))) (\<lambda>new_block.
           then_do (modify (map_prod id (drop_mempool False))) (\<lambda>_.
           produce_tail L T E new_block))))))))"

definition Runtime_get_chain_state :: "('s runtime, chain_state, runtime_error) prog" where
  "Runtime_get_chain_state = scope (
     then_do lock_chain_state (\<lambda>_. reads (\<lambda>st. Ok (the_chain_state st))))"

definition Runtime_get_block :: "'s storage \<Rightarrow> arr32 \<Rightarrow> ('s runtime, block option, runtime_error) prog" where
  "Runtime_get_block T hash = storage_call (get_block T hash)"

definition Runtime_get_transaction ::
    "'s storage \<Rightarrow> arr32 \<Rightarrow> ('s runtime, transaction option, runtime_error) prog" where
  "Runtime_get_transaction T tx_hash = storage_call (get_transaction T tx_hash)"

definition Runtime_get_block_by_height ::
    "'s storage \<Rightarrow> u64 \<Rightarrow> ('s runtime, block option, runtime_error) prog" where
  "Runtime_get_block_by_height T height = storage_call (get_block_by_height T height)"

definition Runtime_get_account ::
    "'s storage \<Rightarrow> public_key \<Rightarrow> ('s runtime, account option, runtime_error) prog" where
  "Runtime_get_account T address = storage_call (get_account T address)"

definition Runtime_contract_storage_read ::
    "'s storage \<Rightarrow> contract_id \<Rightarrow> bytes \<Rightarrow> ('s runtime, bytes option, runtime_error) prog" where
  "Runtime_contract_storage_read T contract_id key = storage_call (contract_storage_read T contract_id key)"

text \<open>
  The associated functions: keys from 32 bytes of the operating system's randomness (which is
  \<open>None\<close> when \<^verbatim>\<open>OsRng\<close> fails and panics), and the clock. The accessors hand out the storage and the
  engine the runtime was made with.
\<close>

definition Runtime_generate_keypair :: "arr32 option \<Rightarrow> (arr32, runtime_error) outcome" where
  "Runtime_generate_keypair random = (case random of None \<Rightarrow> Panic | Some secret_key_bytes \<Rightarrow> Ok secret_key_bytes)"

definition Runtime_generate_signing_key :: "arr32 option \<Rightarrow> (arr32, runtime_error) outcome" where
  "Runtime_generate_signing_key random = (case random of None \<Rightarrow> Panic | Some secret_key_bytes \<Rightarrow> Ok secret_key_bytes)"

definition Runtime_get_current_timestamp :: "int \<Rightarrow> (u64, runtime_error) outcome" where
  "Runtime_get_current_timestamp now = unix_seconds now"

definition Runtime_storage :: "'s runtime \<Rightarrow> 's" where
  "Runtime_storage st = fst st"

definition Runtime_contract_engine :: "lib \<Rightarrow> 's contract_engine" where
  "Runtime_contract_engine L = BaaLSContractEngine L"

text \<open>\<^verbatim>\<open>start\<close> and \<^verbatim>\<open>stop\<close> print a line.\<close>

definition Runtime_start :: "('s runtime, unit, runtime_error) prog" where
  "Runtime_start = ret ()"

definition Runtime_stop :: "('s runtime, unit, runtime_error) prog" where
  "Runtime_stop = ret ()"

section \<open>Facts\<close>

text \<open>A runtime at rest: between calls no guard is held, and nothing has panicked.\<close>

definition at_rest :: "'s runtime \<Rightarrow> bool" where
  "at_rest st \<longleftrightarrow> unlocked (rt_mempool (snd st)) \<and> unlocked (rt_chain_state (snd st))"

lemmas runtime_defs =
  scope_def then_do_def lock_mempool_def lock_chain_state_def mutex_lock_def
  storage_call_def on_fst_def map_err_def lift_def reads_def modify_def fail_def ret_def
  drop_own_def Let_def drop_mempool_def drop_chain_state_def mutex_release_def

lemma rest_cases:
  assumes "at_rest st"
  obtains s txs cs running spawned where
    "st = (s, \<lparr>rt_mempool = \<lparr>m_value = txs, m_held = False, m_poisoned = False\<rparr>,
       rt_chain_state = \<lparr>m_value = cs, m_held = False, m_poisoned = False\<rparr>,
       rt_is_running = running, rt_spawned = spawned\<rparr>)"
proof -
  obtain s c where st: "st = (s, c)"
    by (rule prod.exhaust)
  obtain mp csm running spawned where c: "c =
      \<lparr>rt_mempool = mp, rt_chain_state = csm, rt_is_running = running, rt_spawned = spawned\<rparr>"
    by (cases c)
  from assms st c show thesis
    by (cases mp; cases csm) (simp add: that at_rest_def unlocked_def)
qed

text \<open>What \<^verbatim>\<open>submit_transaction\<close> checks, and all it changes.\<close>

definition admissible :: "lib \<Rightarrow> 's storage \<Rightarrow> 's \<Rightarrow> transaction \<Rightarrow> bool" where
  "admissible L T s tx \<longleftrightarrow> Transaction_verify_signature L tx = Ok True \<and>
     (\<exists>found. get_account T (t_sender tx) s = Ok found \<and>
        (case found of None \<Rightarrow> 0 | Some a \<Rightarrow> Account_nonce a) < t_nonce tx)"

lemma submit_at_rest:
  assumes "at_rest st" "returns (get_account T (t_sender tx) (fst st))"
  shows "if admissible L T (fst st) tx
    then Runtime_submit_transaction L T tx st = (Ok (), map_prod id (push_mempool tx) st)
    else snd (Runtime_submit_transaction L T tx st) = st \<and> fst (Runtime_submit_transaction L T tx st) \<noteq> Ok ()"
  using assms(1)
proof (cases rule: rest_cases)
  case (1 s txs cs running spawned)
  show ?thesis
  proof (cases "Transaction_verify_signature L tx = Ok True")
    case False
    then show ?thesis
      by (cases "Transaction_verify_signature L tx")
        (simp_all add: 1 admissible_def Runtime_submit_transaction_def runtime_defs)
  next
    case True
    show ?thesis
    proof (cases "get_account T (t_sender tx) s")
      case (Ok found)
      show ?thesis
        by (cases "(case found of None \<Rightarrow> 0 | Some a \<Rightarrow> Account_nonce a) < t_nonce tx"; cases found)
          (simp_all add: 1 True Ok admissible_def Runtime_submit_transaction_def runtime_defs Let_def push_mempool_def
            not_le not_less)
    qed (use assms(2) in \<open>simp_all add: 1 True admissible_def Runtime_submit_transaction_def runtime_defs returns_def\<close>)
  qed
qed

text \<open>\<^verbatim>\<open>produce_block\<close>: the chain state is locked twice, the second time while the first guard lives.\<close>

lemma produce_tail_held:
  "m_held (rt_chain_state (snd st)) \<Longrightarrow> produce_tail L T E b st = (Hang, st)"
  by (cases st) (simp add: produce_tail_def runtime_defs)

lemma produce_block_at_rest:
  assumes "at_rest st"
  shows "\<exists>r c. Runtime_produce_block L T E C st = (r, (fst st, c)) \<and> (\<forall>b. r \<noteq> Ok b) \<and>
    m_value (rt_mempool c) = mempool st \<and> m_value (rt_chain_state c) = the_chain_state st \<and>
    rt_spawned c = rt_spawned (snd st) \<and> (returns r \<longrightarrow> at_rest (fst st, c))"
  using assms
proof (cases rule: rest_cases)
  case (1 s txs cs running spawned)
  note rest = at_rest_def unlocked_def returns_def
  show ?thesis
  proof (cases "txs = []")
    case True
    then show ?thesis
      by (simp add: 1 Runtime_produce_block_def runtime_defs mempool_def the_chain_state_def rest)
  next
    case nonempty: False
    show ?thesis
    proof (cases "get_block T (latest_block_hash cs) s")
      case (Ok found)
      show ?thesis
      proof (cases found)
        case None
        then show ?thesis
          by (simp add: 1 nonempty Ok Runtime_produce_block_def runtime_defs mempool_def the_chain_state_def rest)
      next
        case (Some prev)
        show ?thesis
          by (cases "generate_block C txs prev cs")
            (simp_all add: 1 nonempty Ok Some Runtime_produce_block_def runtime_defs mempool_def the_chain_state_def
              produce_tail_held rest)
      qed
    qed (simp_all add: 1 nonempty Runtime_produce_block_def runtime_defs mempool_def the_chain_state_def rest)
  qed
qed

text \<open>Everything in place for a block: the thread never comes back and keeps the chain state locked.\<close>

lemma produce_block_hangs:
  assumes "at_rest st" "mempool st \<noteq> []"
    and "get_block T (latest_block_hash (the_chain_state st)) (fst st) = Ok (Some prev)"
    and "generate_block C (mempool st) prev (the_chain_state st) = Ok b"
  shows "\<exists>c. Runtime_produce_block L T E C st = (Hang, (fst st, c)) \<and> m_held (rt_chain_state c) \<and>
    m_value (rt_mempool c) = mempool st"
  using assms(1)
proof (cases rule: rest_cases)
  case (1 s txs cs running spawned)
  with assms(2-4) show ?thesis
    by (simp add: Runtime_produce_block_def runtime_defs mempool_def the_chain_state_def produce_tail_held)
qed

section \<open>Runs of a node\<close>

text \<open>
  What can happen to a runtime between calls: its API, from any thread, and writes to the storage
  it shares, in any order. A mutex that is held stays held.
\<close>

inductive node_step ::
    "lib \<Rightarrow> 's storage \<Rightarrow> 's contract_engine \<Rightarrow> consensus_engine \<Rightarrow> 's runtime \<Rightarrow> 's runtime \<Rightarrow> bool"
  for L T E C where
  submit: "node_step L T E C st (snd (Runtime_submit_transaction L T tx st))"
| produce: "node_step L T E C st (snd (Runtime_produce_block L T E C st))"
| chain_state: "node_step L T E C st (snd (Runtime_get_chain_state st))"
| storage: "node_step L T E C (s, c) (s', c)"

inductive_cases node_stepE: "node_step L T E C st st'"

lemma mempool_frame [keeps_rules]:
  "keeps mempool lock_mempool" "keeps mempool lock_chain_state" "keeps mempool (storage_call f)"
  by (auto simp: keeps_def mempool_def runtime_defs split: outcome.split)

lemma drop_mempool_value [simp]:
  "m_value (rt_mempool (drop_mempool p c)) = m_value (rt_mempool c)"
  "m_value (rt_mempool (drop_chain_state p c)) = m_value (rt_mempool c)"
  "m_value (rt_mempool (drop_own p before c)) = m_value (rt_mempool c)"
  by (simp_all add: drop_own_def Let_def drop_mempool_def drop_chain_state_def mutex_release_def)

lemma keeps_scope [keeps_rules]: "keeps mempool m \<Longrightarrow> keeps mempool (scope m)"
  unfolding keeps_def scope_def mempool_def
  by (auto split: prod.splits outcome.splits) (metis snd_conv)+

text \<open>Whatever the locks, a submission leaves the mempool alone or appends its verified transaction.\<close>

definition appends :: "transaction \<Rightarrow> ('s runtime, 'a, 'e) prog \<Rightarrow> bool" where
  "appends tx m \<longleftrightarrow> (\<forall>st. mempool (snd (m st)) = mempool st \<or> mempool (snd (m st)) = mempool st @ [tx])"

lemma appends_then_do:
  assumes "keeps mempool m" "\<And>a. appends tx (f a)"
  shows "appends tx (then_do m f)"
  using assms unfolding appends_def keeps_def then_do_def
  by (auto split: prod.split outcome.split) (metis snd_conv)+

lemma appends_keeps: "keeps mempool m \<Longrightarrow> appends tx m"
  by (simp add: appends_def keeps_def)

lemma appends_scope: "appends tx m \<Longrightarrow> appends tx (scope m)"
  unfolding appends_def scope_def mempool_def
  by (auto split: prod.splits outcome.splits) (metis snd_conv)+

lemma submit_mempool:
  "mempool (snd (Runtime_submit_transaction L T tx st)) = mempool st \<or>
   mempool (snd (Runtime_submit_transaction L T tx st)) = mempool st @ [tx] \<and>
     Transaction_verify_signature L tx = Ok True"
proof (cases "Transaction_verify_signature L tx = Ok True")
  case True
  have "appends tx (modify (map_prod id (push_mempool tx)) :: ('s runtime, unit, runtime_error) prog)"
    by (simp add: appends_def modify_def mempool_def push_mempool_def)
  then have "appends tx (Runtime_submit_transaction L T tx)"
    by (auto simp: Runtime_submit_transaction_def True Let_def
        intro!: appends_scope appends_then_do keeps_rules intro: appends_keeps)
  with True show ?thesis
    unfolding appends_def by blast
next
  case False
  then show ?thesis
    by (cases "Transaction_verify_signature L tx"; cases st)
      (simp_all add: Runtime_submit_transaction_def scope_def prog_simps mempool_def)
qed

text \<open>Behind a held chain state \<^verbatim>\<open>produce_block\<close> never gets to clear the mempool.\<close>

definition held_keeps :: "('s runtime, 'a, 'e) prog \<Rightarrow> bool" where
  "held_keeps m \<longleftrightarrow> (\<forall>st. m_held (rt_chain_state (snd st)) \<longrightarrow> mempool (snd (m st)) = mempool st)"

definition mempool_and_guard :: "'s runtime \<Rightarrow> transaction list \<times> bool" where
  "mempool_and_guard st = (mempool st, m_held (rt_chain_state (snd st)))"

lemma held_then_do:
  assumes "keeps mempool_and_guard m" "\<And>a. held_keeps (f a)"
  shows "held_keeps (then_do m f)"
  unfolding held_keeps_def
proof (intro allI impI)
  fix st :: "'a runtime"
  assume held: "m_held (rt_chain_state (snd st))"
  obtain r st' where m: "m st = (r, st')"
    by (rule prod.exhaust)
  from keepsD [OF assms(1) m] have "mempool st' = mempool st" "m_held (rt_chain_state (snd st'))"
    using held by (simp_all add: mempool_and_guard_def)
  with assms(2) have "mempool (snd (f a st')) = mempool st" for a
    unfolding held_keeps_def by metis
  with m \<open>mempool st' = mempool st\<close> show "mempool (snd (then_do m f st)) = mempool st"
    by (cases r) (simp_all add: then_do_def)
qed

lemma lock_chain_state_held: "lock_chain_state st = (Ok u, st') \<Longrightarrow> m_held (rt_chain_state (snd st'))"
  by (auto simp: lock_chain_state_def mutex_lock_def split: prod.splits if_splits)

lemma keeps_lock_chain_state:
  assumes "\<And>a. held_keeps (f a)"
  shows "keeps mempool (then_do lock_chain_state f)"
proof (rule keepsI)
  fix s r s'
  assume "then_do lock_chain_state f s = (r, s')"
  then show "mempool s' = mempool s"
  proof (cases rule: then_do_cases)
    case (Ok a s1)
    have "mempool s1 = mempool s"
      using mempool_frame(2) Ok(1) by (rule keepsD)
    moreover have "mempool (snd (f a s1)) = mempool s1"
      using assms [of a] lock_chain_state_held [OF Ok(1)] unfolding held_keeps_def by blast
    ultimately show ?thesis
      using Ok(2) by simp
  qed (use keepsD [OF mempool_frame(2)] in blast)+
qed

lemma guard_frame [keeps_rules]:
  "keeps mempool_and_guard (storage_call f)" "keeps mempool_and_guard (modify (map_prod id (drop_mempool p)))"
  by (auto simp: keeps_def mempool_and_guard_def mempool_def storage_call_def on_fst_def map_err_def reads_def
      modify_def drop_mempool_def mutex_release_def)

lemma held_keeps_end: "held_keeps (fail e)" "held_keeps (produce_tail L T E b)"
  by (simp_all add: held_keeps_def fail_def produce_tail_held)

lemma produce_mempool: "mempool (snd (Runtime_produce_block L T E C st)) = mempool st"
proof -
  have "keeps mempool (Runtime_produce_block L T E C)"
    unfolding Runtime_produce_block_def
    by (auto intro!: keeps_scope keeps_lock_chain_state held_then_do held_keeps_end keeps_then_do keeps_pure
        mempool_frame guard_frame split: option.split)
  then show ?thesis
    unfolding keeps_def by blast
qed

lemma get_chain_state_mempool: "mempool (snd (Runtime_get_chain_state st)) = mempool st"
proof -
  have "keeps mempool Runtime_get_chain_state"
    unfolding Runtime_get_chain_state_def by (intro keeps_rules)
  then show ?thesis
    unfolding keeps_def by blast
qed

lemma step_mempool:
  assumes "node_step L T E C st st'"
  shows "mempool st' = mempool st \<or>
    (\<exists>tx. mempool st' = mempool st @ [tx] \<and> Transaction_verify_signature L tx = Ok True)"
  using assms submit_mempool [of L T _ st] produce_mempool [of L T E C st] get_chain_state_mempool [of st]
  by (elim node_stepE) (metis, metis, metis, simp add: mempool_def)

text \<open>Over any run the mempool is an initial part of what it becomes, and only verified transactions come in.\<close>

lemma run_mempool:
  assumes "(node_step L T E C)\<^sup>*\<^sup>* st st'"
  shows "\<exists>txs. mempool st' = mempool st @ txs \<and> (\<forall>tx \<in> set txs. Transaction_verify_signature L tx = Ok True)"
  using assms
proof (induction rule: rtranclp_induct)
  case (step y z)
  then show ?case
    using step_mempool [OF step.hyps(2)] by auto
qed simp

section \<open>A chain state that is never released\<close>

definition wedged :: "'s runtime \<Rightarrow> bool" where
  "wedged st \<longleftrightarrow> m_held (rt_chain_state (snd st))"

lemma wedged_calls [preserves_rules]:
  "preserves wedged lock_mempool" "preserves wedged lock_chain_state" "preserves wedged (storage_call f)"
  "preserves wedged (modify (map_prod id (drop_mempool p)))" "preserves wedged (modify (map_prod id (push_mempool tx)))"
  "preserves wedged (produce_tail L T E b)"
  by (auto simp: preserves_def wedged_def runtime_defs push_mempool_def produce_tail_held split: outcome.split)

lemma wedged_scope [preserves_rules]: "preserves wedged m \<Longrightarrow> preserves wedged (scope m)"
  unfolding preserves_def scope_def wedged_def drop_own_def drop_mempool_def Let_def
  by (auto split: prod.split outcome.split) (metis snd_conv)+

lemma wedged_step:
  assumes "node_step L T E C st st'" "wedged st"
  shows "wedged st'"
proof -
  have "preserves wedged (Runtime_submit_transaction L T tx)" for tx
    unfolding Runtime_submit_transaction_def Let_def by (auto intro!: preserves_rules)
  moreover have "preserves wedged (Runtime_produce_block L T E C)"
    unfolding Runtime_produce_block_def by (auto intro!: preserves_rules split: option.split)
  moreover have "preserves wedged (Runtime_get_chain_state :: ('a runtime, chain_state, runtime_error) prog)"
    unfolding Runtime_get_chain_state_def by (auto intro!: preserves_rules)
  ultimately show ?thesis
    using assms unfolding preserves_def by (elim node_stepE) (blast, blast, blast, simp add: wedged_def)
qed

lemma wedged_run: "(node_step L T E C)\<^sup>*\<^sup>* st st' \<Longrightarrow> wedged st \<Longrightarrow> wedged st'"
  by (induction rule: rtranclp_induct) (auto intro: wedged_step)

lemma wedged_hangs:
  assumes "wedged st"
  shows "fst (Runtime_get_chain_state st) = Hang"
    "Transaction_verify_signature L tx = Ok True \<Longrightarrow> fst (Runtime_submit_transaction L T tx st) = Hang"
proof -
  have "lock_chain_state st = (Hang, st)"
    using assms by (cases st) (simp add: wedged_def lock_chain_state_def mutex_lock_def)
  then show "fst (Runtime_get_chain_state st) = Hang"
    "Transaction_verify_signature L tx = Ok True \<Longrightarrow> fst (Runtime_submit_transaction L T tx st) = Hang"
    by (simp_all add: Runtime_get_chain_state_def Runtime_submit_transaction_def scope_def then_do_def lift_def)
qed

section \<open>Runs in which every call returns\<close>

inductive live_step ::
    "lib \<Rightarrow> 's storage \<Rightarrow> 's contract_engine \<Rightarrow> consensus_engine \<Rightarrow> 's runtime \<Rightarrow> 's runtime \<Rightarrow> bool"
  for L T E C where
  submitted: "Runtime_submit_transaction L T tx st = (r, st') \<Longrightarrow> returns r \<Longrightarrow> live_step L T E C st st'"
| produced: "Runtime_produce_block L T E C st = (r, st') \<Longrightarrow> returns r \<Longrightarrow> live_step L T E C st st'"
| asked: "Runtime_get_chain_state st = (r, st') \<Longrightarrow> returns r \<Longrightarrow> live_step L T E C st st'"
| stored: "live_step L T E C (s, c) (s', c)"

text \<open>What such a run never changes: no guard is left behind, the chain stays where it is.\<close>

definition resting_at :: "chain_state \<Rightarrow> block list \<Rightarrow> 's runtime \<Rightarrow> bool" where
  "resting_at cs spawned st \<longleftrightarrow> at_rest st \<and> the_chain_state st = cs \<and> rt_spawned (snd st) = spawned"

lemma submit_resting:
  assumes "resting_at cs spawned st" "Runtime_submit_transaction L T tx st = (r, st')" "returns r"
  shows "resting_at cs spawned st'"
proof -
  have "at_rest st"
    using assms(1) by (simp add: resting_at_def)
  then show ?thesis
  proof (cases rule: rest_cases)
    case (1 s txs cs' running spawned')
    show ?thesis
      using assms
      by (cases "Transaction_verify_signature L tx"; cases "get_account T (t_sender tx) s")
        (auto simp: 1 Runtime_submit_transaction_def runtime_defs Let_def push_mempool_def resting_at_def at_rest_def
          unlocked_def the_chain_state_def returns_def split: if_splits)
  qed
qed

lemma produce_resting:
  assumes "resting_at cs spawned st" "Runtime_produce_block L T E C st = (r, st')" "returns r"
  shows "resting_at cs spawned st'"
  using assms produce_block_at_rest [of st L T E C] by (auto simp: resting_at_def the_chain_state_def)

lemma get_chain_state_resting:
  assumes "resting_at cs spawned st" "Runtime_get_chain_state st = (r, st')"
  shows "resting_at cs spawned st'"
proof -
  have "at_rest st"
    using assms(1) by (simp add: resting_at_def)
  then show ?thesis
    by (cases rule: rest_cases)
      (use assms in \<open>auto simp: Runtime_get_chain_state_def runtime_defs resting_at_def at_rest_def unlocked_def
        the_chain_state_def\<close>)
qed

lemma live_step_resting:
  assumes "live_step L T E C st st'" "resting_at cs spawned st"
  shows "resting_at cs spawned st'"
  using assms
proof (cases rule: live_step.cases)
  case (stored s c s')
  with assms(2) show ?thesis
    by (simp add: resting_at_def at_rest_def the_chain_state_def)
qed (blast intro: submit_resting produce_resting get_chain_state_resting)+

section \<open>Properties\<close>

context sled_node
begin

lemma get_account_returns: "returns (SledStorage_get_account L S std_handles a s)"
proof -
  have de: "returns (bincode_deserialize L h bs)" for h bs
  proof -
    have "case wire_de h bs of Some (v, _) \<Rightarrow> bincode_deserialize L h bs = Ok v
        | None \<Rightarrow> \<exists>e. bincode_deserialize L h bs = Err e"
      using bincode unfolding bincode_documented_def by blast
    then show ?thesis
      by (auto simp: returns_def split: option.splits prod.splits)
  qed
  have "returns (decode L shape_Account de_Account bs)" for bs
    using de [of shape_Account bs]
    by (auto simp: decode_def bincode_read_def returns_def bind_o_def map_err_o_def
        split: outcome.split option.split)
  then show ?thesis
    by (auto simp: SledStorage_get_account_def tree_get_ok decode_opt_def returns_def bind_o_def
        split: option.split outcome.split)
qed

end

definition cells_with :: "transaction list \<Rightarrow> chain_state \<Rightarrow> runtime_cells" where
  "cells_with txs cs = \<lparr>rt_mempool = Mutex_new txs, rt_chain_state = Mutex_new cs,
     rt_is_running = Mutex_new False, rt_spawned = []\<rparr>"

lemma cells_with_simps [simp]:
  "at_rest (s, cells_with txs cs)" "mempool (s, cells_with txs cs) = txs"
  "the_chain_state (s, cells_with txs cs) = cs" "push_mempool tx (cells_with txs cs) = cells_with (txs @ [tx]) cs"
  "rt_spawned (cells_with txs cs) = []"
  by (simp_all add: cells_with_def at_rest_def unlocked_def Mutex_new_def mempool_def the_chain_state_def push_mempool_def)

lemma signed_tx_admissible:
  "admissible ref_lib (SledStorage ref_lib mem_sled std_handles) (mem_with [] bs) signed_tx"
  by (simp add: admissible_def) (simp add: signed_tx_def Transaction_sign_def then_do_def prog_simps
    Transaction_calculate_hash_def hash_metadata_def sample_tx_def)

text \<open>
  C12: on a node at rest \<^verbatim>\<open>submit_transaction\<close> accepts exactly the transactions that verify and whose nonce is greater
  than their sender's stored one (0 for a sender without an account). An accepted one is appended
  to the mempool and nothing else changes; a refused one changes nothing. What the mempool holds
  already plays no part: a transaction that is in it is appended again.
\<close>

theorem submit_transaction_gatekeeps:
  assumes "sled_node S view L" "at_rest st"
  shows "if admissible L (SledStorage L S std_handles) (fst st) tx
    then Runtime_submit_transaction L (SledStorage L S std_handles) tx st = (Ok (), map_prod id (push_mempool tx) st)
    else snd (Runtime_submit_transaction L (SledStorage L S std_handles) tx st) = st \<and>
      fst (Runtime_submit_transaction L (SledStorage L S std_handles) tx st) \<noteq> Ok ()"
  using assms(2) sled_node.get_account_returns [OF assms(1)] by (intro submit_at_rest) simp_all

theorem submit_transaction_gatekeeps_witness:
  "Runtime_submit_transaction ref_lib (SledStorage ref_lib mem_sled std_handles) signed_tx
      (mem_with [] [], cells_with [signed_tx] (state_at 1)) =
    (Ok (), (mem_with [] [], cells_with [signed_tx, signed_tx] (state_at 1)))"
  using submit_transaction_gatekeeps [OF mem_node.sled_node_axioms,
      of "(mem_with [] [], cells_with [signed_tx] (state_at 1))" signed_tx]
  by (simp add: signed_tx_admissible)

text \<open>
  The mempool holds verified transactions only, and loses none. Over any run of submissions, block
  productions, queries and storage writes, in any order and whatever the locks, the mempool is
  extended at its end by transactions that verify; no block production ever clears it.
\<close>

theorem mempool_only_grows_verified:
  assumes "(node_step L T E C)\<^sup>*\<^sup>* st st'" "\<forall>tx \<in> set (mempool st). Transaction_verify_signature L tx = Ok True"
  shows "prefix (mempool st) (mempool st') \<and> (\<forall>tx \<in> set (mempool st'). Transaction_verify_signature L tx = Ok True)"
  using run_mempool [OF assms(1)] assms(2) by auto

theorem mempool_only_grows_verified_witness:
  "prefix [signed_tx] (mempool (snd (Runtime_submit_transaction ref_lib (SledStorage ref_lib mem_sled std_handles) signed_tx
      (mem_with [] [], cells_with [signed_tx] (state_at 1)))))"
proof -
  let ?st = "(mem_with [] [], cells_with [signed_tx] (state_at 1))" and ?T = "SledStorage ref_lib mem_sled std_handles"
  let ?step = "node_step ref_lib ?T (BaaLSContractEngine ref_lib) (PoAConsensus ref_lib (PoAConsensus_new (PublicKey 7) 1))"
  have "?step ?st (snd (Runtime_submit_transaction ref_lib ?T signed_tx ?st))"
    by (rule node_step.submit)
  then have "?step\<^sup>*\<^sup>* ?st (snd (Runtime_submit_transaction ref_lib ?T signed_tx ?st))"
    by (rule r_into_rtranclp)
  from mempool_only_grows_verified [OF this] show ?thesis
    by simp
qed

text \<open>
  A node that stays alive never moves. Over any run in which every call returns - submissions,
  productions, queries and storage writes in any order - no lock is left held or poisoned, the
  chain state is what it was at the start, and no block is handed to a broadcast: every block
  production returns an error.
\<close>

theorem live_node_never_advances:
  assumes "(live_step L T E C)\<^sup>*\<^sup>* st st'" "at_rest st"
  shows "at_rest st' \<and> the_chain_state st' = the_chain_state st \<and> rt_spawned (snd st') = rt_spawned (snd st) \<and>
    (\<forall>b. fst (Runtime_produce_block L T E C st') \<noteq> Ok b)"
proof -
  have "resting_at (the_chain_state st) (rt_spawned (snd st)) st'"
    using assms by (induction rule: rtranclp_induct) (simp_all add: resting_at_def live_step_resting [unfolded resting_at_def])
  then have "at_rest st'" "the_chain_state st' = the_chain_state st" "rt_spawned (snd st') = rt_spawned (snd st)"
    by (simp_all add: resting_at_def)
  with produce_block_at_rest [of st' L T E C] show ?thesis
    by auto
qed

theorem live_node_never_advances_witness:
  "the_chain_state (snd (Runtime_submit_transaction ref_lib (SledStorage ref_lib mem_sled std_handles) signed_tx
      (mem_with [] [block_at 1], cells_with [] (state_at 1)))) = state_at 1"
proof -
  let ?T = "SledStorage ref_lib mem_sled std_handles" and ?st = "(mem_with [] [block_at 1], cells_with [] (state_at 1))"
  have ok: "Runtime_submit_transaction ref_lib ?T signed_tx ?st = (Ok (), (mem_with [] [block_at 1], cells_with [signed_tx] (state_at 1)))"
    using submit_at_rest [of ?st ?T signed_tx ref_lib]
    by (simp add: signed_tx_admissible returns_def)
  then have "live_step ref_lib ?T (BaaLSContractEngine ref_lib) (PoAConsensus ref_lib (PoAConsensus_new (PublicKey 7) 1))
      ?st (snd (Runtime_submit_transaction ref_lib ?T signed_tx ?st))"
    by (intro live_step.submitted) (auto simp: returns_def)
  from live_node_never_advances [OF r_into_rtranclp [of "live_step ref_lib ?T (BaaLSContractEngine ref_lib)
        (PoAConsensus ref_lib (PoAConsensus_new (PublicKey 7) 1))", OF this]] show ?thesis
    by simp
qed

text \<open>
  C13: with everything in place for a block - a pending transaction, the latest block stored, a block
  generated - \<^verbatim>\<open>produce_block\<close> does not return, because it locks the chain state while it holds it;
  and from then on, whatever else is called, \<^verbatim>\<open>get_chain_state\<close> and every submission of a verified
  transaction never return either.
\<close>

theorem produce_block_wedges_node:
  assumes "at_rest st" "mempool st \<noteq> []"
    and "get_block T (latest_block_hash (the_chain_state st)) (fst st) = Ok (Some prev)"
    and "generate_block C (mempool st) prev (the_chain_state st) = Ok b"
    and "Runtime_produce_block L T E C st = (r, st')" "(node_step L T E C)\<^sup>*\<^sup>* st' st''"
  shows "r = Hang \<and> fst (Runtime_get_chain_state st'') = Hang \<and>
    (\<forall>tx. Transaction_verify_signature L tx = Ok True \<longrightarrow> fst (Runtime_submit_transaction L T tx st'') = Hang)"
proof -
  obtain c where c: "r = Hang" "st' = (fst st, c)" "m_held (rt_chain_state c)"
    using produce_block_hangs [OF assms(1-4), of L E] assms(5) by auto
  then have "wedged st''"
    using wedged_run [OF assms(6)] by (simp add: wedged_def)
  with c(1) wedged_hangs show ?thesis
    by blast
qed

theorem produce_block_wedges_node_witness:
  "\<exists>st'. Runtime_produce_block ref_lib (SledStorage ref_lib mem_sled std_handles) (BaaLSContractEngine ref_lib)
      (PoAConsensus ref_lib (PoAConsensus_new (PublicKey 7) 1000))
      (mem_with [] [block_at 1], cells_with [signed_tx] (state_at 1)) = (Hang, st') \<and>
    fst (Runtime_get_chain_state st') = Hang"
proof -
  let ?st = "(mem_with [] [block_at 1], cells_with [signed_tx] (state_at 1))"
  let ?C = "PoAConsensus ref_lib (PoAConsensus_new (PublicKey 7) 1000)"
  let ?T = "SledStorage ref_lib mem_sled std_handles"
  obtain r st' where run: "Runtime_produce_block ref_lib ?T (BaaLSContractEngine ref_lib) ?C ?st = (r, st')"
    by (rule prod.exhaust)
  have prev: "get_block ?T (latest_block_hash (the_chain_state ?st)) (fst ?st) = Ok (Some (block_at 1))"
    by (simp add: state_at_def)
  have gen: "generate_block ?C (mempool ?st) (block_at 1) (the_chain_state ?st) = Ok sealed_child"
    by (simp add: sealed_child_generated)
  from produce_block_wedges_node [OF _ _ prev gen run rtranclp.rtrancl_refl] run show ?thesis
    by simp
qed

text \<open>
  A runtime never starts on a new database: \<^verbatim>\<open>Runtime::new\<close> initialises the chain and then fails
  with \<^verbatim>\<open>ChainInitializationError\<close>, because what it wrote is not where it reads.
\<close>

theorem runtime_never_starts_fresh:
  assumes "sled_node S view L" "get_chain_state (SledStorage L S std_handles) s = Ok None"
  shows "fst (Runtime_new L (SledStorage L S std_handles) s) = Err RE_ChainInitializationError"
proof -
  obtain s' where "Ledger_initialize_chain L (SledStorage L S std_handles) s = (Ok (), s')"
    "get_chain_state (SledStorage L S std_handles) s' = Ok None"
    using sled_node.initialize_chain_fresh [OF assms] by blast
  then show ?thesis
    by (simp add: Runtime_new_def then_do_def map_err_def prog_simps)
qed

theorem runtime_never_starts_fresh_witness:
  "fst (Runtime_new ref_lib (SledStorage ref_lib mem_sled std_handles) empty_mem) = Err RE_ChainInitializationError"
proof -
  have "get_chain_state (SledStorage ref_lib mem_sled std_handles) empty_mem = Ok None"
    by (simp add: SledStorage_get_chain_state_def mem.tree_get_ok decode_opt_def mem_view_def empty_mem_def)
  then show ?thesis
    by (rule runtime_never_starts_fresh [OF mem_node.sled_node_axioms])
qed

end
