(* ===== verification/Baals_Cli.thy ===== *)
theory Baals_Cli
  imports Baals_Runtime
begin

text \<open>
  \<^verbatim>\<open>src/main.rs\<close>: the commands of the \<^verbatim>\<open>baals\<close> binary over the database in its data directory and the
  lines it prints. Files, clock, randomness, \<^verbatim>\<open>hex::decode\<close> and the \<^verbatim>\<open>Debug\<close> of a path are the
  environment (the record \<open>cli_env\<close>); parsing the command line is clap's.
\<close>

section \<open>Commands\<close>

datatype wallet_commands = Wallet_Generate | Wallet_Info string

datatype transaction_commands =
    Tx_Transfer string string u64
  | Tx_Deploy string string
  | Tx_Call string string string string
  | Tx_Data string string

datatype query_commands =
    Query_Block u64
  | Query_Account string
  | Query_Storage string string
  | Query_Contract string string

datatype dev_commands = Dev_Start string | Dev_GenerateBlock | Dev_ChainState

datatype commands =
    Cmd_Wallet wallet_commands
  | Cmd_Transaction transaction_commands
  | Cmd_Query query_commands
  | Cmd_Dev dev_commands

section \<open>Environment and errors\<close>

text \<open>\<^verbatim>\<open>Box<dyn Error>\<close> holds one of the errors the \<^verbatim>\<open>?\<close>s convert.\<close>

datatype cli_error =
    Cli_io string
  | Cli_message string
  | Cli_hex string
  | Cli_crypto crypto_error
  | Cli_storage storage_error
  | Cli_runtime runtime_error

record cli_env =
  env_read :: "string \<Rightarrow> (bytes, string) outcome"
  env_now :: int
  env_random :: "arr32 option"
  env_hex_decode :: "string \<Rightarrow> (bytes, string) outcome"
  env_debug_path :: "string \<Rightarrow> string"

type_synonym 'db cli = "'db \<times> string list"

definition println :: "string \<Rightarrow> ('db cli, unit, cli_error) prog" where
  "println line = modify (map_prod id (\<lambda>out. out @ [line]))"

text \<open>\<^verbatim>\<open>slice.try_into().map_err(|_| msg)?\<close> to \<^verbatim>\<open>[u8; 32]\<close>.\<close>

definition to_array :: "string \<Rightarrow> bytes \<Rightarrow> (arr32, cli_error) outcome" where
  "to_array msg bs = (case arr32_of_bytes bs of Some a \<Rightarrow> Ok a | None \<Rightarrow> Err (Cli_message msg))"

definition read_file :: "cli_env \<Rightarrow> string \<Rightarrow> (bytes, cli_error) outcome" where
  "read_file env path = map_err_o Cli_io (env_read env path)"

definition unhex :: "cli_env \<Rightarrow> string \<Rightarrow> (bytes, cli_error) outcome" where
  "unhex env text = map_err_o Cli_hex (env_hex_decode env text)"

text \<open>The key file: the 32 bytes of an Ed25519 signing key.\<close>

definition load_key :: "lib \<Rightarrow> cli_env \<Rightarrow> string \<Rightarrow> (public_key, cli_error) outcome" where
  "load_key L env key_file =
     bind_o (read_file env key_file) (\<lambda>key_bytes.
     bind_o (to_array ''Invalid key length'' key_bytes) (\<lambda>key_array.
     Ok (PublicKey_of_VerifyingKey (ed_verifying_key L key_array))))"

section \<open>Wallets\<close>

definition cli_wallet :: "lib \<Rightarrow> cli_env \<Rightarrow> wallet_commands \<Rightarrow> ('db cli, unit, cli_error) prog" where
  "cli_wallet L env action = (case action of
       Wallet_Generate \<Rightarrow>
         then_do (lift (map_err_o Cli_runtime (Runtime_generate_signing_key (env_random env)))) (\<lambda>signing_key.
         let public_key = PublicKey_of_VerifyingKey (ed_verifying_key L signing_key) in
         then_do (println ''Generated new wallet:'') (\<lambda>_.
         then_do (println (''Public Key: '' @ format_hex L (PublicKey_to_bytes public_key))) (\<lambda>_.
         println (''Private Key: '' @ format_hex L signing_key))))
     | Wallet_Info key_file \<Rightarrow>
         then_do (lift (load_key L env key_file)) (\<lambda>public_key.
         then_do (println ''Wallet Info:'') (\<lambda>_.
         println (''Public Key: '' @ format_hex L (PublicKey_to_bytes public_key)))))"

section \<open>Transactions\<close>

text \<open>The transaction every command builds: zero hash, nonce and signature.\<close>

definition cli_tx :: "public_key \<Rightarrow> address \<Rightarrow> transaction_payload \<Rightarrow> u64 \<Rightarrow> transaction" where
  "cli_tx public_key recipient payload timestamp =
     \<lparr>t_hash = 0, t_sender = public_key, t_nonce = 0, t_timestamp = timestamp, t_recipient = recipient,
      t_payload = payload, t_signature = TransactionSignature 0, t_gas_limit = 0, t_priority = 0,
      t_metadata = None\<rparr>"

definition build_tx :: "lib \<Rightarrow> cli_env \<Rightarrow> transaction_commands \<Rightarrow> (string \<times> transaction, cli_error) outcome" where
  "build_tx L env action = (case action of
       Tx_Transfer key_file to amount \<Rightarrow>
         bind_o (load_key L env key_file) (\<lambda>public_key.
         bind_o (unhex env to) (\<lambda>recipient_bytes.
         bind_o (to_array ''Invalid recipient length'' recipient_bytes) (\<lambda>recipient_array.
         bind_o (map_err_o Cli_crypto (PublicKey_from_bytes L recipient_array)) (\<lambda>recipient_key.
         bind_o (unix_seconds (env_now env)) (\<lambda>timestamp.
         Ok (''Transfer'', cli_tx public_key (Addr_Wallet recipient_key) (Transfer amount) timestamp))))))
     | Tx_Deploy key_file contract \<Rightarrow>
         bind_o (load_key L env key_file) (\<lambda>public_key.
         bind_o (read_file env contract) (\<lambda>wasm_bytes.
         bind_o (unix_seconds (env_now env)) (\<lambda>timestamp.
         Ok (''Deploy'', cli_tx public_key (Addr_Contract (ContractId 0)) (ContractDeploy wasm_bytes) timestamp))))
     | Tx_Call key_file contract_id mname args \<Rightarrow>
         bind_o (load_key L env key_file) (\<lambda>public_key.
         bind_o (unhex env contract_id) (\<lambda>contract_id_bytes.
         bind_o (to_array ''Invalid contract_id length'' contract_id_bytes) (\<lambda>contract_id_array.
         bind_o (unix_seconds (env_now env)) (\<lambda>timestamp.
         Ok (''Call'', cli_tx public_key (Addr_Contract (ContractId contract_id_array))
           (ContractCall mname (utf8 args)) timestamp)))))
     | Tx_Data key_file data \<Rightarrow>
         bind_o (load_key L env key_file) (\<lambda>public_key.
         bind_o (unhex env data) (\<lambda>data_bytes.
         bind_o (unix_seconds (env_now env)) (\<lambda>timestamp.
         Ok (''Data'', cli_tx public_key (Addr_Wallet public_key) (Data data_bytes) timestamp)))))"

text \<open>The transaction is printed, and nothing is done with it.\<close>

definition cli_transaction :: "lib \<Rightarrow> cli_env \<Rightarrow> transaction_commands \<Rightarrow> ('db cli, unit, cli_error) prog" where
  "cli_transaction L env action =
     then_do (lift (build_tx L env action)) (\<lambda>(kind, transaction).
     println (kind @ '' transaction created: '' @ format_hex L (t_hash transaction)))"

section \<open>Queries\<close>

text \<open>\<^verbatim>\<open>[1u8; 32]\<close>, the dummy authority.\<close>

definition test_key_bytes :: arr32 where
  "test_key_bytes = 0x0101010101010101010101010101010101010101010101010101010101010101"

text \<open>
  The common start of the commands that need a node: dummy authority, database, runtime; \<open>act\<close> is
  run on the runtime, with its storage.
\<close>

definition with_runtime ::
    "lib \<Rightarrow> 'db sled \<Rightarrow> string \<Rightarrow> ('db storage \<Rightarrow> runtime_cells \<Rightarrow> ('db cli, unit, cli_error) prog) \<Rightarrow>
     ('db cli, unit, cli_error) prog" where
  "with_runtime L S path act =
     then_do (lift (map_err_o Cli_crypto (PublicKey_from_bytes L test_key_bytes))) (\<lambda>test_key.
     then_do (on_fst (map_err Cli_storage (SledStorage_new S path))) (\<lambda>storage.
     then_do (on_fst (map_err Cli_runtime (Runtime_new L (SledStorage L S storage)))) (\<lambda>cells.
     act (SledStorage L S storage) cells)))"

definition on_runtime :: "runtime_cells \<Rightarrow> ('db runtime, 'a, runtime_error) prog \<Rightarrow> ('db cli, 'a, cli_error) prog" where
  "on_runtime cells m = (\<lambda>(s, out). case m (s, cells) of (r, (s', cells')) \<Rightarrow> (map_err_o Cli_runtime r, (s', out)))"

text \<open>\<^verbatim>\<open>Display\<close> as \<^verbatim>\<open>thiserror\<close> derives it.\<close>

primrec display_crypto_error :: "crypto_error \<Rightarrow> string" where
  "display_crypto_error HashConversionError = ''Hash conversion error''"
| "display_crypto_error SignatureVerificationFailed = ''Signature verification failed''"
| "display_crypto_error InvalidPublicKey = ''Invalid public key''"
| "display_crypto_error InvalidSignature = ''Invalid signature''"

primrec display_storage_error :: "storage_error \<Rightarrow> string" where
  "display_storage_error (SE_DatabaseError e) = ''Database error: '' @ e"
| "display_storage_error SE_NotFound = ''Data not found''"
| "display_storage_error (SE_SerializationError e) = ''Serialization error: '' @ e"
| "display_storage_error (SE_CryptoError e) = ''Crypto error: '' @ display_crypto_error e"

primrec display_contract_error :: "contract_error \<Rightarrow> string" where
  "display_contract_error (CE_StorageError e) = ''Storage error: '' @ display_storage_error e"
| "display_contract_error (CE_ExecutionError e) = ''Execution error: '' @ e"
| "display_contract_error (CE_ContractNotFound e) = ''Contract not found: '' @ e"
| "display_contract_error (CE_InvalidWasm e) = ''Invalid WASM: '' @ e"

primrec print_account :: "lib \<Rightarrow> account \<Rightarrow> ('db cli, unit, cli_error) prog" where
  "print_account L (Wallet balance nonce) =
     then_do (println (''  Balance: '' @ show_dec (unat balance))) (\<lambda>_.
     println (''  Nonce: '' @ show_dec (unat nonce)))"
| "print_account L (Contract code_hash storage_root_hash nonce) =
     then_do (println (''  Contract code hash: '' @ format_hex L code_hash)) (\<lambda>_.
     then_do (println (''  Storage root hash: '' @ format_hex L storage_root_hash)) (\<lambda>_.
     println (''  Nonce: '' @ show_dec (unat nonce))))"

definition query_block ::
    "lib \<Rightarrow> u64 \<Rightarrow> 'db storage \<Rightarrow> runtime_cells \<Rightarrow> ('db cli, unit, cli_error) prog" where
  "query_block L height T cells =
     then_do (on_runtime cells (Runtime_get_block_by_height T height)) (\<lambda>found. case found of
       Some block \<Rightarrow>
         then_do (println (''Block '' @ show_dec (unat height) @ '': '' @ format_hex L (b_hash block))) (\<lambda>_.
         then_do (println (''  Timestamp: '' @ show_dec (unat (b_timestamp block)))) (\<lambda>_.
         println (''  Transactions: '' @ show_dec (length (b_transactions block)))))
     | None \<Rightarrow> println ''Block not found'')"

definition query_account ::
    "lib \<Rightarrow> cli_env \<Rightarrow> string \<Rightarrow> 'db storage \<Rightarrow> runtime_cells \<Rightarrow> ('db cli, unit, cli_error) prog" where
  "query_account L env address T cells =
     then_do (lift (unhex env address)) (\<lambda>address_bytes.
     then_do (lift (to_array ''Invalid address length'' address_bytes)) (\<lambda>address_array.
     then_do (lift (map_err_o Cli_crypto (PublicKey_from_bytes L address_array))) (\<lambda>public_key.
     then_do (on_runtime cells (Runtime_get_account T public_key)) (\<lambda>found. case found of
       Some account \<Rightarrow> then_do (println (''Account: '' @ address)) (\<lambda>_. print_account L account)
     | None \<Rightarrow> println ''Account not found''))))"

definition query_storage ::
    "lib \<Rightarrow> cli_env \<Rightarrow> string \<Rightarrow> string \<Rightarrow> 'db storage \<Rightarrow> runtime_cells \<Rightarrow> ('db cli, unit, cli_error) prog" where
  "query_storage L env contract_id key T cells =
     then_do (lift (unhex env contract_id)) (\<lambda>contract_id_bytes.
     then_do (lift (to_array ''Invalid contract_id length'' contract_id_bytes)) (\<lambda>contract_id_array.
     then_do (lift (unhex env key)) (\<lambda>key_bytes.
     then_do (on_runtime cells (Runtime_contract_storage_read T (ContractId contract_id_array) key_bytes)) (\<lambda>found.
     case found of
       Some value \<Rightarrow> println (''Storage value: '' @ hex_encode L value)
     | None \<Rightarrow> println ''Storage key not found''))))"

definition query_contract_cmd ::
    "lib \<Rightarrow> cli_env \<Rightarrow> string \<Rightarrow> string \<Rightarrow> 'db storage \<Rightarrow> runtime_cells \<Rightarrow> ('db cli, unit, cli_error) prog" where
  "query_contract_cmd L env contract_id payload T cells =
     then_do (lift (unhex env contract_id)) (\<lambda>contract_id_bytes.
     then_do (lift (to_array ''Invalid contract_id length'' contract_id_bytes)) (\<lambda>contract_id_array.
     then_do (lift (unhex env payload)) (\<lambda>payload_bytes.
     (\<lambda>(s, out). case query_contract (Runtime_contract_engine L) (ContractId contract_id_array) payload_bytes T s of
         (Ok result, s') \<Rightarrow> println (''Query result: '' @ hex_encode L result) (s', out)
       | (Err e, s') \<Rightarrow> println (''Query error: '' @ display_contract_error e) (s', out)
       | (Panic, s') \<Rightarrow> (Panic, (s', out))
       | (Hang, s') \<Rightarrow> (Hang, (s', out))))))"

definition cli_query :: "lib \<Rightarrow> cli_env \<Rightarrow> 'db sled \<Rightarrow> query_commands \<Rightarrow> ('db cli, unit, cli_error) prog" where
  "cli_query L env S action = with_runtime L S ''./data'' (case action of
       Query_Block height \<Rightarrow> query_block L height
     | Query_Account address \<Rightarrow> query_account L env address
     | Query_Storage contract_id key \<Rightarrow> query_storage L env contract_id key
     | Query_Contract contract_id payload \<Rightarrow> query_contract_cmd L env contract_id payload)"

section \<open>Development commands\<close>

definition print_chain_state :: "lib \<Rightarrow> 'db storage \<Rightarrow> runtime_cells \<Rightarrow> ('db cli, unit, cli_error) prog" where
  "print_chain_state L T cells =
     then_do (on_runtime cells Runtime_get_chain_state) (\<lambda>chain_state.
     then_do (println ''Chain State:'') (\<lambda>_.
     then_do (println (''  Height: '' @ show_dec (unat (latest_block_index chain_state)))) (\<lambda>_.
     then_do (println (''  Latest Block: '' @ format_hex L (latest_block_hash chain_state))) (\<lambda>_.
     println (''  Total Supply: '' @ show_dec (unat (total_supply chain_state)))))))"

definition cli_dev :: "lib \<Rightarrow> cli_env \<Rightarrow> 'db sled \<Rightarrow> dev_commands \<Rightarrow> ('db cli, unit, cli_error) prog" where
  "cli_dev L env S action = (case action of
       Dev_Start data_dir \<Rightarrow>
         then_do (println (''Starting BaaLS node with data directory: '' @ env_debug_path env data_dir)) (\<lambda>_.
         with_runtime L S data_dir (\<lambda>T cells.
           then_do (on_runtime cells Runtime_start) (\<lambda>_. println ''Node started successfully'')))
     | Dev_GenerateBlock \<Rightarrow>
         then_do (println ''Generating test block...'') (\<lambda>_. println ''Block generation not yet implemented'')
     | Dev_ChainState \<Rightarrow> with_runtime L S ''./data'' (print_chain_state L))"

definition cli_main :: "lib \<Rightarrow> cli_env \<Rightarrow> 'db sled \<Rightarrow> commands \<Rightarrow> ('db cli, unit, cli_error) prog" where
  "cli_main L env S cmd = (case cmd of
       Cmd_Wallet action \<Rightarrow> cli_wallet L env action
     | Cmd_Transaction action \<Rightarrow> cli_transaction L env action
     | Cmd_Query action \<Rightarrow> cli_query L env S action
     | Cmd_Dev action \<Rightarrow> cli_dev L env S action)"

section \<open>Facts\<close>

lemma keeps_println [keeps_rules]: "keeps fst (println line)"
  by (simp add: keeps_def println_def modify_def)

lemma wallet_keeps: "keeps fst (cli_wallet L env action)"
  by (auto simp: cli_wallet_def Let_def intro!: keeps_rules split: wallet_commands.split)

lemma transaction_keeps: "keeps fst (cli_transaction L env action)"
  by (auto simp: cli_transaction_def case_prod_unfold intro!: keeps_rules)

lemma build_tx_unsigned:
  "build_tx L env action = Ok (kind, tx) \<Longrightarrow>
   t_hash tx = 0 \<and> t_nonce tx = 0 \<and> t_signature tx = TransactionSignature 0"
  by (auto simp: build_tx_def cli_tx_def bind_o_Ok_iff split: transaction_commands.splits)

context sled_node
begin

lemma new_total: "\<exists>s'. SledStorage_new S path s = (Ok std_handles, s') \<and> view s' = view s"
proof -
  have open_total: "\<exists>s'. open_tree S name s = (Ok (Named_tree name), s')" for name s
    using open_tree_ok [of name s] by (auto simp: open_tree_def map_err_def)
  have step: "\<exists>b s'. then_do (open_tree S name) f s = (Ok b, s')"
    if "\<And>t s'. \<exists>b s''. f t s' = (Ok b, s'')" for f :: "tree \<Rightarrow> ('db, 'b, storage_error) prog" and name s
    using open_total [of name s] that by (auto simp: then_do_def)
  obtain s1 where "sled_open S path s = (Ok (), s1)"
    using open_ok by blast
  then have "map_err SE_DatabaseError (sled_open S path) s = (Ok (), s1)"
    by (simp add: map_err_def)
  then have "\<exists>self s'. SledStorage_new S path s = (Ok self, s')"
    unfolding SledStorage_new_def by (simp only: then_do_Ok) (intro step, simp add: ret_def)
  then show ?thesis
    using new_Ok by blast
qed

lemma chain_state_cong: "view s' = view s \<Longrightarrow> get_chain_state node s' = get_chain_state node s"
  by (simp add: SledStorage_get_chain_state_def tree_get_ok)

lemma with_runtime_fresh:
  assumes "vk_decodes L test_key_bytes" "get_chain_state node s = Ok None"
  shows "\<exists>s'. with_runtime L S path act (s, out) = (Err (Cli_runtime RE_ChainInitializationError), (s', out)) \<and>
    get_chain_state node s' = Ok None"
proof -
  obtain s1 where s1: "SledStorage_new S path s = (Ok std_handles, s1)" "view s1 = view s"
    using new_total by blast
  from chain_state_cong [OF s1(2)] assms(2) have "get_chain_state node s1 = Ok None"
    by simp
  from initialize_chain_fresh [OF this] obtain s2 where
    s2: "Ledger_initialize_chain L node s1 = (Ok (), s2)" "get_chain_state node s2 = Ok None"
    by blast
  then have "Runtime_new L node s1 = (Err RE_ChainInitializationError, s2)"
    by (simp add: Runtime_new_def then_do_def map_err_def prog_simps)
  with s1(1) s2(2) assms(1) show ?thesis
    by (simp add: with_runtime_def then_do_def on_fst_def map_err_def lift_def PublicKey_from_bytes_def)
qed

lemma cli_main_fresh:
  assumes "vk_decodes L test_key_bytes" "get_chain_state node (fst st) = Ok None"
  shows "get_chain_state node (fst (snd (cli_main L env S cmd st))) = Ok None"
proof -
  have same: "get_chain_state node (fst (snd (m st))) = Ok None"
    if "keeps fst m" for m :: "('db cli, unit, cli_error) prog"
    using that assms(2) unfolding keeps_def by metis
  have run: "get_chain_state node (fst (snd (with_runtime L S path act st))) = Ok None" for path act
    using with_runtime_fresh [OF assms, of path act "snd st"] by auto
  have start: "get_chain_state node (fst (snd (then_do (println line) (\<lambda>_. with_runtime L S path act) st))) = Ok None"
    for line path act
    using with_runtime_fresh [OF assms, of path act "snd st @ [line]"]
    by (cases st) (auto simp: then_do_def println_def modify_def)
  show ?thesis
  proof (cases cmd)
    case (Cmd_Dev action)
    have "keeps fst (then_do (println a) (\<lambda>_. println b))" for a b
      by (intro keeps_rules)
    from same [OF this] show ?thesis
      by (cases action) (simp_all only: Cmd_Dev cli_main_def cli_dev_def commands.case dev_commands.case run start)
  qed (simp_all add: cli_main_def cli_query_def run same wallet_keeps transaction_keeps del: SledStorage_sel)
qed

end

section \<open>Properties\<close>

text \<open>
  C40: no transaction command produces a transaction the node accepts. Whatever it builds carries nonce
  0 and no signature, \<^verbatim>\<open>submit_transaction\<close> refuses it on any storage, and the command only prints
  the zero hash: the database is untouched.
\<close>

theorem cli_transactions_never_admissible:
  assumes "build_tx L env action = Ok (kind, tx)"
  shows "\<not> admissible L T s tx \<and>
    cli_main L env S (Cmd_Transaction action) (d, out) =
      (Ok (), (d, out @ [kind @ '' transaction created: '' @ format_hex L 0]))"
  using build_tx_unsigned [OF assms] assms
  by (simp add: admissible_def cli_main_def cli_transaction_def println_def then_do_def lift_def modify_def)

definition sample_env :: cli_env where
  "sample_env = \<lparr>env_read = (\<lambda>_. Ok (replicate 32 7)), env_now = 5 * 10 ^ 9, env_random = Some 3,
     env_hex_decode = (\<lambda>_. Ok (replicate 32 1)), env_debug_path = (\<lambda>p. p)\<rparr>"

theorem cli_transactions_never_admissible_witness:
  "\<exists>tx. build_tx ref_lib sample_env (Tx_Transfer ''key'' ''0101'' 5) = Ok (''Transfer'', tx) \<and>
    cli_main ref_lib sample_env mem_sled (Cmd_Transaction (Tx_Transfer ''key'' ''0101'' 5)) (empty_mem, []) =
      (Ok (), (empty_mem, [''Transfer transaction created: '' @ format_hex ref_lib 0]))"
proof -
  have "\<exists>tx. build_tx ref_lib sample_env (Tx_Transfer ''key'' ''0101'' 5) = Ok (''Transfer'', tx)"
    by (simp add: build_tx_def sample_env_def load_key_def read_file_def unhex_def to_array_def
        PublicKey_from_bytes_def arr32_of_bytes_def unix_seconds_def)
  then obtain tx where tx: "build_tx ref_lib sample_env (Tx_Transfer ''key'' ''0101'' 5) = Ok (''Transfer'', tx)"
    by blast
  show ?thesis
    using cli_transactions_never_admissible [OF tx, of "SledStorage ref_lib mem_sled std_handles" empty_mem
        mem_sled empty_mem "[]"] tx by simp
qed

definition needs_node :: "commands \<Rightarrow> bool" where
  "needs_node cmd = (case cmd of
       Cmd_Query action \<Rightarrow> True
     | Cmd_Dev action \<Rightarrow> (case action of Dev_GenerateBlock \<Rightarrow> False | _ \<Rightarrow> True)
     | _ \<Rightarrow> False)"

text \<open>One process after another on the same database.\<close>

definition cli_session :: "lib \<Rightarrow> cli_env \<Rightarrow> 'db sled \<Rightarrow> commands list \<Rightarrow> 'db cli \<Rightarrow> 'db cli" where
  "cli_session L env S cmds st = fold (\<lambda>cmd st. snd (cli_main L env S cmd st)) cmds st"

text \<open>
  C39: the binary never gets a node running. From a database without a chain state, after any commands
  in any order, every query, \<^verbatim>\<open>dev start\<close> and \<^verbatim>\<open>dev chain-state\<close> fail with
  \<^verbatim>\<open>ChainInitializationError\<close>.
\<close>

theorem cli_never_gets_a_node:
  assumes "sled_node S view L" "vk_decodes L test_key_bytes"
    and "get_chain_state (SledStorage L S std_handles) (fst st) = Ok None" "needs_node cmd"
  shows "fst (cli_main L env S cmd (cli_session L env S cmds st)) = Err (Cli_runtime RE_ChainInitializationError)"
proof -
  let ?st = "cli_session L env S cmds st"
  have "get_chain_state (SledStorage L S std_handles) (fst ?st) = Ok None"
    unfolding cli_session_def using assms(3)
    by (induction cmds arbitrary: st) (simp_all add: sled_node.cli_main_fresh [OF assms(1,2)] del: SledStorage_sel)
  then have run: "fst (with_runtime L S path act (fst ?st, out)) = Err (Cli_runtime RE_ChainInitializationError)"
    for path act out
    using sled_node.with_runtime_fresh [OF assms(1,2), of "fst ?st" path act out] by auto
  have start: "fst (then_do (println line) (\<lambda>_. with_runtime L S path act) ?st) =
      Err (Cli_runtime RE_ChainInitializationError)" for line path act
    using run [of path act "snd ?st @ [line]"]
    by (cases ?st) (simp add: then_do_def println_def modify_def)
  show ?thesis
    using assms(4) run [of _ _ "snd ?st"] start
    by (auto simp: cli_main_def cli_query_def cli_dev_def needs_node_def split: commands.splits dev_commands.splits)
qed

theorem cli_never_gets_a_node_witness:
  "fst (cli_main ref_lib sample_env mem_sled (Cmd_Query (Query_Block 0))
      (cli_session ref_lib sample_env mem_sled [Cmd_Dev (Dev_Start ''x''), Cmd_Dev Dev_ChainState] (empty_mem, []))) =
    Err (Cli_runtime RE_ChainInitializationError)"
proof -
  have "get_chain_state (SledStorage ref_lib mem_sled std_handles) (fst (empty_mem, [] :: string list)) = Ok None"
    by (simp add: SledStorage_get_chain_state_def mem.tree_get_ok decode_opt_def mem_view_def empty_mem_def)
  then show ?thesis
    by (intro cli_never_gets_a_node [OF mem_node.sled_node_axioms]) (simp_all add: needs_node_def)
qed

end
