(* ===== verification/Baals_Faults.thy ===== *)
theory Baals_Faults
  imports Baals_Ledger_Claims
begin

text \<open>
  What holds when the database fails: \<^verbatim>\<open>SledStorage\<close> and \<^verbatim>\<open>Ledger\<close> over any \<open>sled_store\<close>, where every
  call may return an error, and a call that does may still have had its effect. A block is
  written as a whole or not at all; \<^verbatim>\<open>put_block\<close> is not.
\<close>

section \<open>A block on a database that fails\<close>

context kept_engine
begin

lemma apply_block_cases:
  assumes bincode: "bincode_documented L"
    and index: "\<And>h c i. keeps obs (index_transaction T h c i)"
    and run: "Ledger_apply_block L T E b (s, cs) = (r, (s', cs'))"
  shows "obs s' = obs s \<and> r \<noteq> Ok () \<or>
    (\<exists>m batch s1 s2. apply_txs L T E (b_transactions b) ([], []) s = (Ok (m, batch), s1) \<and> bt_sorted m \<and>
      obs s2 = obs s \<and> cs' = advance b cs \<and>
      storage_err (apply_batch T (block_batch (b_transactions b) m (advance b cs))) s2 = (r, s'))"
proof -
  obtain q s1 where txs: "apply_txs L T E (b_transactions b) ([], []) s = (q, s1)"
    by (rule prod.exhaust)
  have s1: "obs s1 = obs s"
    using keeps_apply_txs txs by (rule keepsD)
  show ?thesis
  proof (cases q)
    case (Ok acc)
    obtain m batch where acc: "acc = (m, batch)"
      by (rule prod.exhaust)
    note shape = apply_txs_shape [OF bincode txs [unfolded Ok acc]]
    obtain q2 s2 where idx: "index_transactions T b s1 = (q2, s2)"
      by (rule prod.exhaust)
    have "keeps obs (index_transactions T b)"
      unfolding index_transactions_def storage_err_def case_prod_unfold by (intro keeps_rules index)
    from keepsD [OF this idx] s1 have s2: "obs s2 = obs s"
      by simp
    from run txs idx s2 shape Ok acc show ?thesis
      by (cases q2)
        (auto simp: Ledger_apply_block_def then_do_def on_fst_def prog_simps account_puts [OF bincode]
          bincode_serialize_Ok [OF bincode] block_batch_def split: prod.splits)
  qed (use run txs s1 in \<open>auto simp: Ledger_apply_block_def then_do_def on_fst_def\<close>)
qed

end

context sled_store
begin

lemma keeps_index_default:
  "keeps (\<lambda>s. view s Default_tree) (index_transaction (SledStorage L S std_handles) h b i)"
  by (auto simp: SledStorage_index_transaction_def intro!: keeps_rules)

lemma apply_batch_any:
  assumes "SledStorage_apply_batch S std_handles ops s = (r, s')"
  shows "view s' Default_tree = view s Default_tree \<and> r \<noteq> Ok () \<or>
    view s' Default_tree = fold batch_step (map batch_of ops) (view s Default_tree)"
proof -
  obtain q t where q: "sled_apply_batch S Default_tree (map batch_of ops) s = (q, t)"
    by (rule prod.exhaust)
  with assms have "t = s'" "r = map_err_o SE_DatabaseError q"
    by (simp_all add: SledStorage_apply_batch_def map_err_def)
  with q batch_any [OF q] batch_view [of Default_tree "map batch_of ops" s "()" s'] show ?thesis
    by (auto simp: fun_eq_iff)
qed

lemma apply_block_any:
  assumes "bincode_documented L" "apply_block_on L S b (s, cs) = (r, (s', cs'))"
  shows "view s' Default_tree = view s Default_tree \<and> r \<noteq> Ok () \<or>
    (\<exists>m batch s1. apply_txs L (SledStorage L S std_handles) (BaaLSContractEngine L) (b_transactions b) ([], []) s =
        (Ok (m, batch), s1) \<and> bt_sorted m \<and> cs' = advance b cs \<and>
      view s' Default_tree =
        fold batch_step (map batch_of (block_batch (b_transactions b) m (advance b cs))) (view s Default_tree))"
proof -
  from default_tree.apply_block_cases [OF assms(1) keeps_index_default assms(2)] show ?thesis
  proof (elim disjE exE conjE)
    fix m batch s1 s2
    assume *: "apply_txs L (SledStorage L S std_handles) (BaaLSContractEngine L) (b_transactions b) ([], []) s =
        (Ok (m, batch), s1)" "bt_sorted m" "view s2 Default_tree = view s Default_tree" "cs' = advance b cs"
      and batch: "storage_err (apply_batch (SledStorage L S std_handles)
        (block_batch (b_transactions b) m (advance b cs))) s2 = (r, s')"
    obtain q where "SledStorage_apply_batch S std_handles (block_batch (b_transactions b) m (advance b cs)) s2 = (q, s')"
        "r = map_err_o LE_StorageError q"
      using batch by (auto simp: storage_err_def map_err_def split: prod.splits)
    from apply_batch_any [OF this(1)] this(2) * show ?thesis
      by auto
  qed blast
qed

end

section \<open>A block stored on a database that fails\<close>

context sled_store
begin

lemma put_block_any:
  assumes "bincode_documented L" "SledStorage_put_block L S std_handles b s = (r, s')"
  defines "enc \<equiv> wire_ser (ser_Block b)" and "blocks \<equiv> Named_tree ''blocks''"
  shows "view s' = view s \<and> r \<noteq> Ok () \<or>
    view s' = (view s)(blocks := (view s blocks)(arr32_bytes (b_hash b) \<mapsto> enc)) \<and> r \<noteq> Ok () \<or>
    view s' = (view s)(blocks := (view s blocks)(arr32_bytes (b_hash b) \<mapsto> enc, height_key (b_index b) \<mapsto> enc))"
proof -
  have run: "then_do (tree_insert S blocks (arr32_bytes (b_hash b)) enc)
      (\<lambda>_. tree_insert S blocks (height_key (b_index b)) enc) s = (r, s')"
    using assms(1,2) by (simp add: SledStorage_put_block_def encode_def enc_def blocks_def)
  then show ?thesis
  proof (cases rule: then_do_cases)
    case (Ok a s1)
    have first: "view s1 = (view s)(blocks := (view s blocks)(arr32_bytes (b_hash b) \<mapsto> enc))"
      using tree_insert_any [OF Ok(1)] by auto
    show ?thesis
      using tree_insert_any [OF Ok(2)] unfolding first by auto
  qed (use tree_insert_any in fastforce)+
qed

end

section \<open>Properties\<close>

text \<open>
  C2: a block's state is written as a whole or not at all, whatever fails. On any database that keeps
  sled's documentation, failing calls included, and whatever \<^verbatim>\<open>apply_block\<close> returns, the default
  tree is afterwards as before - then the call did not succeed - or it is the result of the
  whole batch: a delete for every transaction, every account update of the loop and the new
  chain state.
\<close>

theorem block_batch_all_or_nothing:
  assumes "sled_store S view" "bincode_documented L" "apply_block_on L S b (s, cs) = (r, (s', cs'))"
  shows "view s' Default_tree = view s Default_tree \<and> r \<noteq> Ok () \<or>
    (\<exists>m batch s1. apply_txs L (SledStorage L S std_handles) (BaaLSContractEngine L) (b_transactions b) ([], []) s =
        (Ok (m, batch), s1) \<and> bt_sorted m \<and> cs' = advance b cs \<and>
      view s' Default_tree =
        fold batch_step (map batch_of (block_batch (b_transactions b) m (advance b cs))) (view s Default_tree))"
  using sled_store.apply_block_any [OF assms] .

text \<open>A database whose batches all fail, and one whose inserts under heights do.\<close>

definition batch_failing_sled :: "mem_db sled" where
  "batch_failing_sled = mem_sled\<lparr>sled_apply_batch := (\<lambda>t ops s. (Err ''io'', s))\<rparr>"

definition height_failing_sled :: "mem_db sled" where
  "height_failing_sled = mem_sled\<lparr>sled_insert := (\<lambda>t k v s.
     if prefix (utf8 ''height:'') k then (Err ''io'', s) else sled_insert mem_sled t k v s)\<rparr>"

lemma failing_stores: "sled_store batch_failing_sled mem_view" "sled_store height_failing_sled mem_view"
proof -
  have scan: "\<exists>kvs. sorted_wrt (<) (map fst kvs) \<and>
      set kvs = {(k, v). mem_view s t k = Some v \<and> prefix p k} \<and>
      list_all2 (\<lambda>item kv. item = Ok kv \<or> (\<exists>e. item = Err e)) (sled_scan_prefix mem_sled t p s) kvs" for s t p
    by (rule mem.scan_view)
  note rules = mem_view_apply map_of_mem_step map_of_mem_steps
  show "sled_store batch_failing_sled mem_view"
    by unfold_locales (use scan in \<open>auto simp: batch_failing_sled_def rules simp del: mem_step.simps\<close>)
  show "sled_store height_failing_sled mem_view"
    by unfold_locales
      (use scan in \<open>auto simp: height_failing_sled_def rules simp del: mem_step.simps split: if_splits\<close>)
qed

theorem block_batch_all_or_nothing_witness:
  "\<exists>r s' cs'. apply_block_on ref_lib batch_failing_sled two_senders_block (two_senders_mem, state_at 1) = (r, (s', cs')) \<and>
    (mem_view s' Default_tree = mem_view two_senders_mem Default_tree \<and> r \<noteq> Ok () \<or>
      mem_view s' Default_tree (wire_ser global_current) =
        Some (wire_ser (ser_ChainState (advance two_senders_block (state_at 1)))))"
proof -
  obtain r s' cs' where run:
    "apply_block_on ref_lib batch_failing_sled two_senders_block (two_senders_mem, state_at 1) = (r, (s', cs'))"
    by (metis prod.collapse)
  from block_batch_all_or_nothing [OF failing_stores(1) ref_bincode run]
  have "mem_view s' Default_tree = mem_view two_senders_mem Default_tree \<and> r \<noteq> Ok () \<or>
      mem_view s' Default_tree (wire_ser global_current) =
        Some (wire_ser (ser_ChainState (advance two_senders_block (state_at 1))))"
    by (auto simp: block_batch_chain_state)
  with run show ?thesis
    by blast
qed

text \<open>
  C22: \<^verbatim>\<open>put_block\<close> is not atomic. On a database that may fail it leaves the block unstored, or stored
  under its hash only, or under hash and height; nothing else is written, and only the last is
  possible when it returns \<^verbatim>\<open>Ok\<close>.
\<close>

theorem put_block_failure_modes:
  assumes "sled_store S view" "bincode_documented L" "put_block (SledStorage L S std_handles) b s = (r, s')"
  defines "enc \<equiv> wire_ser (ser_Block b)" and "blocks \<equiv> Named_tree ''blocks''"
  shows "view s' = view s \<and> r \<noteq> Ok () \<or>
    view s' = (view s)(blocks := (view s blocks)(arr32_bytes (b_hash b) \<mapsto> enc)) \<and> r \<noteq> Ok () \<or>
    view s' = (view s)(blocks := (view s blocks)(arr32_bytes (b_hash b) \<mapsto> enc, height_key (b_index b) \<mapsto> enc))"
  using sled_store.put_block_any [OF assms(1,2)] assms(3) unfolding enc_def blocks_def by simp

text \<open>The middle case happens: the block is found by its hash and not by its height.\<close>

theorem put_block_failure_modes_witness:
  "\<exists>r s'. put_block (SledStorage ref_lib height_failing_sled std_handles) (block_at 2) empty_mem = (r, s') \<and> r \<noteq> Ok () \<and>
    get_block (SledStorage ref_lib mem_sled std_handles) 2 s' = Ok (Some (block_at 2)) \<and>
    get_block_by_height (SledStorage ref_lib mem_sled std_handles) 2 s' = Ok None"
proof -
  let ?T = "SledStorage ref_lib height_failing_sled std_handles" and ?blocks = "Named_tree ''blocks''"
  let ?enc = "wire_ser (ser_Block (block_at 2))" and ?hash = "arr32_bytes (b_hash (block_at 2))"
  obtain r s' where run: "put_block ?T (block_at 2) empty_mem = (r, s')"
    by (rule prod.exhaust)
  have "\<not> prefix (utf8 ''height:'') ?hash"
    using hash_key_free_samples(2) unfolding hash_key_free_def .
  then have ends: "r = Err (SE_DatabaseError ''io'')" "s' = empty_mem(?blocks := [(?hash, ?enc)])"
    using run by (simp_all add: SledStorage_put_block_def encode_def tree_insert_def height_failing_sled_def
        then_do_def map_err_def prog_simps empty_mem_def)
  have new: "mem_view empty_mem ?blocks ?hash = None" "mem_view s' ?blocks ?hash = Some ?enc"
    by (simp_all add: ends mem_view_def empty_mem_def)
  have "mem_view s' ?blocks (height_key 2) = None \<and> mem_view s' ?blocks ?hash = Some ?enc"
    using put_block_failure_modes [OF failing_stores(2) ref_bincode run] new ends
    by (auto simp: mem_view_def empty_mem_def)
  then have "get_block (SledStorage ref_lib mem_sled std_handles) 2 s' = Ok (Some (block_at 2))"
      "get_block_by_height (SledStorage ref_lib mem_sled std_handles) 2 s' = Ok None"
    by (simp_all add: SledStorage_get_block_def SledStorage_get_block_by_height_def mem.tree_get_ok decode_opt_def
        mem_node.decode_Block)
  with run ends(1) show ?thesis
    by blast
qed

end
