(* ===== verification/Baals_Returns.thy ===== *)
theory Baals_Returns
  imports Baals_Faults
begin

text \<open>
  Which calls come back. Over a database whose calls return, every call of \<^verbatim>\<open>SledStorage\<close>,
  \<^verbatim>\<open>BaaLSContractEngine\<close>, \<^verbatim>\<open>PoAConsensus\<close> and \<^verbatim>\<open>Ledger\<close> returns, with a value or an error; the one way
  to panic is an overflow in a build that checks for it. (\<^verbatim>\<open>Runtime\<close> is another matter.)
\<close>

section \<open>The data types and the consensus engine\<close>

lemma codec_returns [returns_rules]:
  assumes "bincode_documented L"
  shows "comes_back c (bincode_serialize L v)" "comes_back c (bincode_read L h de bs)"
    "comes_back c (encode L v)" "comes_back c (decode L h de bs)" "comes_back c (decode_opt L h de found)"
proof -
  have de: "comes_back c (bincode_deserialize L h bs)" for h bs
    using bincode_de [OF assms, of h bs] by (auto simp: comes_back_def split: option.splits)
  show ser: "comes_back c (bincode_serialize L v)" for v
    using assms by simp
  show read: "comes_back c (bincode_read L h de bs)" for bs
    unfolding bincode_read_def by (auto intro!: returns_rules de split: option.split)
  show "comes_back c (encode L v)"
    unfolding encode_def by (simp add: ser)
  show decode: "comes_back c (decode L h de bs)" for bs
    unfolding decode_def by (simp add: read)
  show "comes_back c (decode_opt L h de found)"
    unfolding decode_opt_def by (auto intro!: returns_rules decode split: option.split)
qed

lemma hashes_return [returns_rules]:
  assumes "bincode_documented L"
  shows "comes_back c (Block_calculate_hash L b)" "comes_back c (Transaction_calculate_hash L tx)"
    "comes_back c (Transaction_verify_signature L tx)"
proof -
  have md: "comes_back c (hash_metadata L m)" for m
    using codec_returns(1) [OF assms, of c] by (auto simp: hash_metadata_def split: option.split)
  show "comes_back c (Block_calculate_hash L b)"
    unfolding Block_calculate_hash_def
    by (intro comes_back_bind_o md) (simp_all add: codec_returns [OF assms])
  show tx: "comes_back c (Transaction_calculate_hash L tx)"
    unfolding Transaction_calculate_hash_def
    by (intro comes_back_bind_o md) (simp_all add: codec_returns [OF assms])
  show "comes_back c (Transaction_verify_signature L tx)"
    unfolding Transaction_verify_signature_def by (intro comes_back_bind_o tx) simp
qed

lemma generate_block_returns:
  assumes "bincode_documented L"
  shows "comes_back (overflow_checks L) (generate_block (PoAConsensus L self) txs prev cs)"
proof -
  have "comes_back (overflow_checks L) (PoA_generate_block L txs prev)"
    unfolding PoA_generate_block_def Let_def
    by (auto intro!: comes_back_bind_o add_checked_back simp: hashes_return [OF assms])
  then show ?thesis
    by (simp add: PoAConsensus_def)
qed

section \<open>The storage\<close>

text \<open>A database whose calls return. Nothing is said of what they do.\<close>

locale returning_sled =
  fixes S :: "'db sled"
  assumes open_returns: "returns (fst (sled_open S path s))"
    and open_tree_returns: "returns (fst (sled_open_tree S name s))"
    and get_returns: "returns (sled_get S t k s)"
    and insert_returns: "returns (fst (sled_insert S t k v s))"
    and remove_returns: "returns (fst (sled_remove S t k s))"
    and scan_returns: "item \<in> set (sled_scan_prefix S t p s) \<Longrightarrow> returns item"
    and batch_returns: "returns (fst (sled_apply_batch S t ops s))"
begin

lemma tree_back [returns_rules]:
  "comes_back c (tree_get S t k s)" "always_back c (tree_insert S t k v)" "always_back c (tree_remove S t k)"
  "always_back c (SledStorage_apply_batch S self ops)"
proof -
  have "always_back c (sled_insert S t k v)" "always_back c (sled_remove S t k)" "always_back c (sled_apply_batch S t' b)"
    for t' b
    by (simp_all add: always_back_def comes_back_returns insert_returns remove_returns batch_returns)
  then show "always_back c (tree_insert S t k v)" "always_back c (tree_remove S t k)"
    "always_back c (SledStorage_apply_batch S self ops)"
    unfolding tree_insert_def tree_remove_def SledStorage_apply_batch_def by (auto intro!: returns_rules)
  show "comes_back c (tree_get S t k s)"
    using get_returns by (simp add: tree_get_def comes_back_returns)
qed

lemma pending_loop_back:
  assumes "bincode_documented L"
  shows "(\<And>item. item \<in> set items \<Longrightarrow> returns item) \<Longrightarrow> comes_back c (pending_loop L items txs)"
proof (induction items arbitrary: txs)
  case (Cons item items)
  show ?case
    unfolding pending_loop.simps case_prod_unfold
    by (intro comes_back_bind_o) (simp_all add: Cons codec_returns [OF assms] comes_back_returns)
qed simp

lemma by_block_loop_back:
  assumes "bincode_documented L"
  shows "(\<And>item. item \<in> set items \<Longrightarrow> returns item) \<Longrightarrow> comes_back c (by_block_loop L S self s items txs)"
proof (induction items arbitrary: txs)
  case (Cons item items)
  have "comes_back c (SledStorage_get_transaction L S self h s)" for h
    unfolding SledStorage_get_transaction_def by (intro comes_back_bind_o tree_back codec_returns [OF assms])
  then show ?case
    unfolding by_block_loop.simps case_prod_unfold
    by (auto intro!: comes_back_bind_o simp: Cons comes_back_returns split: option.split)
qed simp

text \<open>Every operation of the trait.\<close>

lemma getters_back [returns_rules]:
  fixes self :: sled_storage
  assumes "bincode_documented L"
  defines "T \<equiv> SledStorage L S self"
  shows "comes_back c (get_block T h s)" "comes_back c (get_latest_block T s)" "comes_back c (get_chain_height T s)"
    "comes_back c (get_block_by_height T i s)" "comes_back c (get_transaction T h s)"
    "comes_back c (get_pending_transactions T s)" "comes_back c (get_transaction_by_id T h s)"
    "comes_back c (get_transactions_by_block T h s)" "comes_back c (get_account T a s)"
    "comes_back c (get_chain_state T s)" "comes_back c (get_contract_code T cid s)"
    "comes_back c (contract_storage_read T cid k s)"
proof -
  show latest: "comes_back c (get_latest_block T s)"
    unfolding T_def SledStorage_sel SledStorage_get_latest_block_def
    by (auto intro!: comes_back_bind_o codec_returns [OF assms(1)] split: list.split outcome.split)
  then show "comes_back c (get_chain_height T s)"
    by (simp add: T_def SledStorage_get_chain_height_def comes_back_bind_o)
  show "comes_back c (get_block T h s)" "comes_back c (get_block_by_height T i s)"
    "comes_back c (get_transaction T h s)" "comes_back c (get_transaction_by_id T h s)"
    "comes_back c (get_account T a s)" "comes_back c (get_chain_state T s)" "comes_back c (get_contract_code T cid s)"
    "comes_back c (contract_storage_read T cid k s)"
    by (simp_all add: T_def SledStorage_get_block_def SledStorage_get_block_by_height_def
        SledStorage_get_transaction_def SledStorage_get_transaction_by_id_def SledStorage_get_account_def
        SledStorage_get_chain_state_def SledStorage_get_contract_code_def SledStorage_contract_storage_read_def
        comes_back_bind_o tree_back codec_returns [OF assms(1)])
  show "comes_back c (get_pending_transactions T s)" "comes_back c (get_transactions_by_block T h s)"
    unfolding T_def SledStorage_sel SledStorage_get_pending_transactions_def SledStorage_get_transactions_by_block_def
    by (intro pending_loop_back by_block_loop_back assms(1) scan_returns; assumption)+
qed

lemma writers_back [returns_rules]:
  fixes self :: sled_storage
  assumes "bincode_documented L"
  defines "T \<equiv> SledStorage L S self"
  shows "always_back c (put_block T b)" "always_back c (put_transaction T tx)"
    "always_back c (remove_pending_transaction T h)" "always_back c (index_transaction T h h' n)"
    "always_back c (put_account T a acc)" "always_back c (delete_account T a)" "always_back c (put_chain_state T cs)"
    "always_back c (put_contract_code T cid wasm)" "always_back c (contract_storage_write T cid k v)"
    "always_back c (contract_storage_remove T cid k)" "always_back c (apply_batch T ops)"
  unfolding T_def SledStorage_sel SledStorage_put_block_def SledStorage_put_transaction_def
    SledStorage_remove_pending_transaction_def SledStorage_index_transaction_def SledStorage_put_account_def
    SledStorage_delete_account_def SledStorage_put_chain_state_def SledStorage_put_contract_code_def
    SledStorage_contract_storage_write_def SledStorage_contract_storage_remove_def
  by (intro returns_rules codec_returns [OF assms(1)])+

end

section \<open>The ledger\<close>

text \<open>What the ledger needs of a storage and an engine to come back itself.\<close>

locale returning_backend =
  fixes T :: "'s storage" and E :: "'s contract_engine" and L :: lib
  assumes bincode: "bincode_documented L"
    and account_back: "comes_back c (get_account T a s)"
    and block_back: "comes_back c (get_block T h s)"
    and state_back: "comes_back c (get_chain_state T s)"
    and index_back: "always_back c (index_transaction T h h' n)"
    and batch_back: "always_back c (apply_batch T ops)"
    and deploy_back: "always_back c (deploy_contract E pk wasm init T gas)"
    and call_back: "always_back c (call_contract E pk cid mname args T)"
begin

lemma codec_back: "comes_back c (ser_err (bincode_serialize L v))"
  using bincode by (simp add: ser_err_def)

lemma storage_err_back: "always_back c m \<Longrightarrow> always_back c (storage_err m)"
  unfolding storage_err_def by (rule always_back_map_err)

lemma check_signatures_back: "comes_back c (check_signatures L txs)"
  by (induction txs) (auto intro!: comes_back_bind_o simp: hashes_return [OF bincode])

lemma validate_block_back: "comes_back (overflow_checks L) (Ledger_validate_block L T b cs s)"
proof -
  have "comes_back c (timestamp_not_after_parent T b s)" for c
    unfolding timestamp_not_after_parent_def
    by (auto intro!: comes_back_bind_o simp: block_back split: option.split)
  then show ?thesis
    unfolding Ledger_validate_block_def
    by (auto intro!: comes_back_bind_o add_checked_back check_signatures_back simp: hashes_return [OF bincode])
qed

lemma apply_payload_back: "always_back (overflow_checks L) (apply_payload L T E tx acc m)"
proof -
  have "always_back (overflow_checks L) (transfer_credit L T r amount m)" for r amount m
    unfolding transfer_credit_def
    by (auto intro!: always_back_then_do storage_err_back always_back_pure account_back add_checked_back
        split: address.split option.split account.split)
  then have "always_back (overflow_checks L) (apply_transfer L T tx amount m)" for amount
    unfolding apply_transfer_def by (auto intro!: always_back_pure split: option.split account.split)
  then show ?thesis
    unfolding apply_payload_def
    by (auto intro!: always_back_then_do always_back_map_err always_back_discard always_back_pure
        deploy_back call_back split: transaction_payload.split address.split)
qed

lemma apply_txs_back: "always_back (overflow_checks L) (apply_txs L T E txs acc)"
proof (induction txs arbitrary: acc)
  case (Cons tx txs)
  have "always_back (overflow_checks L) (apply_tx L T E tx acc)"
    unfolding apply_tx_def case_prod_unfold Let_def
    by (auto intro!: always_back_then_do storage_err_back always_back_pure account_back add_checked_back
        apply_payload_back codec_back split: option.split)
  then show ?case
    by (simp add: always_back_then_do Cons)
qed (simp add: always_back_pure)

lemma apply_block_back: "always_back (overflow_checks L) (Ledger_apply_block L T E b)"
proof -
  have "comes_back c (map_o (account_put L) m)" for c m
    unfolding account_put_def case_prod_unfold by (intro comes_back_map_o comes_back_bind_o codec_back) simp
  moreover have "always_back c (index_transactions T b)" for c
    unfolding index_transactions_def case_prod_unfold by (intro always_back_for_each storage_err_back index_back)
  ultimately show ?thesis
    unfolding Ledger_apply_block_def case_prod_unfold
    by (intro always_back_then_do always_back_on_fst apply_txs_back always_back_pure codec_back storage_err_back
        batch_back)
qed

lemma initialize_chain_back: "always_back c (Ledger_initialize_chain L T)"
  unfolding Ledger_initialize_chain_def Let_def
  by (auto intro!: always_back_then_do always_back_map_err always_back_pure codec_back state_back batch_back
      simp: hashes_return [OF bincode])

end

context returning_sled
begin

lemma deploy_returns:
  "bincode_documented L \<Longrightarrow> always_back c (BaaLS_deploy_contract L pk wasm init (SledStorage L S self) gas)"
  unfolding BaaLS_deploy_contract_def Let_def
  by (auto intro!: always_back_then_do always_back_map_err always_back_pure writers_back [unfolded SledStorage_sel]
      split: option.split)

lemma backend:
  assumes "bincode_documented L"
  shows "returning_backend (SledStorage L S self) (BaaLSContractEngine L) L"
proof
  show "always_back c (call_contract (BaaLSContractEngine L) pk cid mname args (SledStorage L S self))"
    for c pk cid mname args
    by (simp add: BaaLS_call_contract_def always_back_pure)
  show "always_back c (deploy_contract (BaaLSContractEngine L) pk wasm init (SledStorage L S self) gas)"
    for c pk wasm init gas
    using deploy_returns [OF assms] by simp
qed (intro assms getters_back writers_back)+

end

interpretation mem_returns: returning_sled mem_sled
  by unfold_locales (auto simp: returns_def)

interpretation mem_backend: returning_backend
    "SledStorage ref_lib mem_sled std_handles" "BaaLSContractEngine ref_lib" ref_lib
  by (rule mem_returns.backend) simp

section \<open>Properties\<close>

text \<open>
  C5: the ledger always comes back. Over a database whose calls return - what they do and whether they
  fail is left open - \<^verbatim>\<open>initialize_chain\<close> returns, and so do \<^verbatim>\<open>validate_block\<close>, \<^verbatim>\<open>apply_block\<close> and
  \<^verbatim>\<open>generate_block\<close>, with a value or an error, unless the build checks for overflows, when they may
  panic; none of them hangs.
\<close>

theorem ledger_calls_return:
  fixes self :: sled_storage
  assumes "returning_sled S" "bincode_documented L"
  defines "node \<equiv> SledStorage L S self"
  shows "returns (fst (Ledger_initialize_chain L node s)) \<and>
    comes_back (overflow_checks L) (Ledger_validate_block L node b cs s) \<and>
    comes_back (overflow_checks L) (fst (Ledger_apply_block L node (BaaLSContractEngine L) b (s, cs))) \<and>
    comes_back (overflow_checks L) (generate_block (PoAConsensus L poa) txs prev cs)"
proof -
  have wb: "returning_backend node (BaaLSContractEngine L) L"
    unfolding node_def by (rule returning_sled.backend [OF assms(1,2)])
  note calls = returning_backend.initialize_chain_back [OF wb, of False]
    returning_backend.validate_block_back [OF wb] returning_backend.apply_block_back [OF wb]
    generate_block_returns [OF assms(2)]
  show ?thesis
    using calls by (simp add: always_back_def comes_back_False)
qed

theorem ledger_calls_return_witness:
  "returns (fst (Ledger_initialize_chain ref_lib (SledStorage ref_lib batch_failing_sled std_handles) empty_mem)) \<and>
   fst (Ledger_apply_block ref_lib (SledStorage ref_lib batch_failing_sled std_handles) (BaaLSContractEngine ref_lib)
     two_senders_block (two_senders_mem, state_at 1)) \<noteq> Hang"
proof -
  have "returning_sled batch_failing_sled"
    by unfold_locales (auto simp: batch_failing_sled_def returns_def)
  from ledger_calls_return [OF this ref_bincode, of std_handles empty_mem]
    ledger_calls_return [OF this ref_bincode, of std_handles two_senders_mem two_senders_block "state_at 1"]
  show ?thesis
    by (simp add: comes_back_def)
qed

end
