(* ===== verification/Baals_Typed.thy ===== *)
theory Baals_Typed
  imports Baals_Faults
begin

text \<open>
  The types of the tables. A database that only \<^verbatim>\<open>SledStorage\<close> writes holds in every tree what that
  tree is for, whatever calls fail on the way; what the getters can therefore never answer; and
  the two indexes of the blocks as one table.
\<close>

section \<open>What each tree may hold\<close>

definition entry_ok :: "tree \<Rightarrow> bytes \<Rightarrow> bytes \<Rightarrow> bool" where
  "entry_ok t k v \<longleftrightarrow>
     (t = Named_tree ''blocks'' \<longrightarrow>
        (\<exists>b. (k = arr32_bytes (b_hash b) \<or> k = height_key (b_index b)) \<and> v = wire_ser (ser_Block b))) \<and>
     (t = Named_tree ''transactions'' \<longrightarrow>
        (\<exists>tx. k = arr32_bytes (t_hash tx) \<and> v = wire_ser (ser_Transaction tx))) \<and>
     (t = Named_tree ''accounts'' \<longrightarrow>
        (\<exists>a acc. k = arr32_bytes (PublicKey_to_bytes a) \<and> v = wire_ser (ser_Account acc))) \<and>
     (t = Named_tree ''chain_state'' \<longrightarrow> k = current_key \<and> (\<exists>cs. v = wire_ser (ser_ChainState cs))) \<and>
     (t = Named_tree ''tx_by_block'' \<longrightarrow> (\<exists>h. v = arr32_bytes h)) \<and>
     t \<noteq> Named_tree ''mempool''"

definition well_typed :: "(tree \<Rightarrow> bytes \<Rightarrow> bytes option) \<Rightarrow> bool" where
  "well_typed contents \<longleftrightarrow> (\<forall>t k v. contents t k = Some v \<longrightarrow> entry_ok t k v)"

lemma well_typed_put: "well_typed c \<Longrightarrow> entry_ok t k v \<Longrightarrow> well_typed (c(t := (c t)(k \<mapsto> v)))"
  and well_typed_del: "well_typed c \<Longrightarrow> well_typed (c(t := (c t)(k := None)))"
  and well_typed_default: "well_typed c \<Longrightarrow> well_typed (c(Default_tree := m))"
  by (auto simp: well_typed_def) (simp add: entry_ok_def)

section \<open>Every operation keeps the types\<close>

text \<open>A step of the storage: one call of a trait operation that writes, returned or failed.\<close>

inductive storage_step :: "'s storage \<Rightarrow> 's \<Rightarrow> 's \<Rightarrow> bool" for T where
  block: "put_block T b s = (r, s') \<Longrightarrow> storage_step T s s'"
| transaction: "put_transaction T tx s = (r, s') \<Longrightarrow> storage_step T s s'"
| pending: "remove_pending_transaction T h s = (r, s') \<Longrightarrow> storage_step T s s'"
| index: "index_transaction T h b i s = (r, s') \<Longrightarrow> storage_step T s s'"
| account: "put_account T a acc s = (r, s') \<Longrightarrow> storage_step T s s'"
| no_account: "delete_account T a s = (r, s') \<Longrightarrow> storage_step T s s'"
| state: "put_chain_state T cs s = (r, s') \<Longrightarrow> storage_step T s s'"
| code: "put_contract_code T c wasm s = (r, s') \<Longrightarrow> storage_step T s s'"
| slot: "contract_storage_write T c k v s = (r, s') \<Longrightarrow> storage_step T s s'"
| no_slot: "contract_storage_remove T c k s = (r, s') \<Longrightarrow> storage_step T s s'"
| batch: "apply_batch T ops s = (r, s') \<Longrightarrow> storage_step T s s'"

context sled_store
begin

abbreviation typed_db :: "'db \<Rightarrow> bool" where
  "typed_db s \<equiv> well_typed (view s)"

lemma preserves_tree_insert [preserves_rules]: "entry_ok t k v \<Longrightarrow> preserves typed_db (tree_insert S t k v)"
  by (rule preservesI) (metis tree_insert_any well_typed_put)

lemma preserves_tree_remove [preserves_rules]: "preserves typed_db (tree_remove S t k)"
  by (rule preservesI) (metis tree_remove_any well_typed_del)

lemma preserves_apply_batch [preserves_rules]: "preserves typed_db (SledStorage_apply_batch S std_handles ops)"
proof -
  have "preserves typed_db (sled_apply_batch S Default_tree (map batch_of ops))"
    by (rule preservesI) (metis batch_any well_typed_default)
  then show ?thesis
    unfolding SledStorage_apply_batch_def by (auto intro!: preserves_rules)
qed

lemma storage_step_typed:
  assumes bincode: "bincode_documented L" and "storage_step (SledStorage L S std_handles) s s'" "typed_db s"
  shows "typed_db s'"
proof -
  have encode: "encode L v = Ok (wire_ser v)" for v
    using bincode by (simp add: encode_def)
  note defs = SledStorage_put_block_def SledStorage_put_transaction_def SledStorage_remove_pending_transaction_def
    SledStorage_index_transaction_def SledStorage_put_account_def SledStorage_delete_account_def
    SledStorage_put_chain_state_def SledStorage_put_contract_code_def SledStorage_contract_storage_write_def
    SledStorage_contract_storage_remove_def
  have ops: "preserves typed_db (SledStorage_put_block L S std_handles b)"
    "preserves typed_db (SledStorage_put_transaction L S std_handles tx)"
    "preserves typed_db (SledStorage_remove_pending_transaction S std_handles h)"
    "preserves typed_db (SledStorage_index_transaction L S std_handles h h' i)"
    "preserves typed_db (SledStorage_put_account L S std_handles a acc)"
    "preserves typed_db (SledStorage_delete_account S std_handles a)"
    "preserves typed_db (SledStorage_put_chain_state L S std_handles cs)"
    "preserves typed_db (SledStorage_put_contract_code S std_handles c wasm)"
    "preserves typed_db (SledStorage_contract_storage_write L S std_handles c k v)"
    "preserves typed_db (SledStorage_contract_storage_remove L S std_handles c k)" for b tx h h' i a acc cs c wasm k v
    unfolding defs encode by (auto intro!: preserves_rules simp: entry_ok_def)
  note ops = ops [THEN preservesD] preserves_apply_batch [THEN preservesD]
  from assms(2,3) show ?thesis
    by (cases rule: storage_step.cases) (simp_all, (blast intro: ops)+)
qed

lemma storage_steps_typed:
  assumes "bincode_documented L" "(storage_step (SledStorage L S std_handles))\<^sup>*\<^sup>* s s'" "typed_db s"
  shows "typed_db s'"
  using assms(2,3) by (induction rule: rtranclp_induct) (simp_all add: storage_step_typed [OF assms(1)])

end

section \<open>What the getters never answer\<close>

lemma by_block_loop_typed:
  assumes "\<forall>item \<in> set items. \<forall>k v. item = Ok (k, v) \<longrightarrow> (\<exists>h. v = arr32_bytes h)"
    and "\<And>h e. SledStorage_get_transaction L S self h s \<noteq> Err (SE_CryptoError e)"
  shows "by_block_loop L S self s items txs \<noteq> Err (SE_CryptoError e)"
  using assms(1)
proof (induction items arbitrary: txs)
  case (Cons item items)
  show ?case
  proof (cases item)
    case (Ok kv)
    with Cons.prems obtain k h where kv: "kv = (k, arr32_bytes h)"
      by (cases kv) auto
    show ?thesis
      using Cons.IH Cons.prems assms(2) [of h]
      by (cases "SledStorage_get_transaction L S self h s") (simp_all add: Ok kv)
  qed simp_all
qed simp

context sled_store
begin

lemma decode_not_crypto [simp]: "decode L h de bs \<noteq> Err (SE_CryptoError e)"
  by (cases "bincode_read L h de bs") (simp_all add: decode_def)

lemma get_transaction_not_crypto: "SledStorage_get_transaction L S self h s \<noteq> Err (SE_CryptoError e)"
proof -
  have "decode_opt L shape_Transaction (de_Transaction L) found \<noteq> Err (SE_CryptoError e)" for found
    by (auto simp: decode_opt_def bind_o_def split: option.splits outcome.splits)
  then show ?thesis
    by (auto simp: SledStorage_get_transaction_def tree_get_def bind_o_def map_err_o_def split: outcome.splits)
qed

lemma typed_entry: "typed_db s \<Longrightarrow> view s t k = Some v \<Longrightarrow> entry_ok t k v"
  by (simp add: well_typed_def)

lemma typed_read:
  assumes "\<And>v. view s t k = Some v \<Longrightarrow> \<exists>x. decode L h de v = Ok x"
  shows "bind_o (tree_get S t k s) (decode_opt L h de) \<noteq> Err (SE_SerializationError e)"
proof (cases "sled_get S t k s")
  case (Ok r)
  from get_view [OF Ok] assms show ?thesis
    by (cases r) (fastforce simp: tree_get_def decode_opt_def Ok)+
qed (simp_all add: tree_get_def)

lemma get_account_typed:
  assumes "bincode_documented L" "typed_db s"
  shows "SledStorage_get_account L S std_handles a s \<noteq> Err (SE_SerializationError e)"
  unfolding SledStorage_get_account_def
proof (rule typed_read)
  fix v
  assume "view s (accounts_tree std_handles) (arr32_bytes (PublicKey_to_bytes a)) = Some v"
  from typed_entry [OF assms(2) this] obtain acc where "v = wire_ser (ser_Account acc)"
    by (auto simp: entry_ok_def)
  then show "\<exists>x. decode L shape_Account de_Account v = Ok x"
    using Account_read_back [OF assms(1), of acc "[]"] by (simp add: decode_def)
qed

lemma get_chain_state_typed:
  assumes "bincode_documented L" "typed_db s"
  shows "SledStorage_get_chain_state L S std_handles s \<noteq> Err (SE_SerializationError e)"
  unfolding SledStorage_get_chain_state_def
proof (rule typed_read)
  fix v
  assume "view s (chain_state_tree std_handles) current_key = Some v"
  from typed_entry [OF assms(2) this] obtain cs where "v = wire_ser (ser_ChainState cs)"
    by (auto simp: entry_ok_def)
  then show "\<exists>x. decode L shape_ChainState de_ChainState v = Ok x"
    using ChainState_read_back [OF assms(1), of cs "[]"] by (simp add: decode_def)
qed

lemma scan_typed:
  assumes "typed_db s" "Ok (k, v) \<in> set (sled_scan_prefix S t p s)"
  shows "entry_ok t k v"
proof -
  obtain kvs where "set kvs = {(k, v). view s t k = Some v \<and> prefix p k}"
      "list_all2 (\<lambda>item kv. item = Ok kv \<or> (\<exists>e. item = Err e)) (sled_scan_prefix S t p s) kvs"
    using scan_view by blast
  moreover from this(2) assms(2) have "(k, v) \<in> set kvs"
    by (fastforce simp: in_set_conv_nth list_all2_conv_all_nth)
  ultimately show ?thesis
    using typed_entry [OF assms(1)] by blast
qed

lemma by_block_typed:
  assumes "typed_db s"
  shows "SledStorage_get_transactions_by_block L S std_handles h s \<noteq> Err (SE_CryptoError e)"
proof -
  have "\<forall>item \<in> set (sled_scan_prefix S (Named_tree ''tx_by_block'') (block_tx_prefix L h) s).
      \<forall>k v. item = Ok (k, v) \<longrightarrow> (\<exists>x. v = arr32_bytes x)"
    using scan_typed [OF assms] by (force simp: entry_ok_def)
  from by_block_loop_typed [OF this get_transaction_not_crypto] show ?thesis
    by (simp add: SledStorage_get_transactions_by_block_def)
qed

text \<open>Nothing is ever written to the tree of pending transactions.\<close>

lemma pending_typed:
  assumes "typed_db s"
  shows "SledStorage_get_pending_transactions L S std_handles s = Ok []"
proof -
  obtain kvs where "set kvs = {(k, v). view s (Named_tree ''mempool'') k = Some v \<and> prefix (utf8 ''pending:'') k}"
      "list_all2 (\<lambda>item kv. item = Ok kv \<or> (\<exists>e. item = Err e))
        (sled_scan_prefix S (Named_tree ''mempool'') (utf8 ''pending:'') s) kvs"
    using scan_view by blast
  moreover have "view s (Named_tree ''mempool'') k \<noteq> Some v" for k v
    using typed_entry [OF assms, of "Named_tree ''mempool''" k v] by (auto simp: entry_ok_def)
  ultimately show ?thesis
    by (simp add: SledStorage_get_pending_transactions_def)
qed

end

section \<open>The two indexes of the blocks\<close>

text \<open>\<open>indexed bs m\<close>: \<open>m\<close> holds every block of \<open>bs\<close> twice, under its hash and under its height.\<close>

definition indexed :: "block list \<Rightarrow> (bytes \<rightharpoonup> bytes) \<Rightarrow> bool" where
  "indexed bs m \<longleftrightarrow> (\<forall>b \<in> set bs. m (arr32_bytes (b_hash b)) = Some (wire_ser (ser_Block b)) \<and>
     m (height_key (b_index b)) = Some (wire_ser (ser_Block b)))"

lemma indexed_put:
  assumes "indexed bs m" "b_hash b \<notin> b_hash ` set bs" "b_index b \<notin> b_index ` set bs"
  shows "indexed (bs @ [b])
    (m(arr32_bytes (b_hash b) \<mapsto> wire_ser (ser_Block b), height_key (b_index b) \<mapsto> wire_ser (ser_Block b)))"
  unfolding indexed_def
proof (intro ballI)
  fix c
  assume "c \<in> set (bs @ [b])"
  then consider "c = b" | "c \<in> set bs" "b_hash c \<noteq> b_hash b" "b_index c \<noteq> b_index b"
    using assms(2,3) by (metis Un_iff empty_iff imageI insert_iff list.set(1,2) set_append)
  then show "(m(arr32_bytes (b_hash b) \<mapsto> wire_ser (ser_Block b), height_key (b_index b) \<mapsto> wire_ser (ser_Block b)))
        (arr32_bytes (b_hash c)) = Some (wire_ser (ser_Block c)) \<and>
      (m(arr32_bytes (b_hash b) \<mapsto> wire_ser (ser_Block b), height_key (b_index b) \<mapsto> wire_ser (ser_Block b)))
        (height_key (b_index c)) = Some (wire_ser (ser_Block c))"
    using assms(1) by cases (simp_all add: indexed_def)
qed

context sled_node
begin

lemma put_blocks_indexed:
  assumes "indexed cs (view s (Named_tree ''blocks''))"
    and "distinct (map b_hash (cs @ bs))" "distinct (map b_index (cs @ bs))"
  shows "\<exists>s'. for_each (SledStorage_put_block L S std_handles) bs s = (Ok (), s') \<and>
    indexed (cs @ bs) (view s' (Named_tree ''blocks''))"
  using assms
proof (induction bs arbitrary: cs s)
  case Nil
  then show ?case by (simp add: prog_simps)
next
  case (Cons b bs)
  obtain s1 where s1: "SledStorage_put_block L S std_handles b s = (Ok (), s1)"
    and v1: "view s1 = (view s)(Named_tree ''blocks'' := (view s (Named_tree ''blocks''))
       (arr32_bytes (b_hash b) \<mapsto> wire_ser (ser_Block b), height_key (b_index b) \<mapsto> wire_ser (ser_Block b)))"
    using put_block_ok by blast
  have "indexed (cs @ [b]) (view s1 (Named_tree ''blocks''))"
    using indexed_put [OF Cons.prems(1), of b] Cons.prems(2,3) by (simp add: v1)
  from Cons.IH [OF this] Cons.prems(2,3) show ?case
    by (simp add: prog_simps s1)
qed

lemma indexed_getters:
  assumes "indexed bs (view s (Named_tree ''blocks''))" "b \<in> set bs"
  shows "SledStorage_get_block L S std_handles (b_hash b) s =
      SledStorage_get_block_by_height L S std_handles (b_index b) s"
    "SledStorage_get_block L S std_handles (b_hash b) s \<noteq> Ok None"
  using assms
  by (auto simp: indexed_def SledStorage_get_block_def SledStorage_get_block_by_height_def tree_get_ok
      decode_opt_def bind_o_Ok_iff)

end

section \<open>Properties\<close>

text \<open>
  C4: the tables are typed. Whatever sequence of storage calls runs, and whichever of them fail, every
  tree keeps holding only what it is for. So accounts and chain state never fail to decode, the
  transaction index never holds anything but hashes, and no transaction is ever pending: no
  operation writes the tree \<^verbatim>\<open>get_pending_transactions\<close> scans.
\<close>

theorem storage_stays_typed:
  assumes "sled_store S view" "bincode_documented L"
    and "(storage_step (SledStorage L S std_handles))\<^sup>*\<^sup>* s s'" "well_typed (view s)"
  shows "well_typed (view s') \<and>
    (\<forall>a e. get_account (SledStorage L S std_handles) a s' \<noteq> Err (SE_SerializationError e)) \<and>
    (\<forall>e. get_chain_state (SledStorage L S std_handles) s' \<noteq> Err (SE_SerializationError e)) \<and>
    (\<forall>h e. get_transactions_by_block (SledStorage L S std_handles) h s' \<noteq> Err (SE_CryptoError e)) \<and>
    get_pending_transactions (SledStorage L S std_handles) s' = Ok []"
proof -
  have typed: "well_typed (view s')"
    using sled_store.storage_steps_typed [OF assms(1,2,3,4)] .
  then show ?thesis
    using sled_store.get_account_typed [OF assms(1,2) typed] sled_store.get_chain_state_typed [OF assms(1,2) typed]
      sled_store.by_block_typed [OF assms(1) typed] sled_store.pending_typed [OF assms(1) typed]
    by simp
qed

theorem storage_stays_typed_witness:
  "\<exists>s'. put_transaction (SledStorage ref_lib mem_sled std_handles) sample_tx empty_mem = (Ok (), s') \<and>
    get_pending_transactions (SledStorage ref_lib mem_sled std_handles) s' = Ok []"
proof -
  let ?T = "SledStorage ref_lib mem_sled std_handles"
  obtain s' where put: "put_transaction ?T sample_tx empty_mem = (Ok (), s')"
    by (auto simp: SledStorage_put_transaction_def encode_def tree_insert_def then_do_def map_err_def prog_simps)
  then have "(storage_step ?T)\<^sup>*\<^sup>* empty_mem s'"
    by (blast intro: storage_step.transaction)
  moreover have "well_typed (mem_view empty_mem)"
    by (simp add: well_typed_def mem_view_def empty_mem_def)
  ultimately show ?thesis
    using storage_stays_typed [OF mem.sled_store_axioms ref_bincode] put by blast
qed

text \<open>
  C20: looking up by height and by hash are the same. After blocks with different hashes and different
  heights have been put on a database that does not fail, in any order, both lookups of every
  one of them give the same answer, which is never that it is not there.
\<close>

theorem block_lookups_agree:
  assumes "sled_node S view L" "distinct (map b_hash bs)" "distinct (map b_index bs)"
  shows "\<exists>s'. for_each (put_block (SledStorage L S std_handles)) bs s = (Ok (), s') \<and>
    (\<forall>b \<in> set bs.
      get_block (SledStorage L S std_handles) (b_hash b) s' =
        get_block_by_height (SledStorage L S std_handles) (b_index b) s' \<and>
      get_block (SledStorage L S std_handles) (b_hash b) s' \<noteq> Ok None)"
proof -
  have "indexed [] (view s (Named_tree ''blocks''))"
    by (simp add: indexed_def)
  then have "\<exists>s'. for_each (SledStorage_put_block L S std_handles) bs s = (Ok (), s') \<and>
      indexed ([] @ bs) (view s' (Named_tree ''blocks''))"
    by (rule sled_node.put_blocks_indexed [OF assms(1)]) (simp_all add: assms(2,3))
  then obtain s' where s': "for_each (SledStorage_put_block L S std_handles) bs s = (Ok (), s')"
    "indexed bs (view s' (Named_tree ''blocks''))"
    by auto
  have "\<forall>b \<in> set bs. SledStorage_get_block L S std_handles (b_hash b) s' =
        SledStorage_get_block_by_height L S std_handles (b_index b) s' \<and>
      SledStorage_get_block L S std_handles (b_hash b) s' \<noteq> Ok None"
  proof (intro ballI conjI)
    fix b
    assume b: "b \<in> set bs"
    show "SledStorage_get_block L S std_handles (b_hash b) s' =
        SledStorage_get_block_by_height L S std_handles (b_index b) s'"
      using assms(1) s'(2) b by (rule sled_node.indexed_getters(1))
    show "SledStorage_get_block L S std_handles (b_hash b) s' \<noteq> Ok None"
      using assms(1) s'(2) b by (rule sled_node.indexed_getters(2))
  qed
  with s'(1) show ?thesis
    unfolding SledStorage_sel by blast
qed

theorem block_lookups_agree_witness:
  "\<exists>s'. for_each (put_block (SledStorage ref_lib mem_sled std_handles)) [block_at 2, block_at 1] empty_mem = (Ok (), s') \<and>
    get_block (SledStorage ref_lib mem_sled std_handles) 1 s' =
      get_block_by_height (SledStorage ref_lib mem_sled std_handles) 1 s' \<and>
    get_block (SledStorage ref_lib mem_sled std_handles) 1 s' \<noteq> Ok None"
  using block_lookups_agree [OF mem_node.sled_node_axioms, of "[block_at 2, block_at 1]" empty_mem]
  by (auto simp del: SledStorage_sel)

end
