(* ===== verification/Baals_Sequential.thy ===== *)
theory Baals_Sequential
  imports Baals_Typed
begin

text \<open>
  A textbook account ledger as a reference: every transaction reads the accounts its predecessors
  left. \<^verbatim>\<open>apply_block\<close>, which reads every account as it was before the block, computes the same as
  long as no account occurs twice in the block.
\<close>

section \<open>The sequential ledger\<close>

definition seq_credit :: "lib \<Rightarrow> public_key \<Rightarrow> u64 \<Rightarrow> (public_key \<rightharpoonup> account) \<Rightarrow> (public_key \<rightharpoonup> account) option" where
  "seq_credit L pk amount A = (case A pk of
       None \<Rightarrow> Some (A(pk \<mapsto> Wallet amount 0))
     | Some (Wallet balance nonce) \<Rightarrow>
         if overflow_checks L \<and> 2 ^ 64 \<le> unat balance + unat amount then None
         else Some (A(pk \<mapsto> Wallet (balance + amount) nonce))
     | Some (Contract code_hash storage_root_hash nonce) \<Rightarrow> None)"

definition seq_payload ::
    "lib \<Rightarrow> (public_key \<Rightarrow> bytes \<Rightarrow> contract_id) \<Rightarrow> transaction \<Rightarrow> account \<Rightarrow> (public_key \<rightharpoonup> account) \<Rightarrow>
     (public_key \<rightharpoonup> account) option" where
  "seq_payload L deployed tx sender A = (case t_payload tx of
       Transfer amount \<Rightarrow> (case (sender, t_recipient tx) of
           (Wallet balance nonce, Addr_Wallet pk) \<Rightarrow>
             if balance < amount then None
             else seq_credit L pk amount (A(t_sender tx \<mapsto> Wallet (balance - amount) nonce))
         | _ \<Rightarrow> None)
     | ContractDeploy wasm \<Rightarrow>
         Some (A(t_sender tx \<mapsto>
           Contract (ContractId_to_bytes (deployed (t_sender tx) wasm)) 0 (Account_nonce sender)))
     | ContractCall mname args \<Rightarrow> (case t_recipient tx of Addr_Contract c \<Rightarrow> Some A | Addr_Wallet pk \<Rightarrow> None)
     | Data data \<Rightarrow> Some A)"

definition seq_tx ::
    "lib \<Rightarrow> (public_key \<Rightarrow> bytes \<Rightarrow> contract_id) \<Rightarrow> transaction \<Rightarrow> (public_key \<rightharpoonup> account) \<Rightarrow>
     (public_key \<rightharpoonup> account) option" where
  "seq_tx L deployed tx A = (case A (t_sender tx) of
       None \<Rightarrow> None
     | Some sender \<Rightarrow>
         if overflow_checks L \<and> 2 ^ 64 \<le> unat (Account_nonce sender) + 1 then None
         else if t_nonce tx \<noteq> Account_nonce sender + 1 then None
         else
           let sender = Account_set_nonce (t_nonce tx) sender in
           seq_payload L deployed tx sender (A(t_sender tx \<mapsto> sender)))"

primrec seq_txs ::
    "lib \<Rightarrow> (public_key \<Rightarrow> bytes \<Rightarrow> contract_id) \<Rightarrow> transaction list \<Rightarrow> (public_key \<rightharpoonup> account) \<Rightarrow>
     (public_key \<rightharpoonup> account) option" where
  "seq_txs L deployed [] A = Some A"
| "seq_txs L deployed (tx # txs) A = Option.bind (seq_tx L deployed tx A) (seq_txs L deployed txs)"

text \<open>The accounts a transaction reads and writes.\<close>

definition touched :: "transaction \<Rightarrow> public_key list" where
  "touched tx = t_sender tx # (case (t_payload tx, t_recipient tx) of
     (Transfer amount, Addr_Wallet pk) \<Rightarrow> [pk] | _ \<Rightarrow> [])"

section \<open>Agreement\<close>

lemma Account_set_nonce_cases [simp]:
  "Account_set_nonce n (Wallet b m) = Wallet b n" "Account_set_nonce n (Contract c r m) = Contract c r n"
  "Account_nonce (Account_set_nonce n a) = n"
  by (cases a; simp)+

lemma spec_tx_seq_tx:
  assumes "distinct (touched tx)" "\<forall>a \<in> set (touched tx). upd a = None"
  shows "map_option ((++) acc) (spec_tx L deployed (\<lambda>a. Ok (acc a)) tx upd) = seq_tx L deployed tx (acc ++ upd)"
  using assms
  by (auto simp: spec_tx_def seq_tx_def seq_payload_def spec_credit_def seq_credit_def touched_def map_add_def Let_def
      fun_eq_iff split: option.splits account.splits transaction_payload.splits address.splits)

lemma spec_tx_dom:
  assumes "spec_tx L deployed stored tx upd = Some upd'"
  shows "dom upd' = dom upd \<union> set (touched tx)"
  using assms
  by (auto simp: spec_tx_def touched_def split: outcome.splits option.splits account.splits
      transaction_payload.splits address.splits if_splits)

lemma spec_txs_seq_txs:
  assumes "distinct (concat (map touched txs))" "set (concat (map touched txs)) \<inter> dom upd = {}"
  shows "map_option ((++) acc) (spec_txs L deployed (\<lambda>a. Ok (acc a)) txs upd) = seq_txs L deployed txs (acc ++ upd)"
  using assms
proof (induction txs arbitrary: upd)
  case (Cons tx txs)
  have "\<forall>a \<in> set (touched tx). upd a = None"
    using Cons.prems(2) by auto
  with Cons.prems(1) have step:
    "seq_tx L deployed tx (acc ++ upd) = map_option ((++) acc) (spec_tx L deployed (\<lambda>a. Ok (acc a)) tx upd)"
    by (simp add: spec_tx_seq_tx)
  show ?case
  proof (cases "spec_tx L deployed (\<lambda>a. Ok (acc a)) tx upd")
    case (Some u)
    have "set (concat (map touched txs)) \<inter> dom u = {}"
      using Cons.prems by (auto simp: spec_tx_dom [OF Some])
    with Cons.IH [of u] Cons.prems(1) Some step show ?thesis
      by simp
  qed (simp add: step)
qed simp

lemma spec_txs_dom:
  "spec_txs L deployed stored txs upd = Some upd' \<Longrightarrow> dom upd' = dom upd \<union> set (concat (map touched txs))"
proof (induction txs arbitrary: upd)
  case (Cons tx txs)
  then obtain u where u: "spec_tx L deployed stored tx upd = Some u" "spec_txs L deployed stored txs u = Some upd'"
    by (auto simp: bind_eq_Some_conv)
  show ?case
    using Cons.IH [OF u(2)] spec_tx_dom [OF u(1)] by auto
qed simp

text \<open>The accounts a storage holds, as a map.\<close>

definition stored_map :: "'s storage \<Rightarrow> 's \<Rightarrow> (public_key \<rightharpoonup> account)" where
  "stored_map T s a = (case get_account T a s of Ok found \<Rightarrow> found | _ \<Rightarrow> None)"

context sled_node
begin

lemma stored_map_typed:
  assumes "well_typed (view s)"
  shows "SledStorage_get_account L S std_handles a s = Ok (stored_map node s a)"
proof (cases "view s (Named_tree ''accounts'') (arr32_bytes (PublicKey_to_bytes a))")
  case (Some v)
  then obtain acc where "v = wire_ser (ser_Account acc)"
    using typed_entry [OF assms Some] by (auto simp: entry_ok_def)
  with Some show ?thesis
    by (simp add: stored_map_def SledStorage_get_account_def tree_get_ok decode_opt_def)
qed (simp add: stored_map_def SledStorage_get_account_def tree_get_ok decode_opt_def)

end

section \<open>Property\<close>

text \<open>
  C3: on a block in which no account occurs twice \<^verbatim>\<open>apply_block\<close> is the textbook ledger. On a typed
  database it succeeds exactly when the sequential ledger accepts the transactions one after the
  other, and then writes, for every account they touch, the account the sequential ledger
  arrives at; no other account changes in either. (Where an account does occur twice the two
  part: \<^verbatim>\<open>apply_block\<close> then mints and loses balances.)
\<close>

theorem apply_block_is_sequential:
  assumes "sled_node S view L" "well_typed (view s)" "distinct (concat (map touched (b_transactions b)))"
  shows "case seq_txs L (deploy_id L) (b_transactions b) (stored_map (SledStorage L S std_handles) s) of
      None \<Rightarrow> fst (apply_block_on L S b (s, cs)) \<noteq> Ok ()
    | Some A \<Rightarrow> \<exists>s'. apply_block_on L S b (s, cs) = (Ok (), (s', advance b cs)) \<and>
        (\<forall>a. if a \<in> set (concat (map touched (b_transactions b)))
             then view s' Default_tree (wire_ser (ser_PublicKey a)) = map_option (\<lambda>acc. wire_ser (ser_Account acc)) (A a)
             else A a = stored_map (SledStorage L S std_handles) s a \<and>
               view s' Default_tree (wire_ser (ser_PublicKey a)) = view s Default_tree (wire_ser (ser_PublicKey a)))"
proof -
  let ?node = "SledStorage L S std_handles" and ?txs = "b_transactions b"
  let ?acc = "stored_map ?node s"
  have stored: "(\<lambda>a. get_account ?node a s) = (\<lambda>a. Ok (?acc a))"
    using sled_node.stored_map_typed [OF assms(1,2)] by auto
  have seq: "seq_txs L (deploy_id L) ?txs ?acc =
      map_option ((++) ?acc) (spec_txs L (deploy_id L) (\<lambda>a. Ok (?acc a)) ?txs Map.empty)"
    using spec_txs_seq_txs [OF assms(3), of Map.empty ?acc L "deploy_id L"] by simp
  show ?thesis
  proof (cases "spec_txs L (deploy_id L) (\<lambda>a. Ok (?acc a)) ?txs Map.empty")
    case None
    obtain r s' cs' where run: "apply_block_on L S b (s, cs) = (r, (s', cs'))"
      by (metis prod.collapse)
    have "r \<noteq> Ok ()"
      using sled_node.apply_block_refused [OF assms(1) _ run] None stored by simp
    with None run seq show ?thesis
      by simp
  next
    case (Some upd)
    have dom: "dom upd = set (concat (map touched ?txs))"
      using spec_txs_dom [OF Some] by simp
    obtain s' where s': "apply_block_on L S b (s, cs) = (Ok (), (s', advance b cs))"
      "\<And>a. view s' Default_tree (wire_ser (ser_PublicKey a)) =
         (case upd a of Some acc \<Rightarrow> Some (wire_ser (ser_Account acc))
            | None \<Rightarrow> view s Default_tree (wire_ser (ser_PublicKey a)))"
      using sled_node.apply_block_default_tree [OF assms(1), of s b upd cs] Some stored by auto
    have "if a \<in> set (concat (map touched ?txs))
        then view s' Default_tree (wire_ser (ser_PublicKey a)) = map_option (\<lambda>acc. wire_ser (ser_Account acc)) ((?acc ++ upd) a)
        else (?acc ++ upd) a = ?acc a \<and>
          view s' Default_tree (wire_ser (ser_PublicKey a)) = view s Default_tree (wire_ser (ser_PublicKey a))" for a
      using s'(2) [of a] unfolding dom [symmetric] by (auto simp: domIff map_add_def split: option.split)
    with s'(1) show ?thesis
      by (simp add: seq Some)
  qed
qed

lemma mem_with_typed: "well_typed (mem_view (mem_with accs bs))"
  unfolding well_typed_def
  by (auto simp: mem_with_def mem_view_def empty_mem_def entry_ok_def dest!: map_of_SomeD split: if_splits)

lemma stored_map_mem_with [simp]: "stored_map (SledStorage ref_lib mem_sled std_handles) (mem_with accs bs) = map_of accs"
  by (simp add: stored_map_def fun_eq_iff)

theorem apply_block_is_sequential_witness:
  "\<exists>s'. apply_block_on ref_lib mem_sled
      (block_of [tx_from (PublicKey 7) (PublicKey 9) 30 1, tx_from (PublicKey 8) (PublicKey 6) 5 1])
      (mem_with [(PublicKey 7, Wallet 100 0), (PublicKey 8, Wallet 50 0)] [], state_at 1) =
      (Ok (), (s', advance (block_of [tx_from (PublicKey 7) (PublicKey 9) 30 1, tx_from (PublicKey 8) (PublicKey 6) 5 1])
        (state_at 1))) \<and>
    mem_view s' Default_tree (wire_ser (ser_PublicKey (PublicKey 8))) = Some (wire_ser (ser_Account (Wallet 45 1)))"
proof -
  let ?txs = "[tx_from (PublicKey 7) (PublicKey 9) 30 1, tx_from (PublicKey 8) (PublicKey 6) 5 1]"
  let ?accs = "[(PublicKey 7, Wallet 100 0), (PublicKey 8, Wallet 50 0)]"
  have touched: "concat (map touched ?txs) = [PublicKey 7, PublicKey 9, PublicKey 8, PublicKey 6]"
    by (simp add: touched_def)
  have seq: "\<exists>A. seq_txs ref_lib (deploy_id ref_lib) ?txs (map_of ?accs) = Some A \<and> A (PublicKey 8) = Some (Wallet 45 1)"
    by (simp add: seq_tx_def seq_payload_def seq_credit_def Let_def)
  have "distinct (concat (map touched (b_transactions (block_of ?txs))))"
    unfolding block_of_simps touched by simp
  from apply_block_is_sequential [OF mem_node.sled_node_axioms, OF mem_with_typed, OF this, of ?accs "[]" "state_at 1"] seq
  show ?thesis
    unfolding block_of_simps stored_map_mem_with touched by (auto dest: spec [of _ "PublicKey 8"])
qed

end
