(* ===== verification/Baals_Index.thy ===== *)
theory Baals_Index
  imports Baals_Ledger_Claims "HOL-Library.Multiset"
begin

text \<open>
  The index of a block's transactions (\<^verbatim>\<open>index_transaction\<close>, \<^verbatim>\<open>get_transactions_by_block\<close>): which keys
  it holds, how they sort, and in which order the transactions of a block are found again.
\<close>

section \<open>How the keys sort\<close>

lemma less_append: "length xs = length ys \<Longrightarrow> xs < ys \<Longrightarrow> xs @ us < ys @ (vs :: 'a::linorder list)"
  by (induction xs ys rule: list_induct2) auto

definition hex_byte :: "nat \<Rightarrow> u8" where
  "hex_byte d = word_of_nat (of_char (hex_digit d))"

lemma hex_byte_less:
  assumes "c < 16" "d < 16"
  shows "hex_byte c < hex_byte d \<longleftrightarrow> c < d"
proof -
  have "unat (hex_byte e) = (if e < 10 then 48 + e else 87 + e)" if "e < 16" for e
    unfolding hex_byte_def hex_digit_def by (subst unat_of_nat) (use that in simp)
  with assms show ?thesis
    by (simp add: word_less_nat_alt)
qed

lemma utf8_hex:
  assumes "hex_documented L"
  shows "utf8 (hex_encode L []) = []"
    "utf8 (hex_encode L (b # bs)) = hex_byte (unat b div 16) # hex_byte (unat b mod 16) # utf8 (hex_encode L bs)"
  using assms by (simp_all add: hex_documented_def utf8_def hex_byte_def)

lemma hex_less:
  assumes "hex_documented L" "length bs = length cs" "bs < cs"
  shows "utf8 (hex_encode L bs) < utf8 (hex_encode L cs)"
  using assms(2,3)
proof (induction bs cs rule: list_induct2)
  case (Cons b bs c cs)
  have digits: "unat b div 16 < 16" "unat c div 16 < 16"
    using unat_bound [of b] unat_bound [of c] by (simp_all add: div_less_iff_less_mult)
  have "unat b div 16 < unat c div 16 \<or> unat b div 16 = unat c div 16 \<and> unat b mod 16 < unat c mod 16" if "b < c"
    using that div_le_mono [of "unat b" "unat c" 16] div_mult_mod_eq [of "unat b" 16] div_mult_mod_eq [of "unat c" 16]
    unfolding word_less_nat_alt by linarith
  with Cons digits show ?case
    by (auto simp: utf8_hex [OF assms(1)] hex_byte_less)
qed simp

lemma tx_index_digits: "pad0 10 (unat (i :: u32)) = dec_fixed 10 (unat i)"
proof -
  have "unat i < 10 ^ 10"
    using unat_bound [of i] by (rule order.strict_trans2) simp
  then show ?thesis
    by (simp add: pad0_fixed)
qed

lemma dec_fixed_inject:
  assumes "m < 10 ^ k" "n < 10 ^ k"
  shows "dec_fixed k m = dec_fixed k n \<longleftrightarrow> m = n"
  using dec_fixed_less [of m n k] dec_fixed_less [of n m k] assms by (cases m n rule: linorder_cases) auto

lemma block_tx_key_less:
  assumes "hex_documented L" "arr32_bytes h < arr32_bytes h'"
  shows "block_tx_key L b h i < block_tx_key L b h' j"
proof -
  have "utf8 (hex_encode L (arr32_bytes h)) @ x < utf8 (hex_encode L (arr32_bytes h')) @ y" for x y
    using hex_less [OF assms(1) _ assms(2)] by (intro less_append) (simp_all add: hex_length [OF assms(1)])
  then show ?thesis
    unfolding block_tx_key_def utf8_append prefix_less .
qed

lemma block_tx_key_inject:
  assumes "hex_documented L"
  shows "block_tx_key L b h i = block_tx_key L b h' j \<longleftrightarrow> h = h' \<and> i = j"
proof -
  have len: "length (hex_encode L (arr32_bytes h)) = 64" for h
    using hex_length [OF assms] by simp
  have bound: "unat (k :: u32) < 10 ^ 10" for k
    using unat_bound [of k] by (rule order.strict_trans2) simp
  have "block_tx_key L b h i = block_tx_key L b h' j \<longleftrightarrow>
      hex_encode L (arr32_bytes h) = hex_encode L (arr32_bytes h') \<and> dec_fixed 10 (unat i) = dec_fixed 10 (unat j)"
    by (simp add: block_tx_key_def tx_index_digits len)
  then show ?thesis
    using bound by (simp add: hex_encode_inject [OF assms] dec_fixed_inject word_unat_eq_iff)
qed

section \<open>What the index of a block holds\<close>

definition index_entries :: "lib \<Rightarrow> block \<Rightarrow> (bytes \<times> bytes) list" where
  "index_entries L b = map (\<lambda>(i, tx). (block_tx_key L (b_hash b) (t_hash tx) (word_of_nat i), arr32_bytes (t_hash tx)))
     (enumerate 0 (b_transactions b))"

lemma index_entries_distinct:
  assumes "hex_documented L" "length (b_transactions b) \<le> 2 ^ 32"
  shows "distinct (map fst (index_entries L b))"
proof -
  have index: "i = j" if "i < length (b_transactions b)" "j < length (b_transactions b)"
    "(word_of_nat i :: u32) = word_of_nat j" for i j
  proof -
    have "unat (word_of_nat i :: u32) = unat (word_of_nat j :: u32)"
      using that(3) by simp
    then show ?thesis
      using that(1,2) assms(2) by (simp add: unat_of_nat)
  qed
  show ?thesis
    by (auto simp: index_entries_def distinct_map inj_on_def in_set_enumerate_eq block_tx_key_inject [OF assms(1)]
        dest: index)
qed

lemma index_entries_values: "map snd (index_entries L b) = map (arr32_bytes \<circ> t_hash) (b_transactions b)"
  by (intro nth_equalityI) (simp_all add: index_entries_def nth_enumerate_eq)

lemma fold_puts: "fold (\<lambda>(k, v) m. m(k \<mapsto> v)) es m = m ++ map_of (rev es)"
  by (induction es arbitrary: m) (auto simp: fun_eq_iff map_add_def split: option.split)

text \<open>The hashes of a block in the order of their bytes.\<close>

definition hash_order :: "block \<Rightarrow> arr32 list" where
  "hash_order b = sort_key arr32_bytes (map t_hash (b_transactions b))"

lemma hash_order_sorts: "sort (map (arr32_bytes \<circ> t_hash) (b_transactions b)) = map arr32_bytes (hash_order b)"
  unfolding hash_order_def by (intro properties_for_sort) (simp_all add: image_mset.compositionality)

text \<open>Entries in the order of their keys are in the order of their hashes.\<close>

lemma index_entries_order:
  assumes "hex_documented L" "set kvs = set (index_entries L b)" "sorted_wrt (<) (map fst kvs)"
  shows "sorted (map snd kvs)"
proof -
  have "snd x \<le> snd y" if "x \<in> set kvs" "y \<in> set kvs" "fst x < fst y" for x y
  proof (rule ccontr)
    assume "\<not> snd x \<le> snd y"
    with that(1,2) have "fst y < fst x"
      unfolding assms(2) index_entries_def
      by (auto simp: not_le dest!: in_set_enumerate_eq [THEN iffD1] intro: block_tx_key_less [OF assms(1)])
    with that(3) show False
      by simp
  qed
  then have "sorted_wrt (\<lambda>x y. snd x \<le> snd y) kvs"
    using assms(3) unfolding sorted_wrt_map by (rule sorted_wrt_mono_rel)
  then show ?thesis
    by (simp add: sorted_map)
qed

text \<open>The loop of \<^verbatim>\<open>get_transactions_by_block\<close> reads the transactions in the order of the scan.\<close>

lemma by_block_loop_reads:
  "map snd kvs = map arr32_bytes hs \<Longrightarrow>
   by_block_loop L S self s (map Ok kvs) txs =
     bind_o (map_o (\<lambda>h. SledStorage_get_transaction L S self h s) hs) (\<lambda>found. Ok (txs @ List.map_filter id found))"
proof (induction kvs arbitrary: hs txs)
  case Nil
  then show ?case
    by (simp add: map_filter_simps)
next
  case (Cons kv kvs)
  then obtain h hs' where hs: "hs = h # hs'" "snd kv = arr32_bytes h" "map snd kvs = map arr32_bytes hs'"
    by (cases hs) auto
  show ?case
  proof (cases "SledStorage_get_transaction L S self h s")
    case (Ok found)
    then show ?thesis
      using Cons.IH [OF hs(3)] hs(1,2)
      by (cases "map_o (\<lambda>h. SledStorage_get_transaction L S self h s) hs'"; cases found)
        (simp_all add: case_prod_unfold map_filter_simps)
  qed (simp_all add: hs(1,2) case_prod_unfold)
qed

context sled_node
begin

lemma index_entries_written:
  "\<exists>s'. index_transactions node b s = (Ok (), s') \<and>
    view s' (Named_tree ''tx_by_block'') = view s (Named_tree ''tx_by_block'') ++ map_of (rev (index_entries L b))"
proof -
  let ?f = "\<lambda>(i, tx). storage_err (index_transaction node (t_hash tx) (b_hash b) (word_of_nat i))"
  let ?e = "\<lambda>(i, tx). (block_tx_key L (b_hash b) (t_hash tx) (word_of_nat i), arr32_bytes (t_hash tx))"
  have "\<exists>s'. for_each ?f xs s = (Ok (), s') \<and> view s' (Named_tree ''tx_by_block'') =
      fold (\<lambda>(k, v) m. m(k \<mapsto> v)) (map ?e xs) (view s (Named_tree ''tx_by_block''))" for xs
  proof (induction xs arbitrary: s)
    case Nil
    show ?case by (simp add: prog_simps)
  next
    case (Cons x xs)
    obtain i tx where x: "x = (i, tx)"
      by (rule prod.exhaust)
    let ?k = "block_tx_key L (b_hash b) (t_hash tx) (word_of_nat i)"
    obtain s1 where s1: "tree_insert S (Named_tree ''tx_by_block'') ?k (arr32_bytes (t_hash tx)) s = (Ok (), s1)"
      "view s1 = (view s)(Named_tree ''tx_by_block'' := (view s (Named_tree ''tx_by_block''))(?k \<mapsto> arr32_bytes (t_hash tx)))"
      using tree_insert_ok by blast
    then have "?f x s = (Ok (), s1)"
      by (simp add: x storage_err_def SledStorage_index_transaction_def map_err_def)
    with Cons.IH [of s1] s1(2) show ?case
      by (simp add: prog_simps x)
  qed
  then show ?thesis
    unfolding index_transactions_def fold_puts index_entries_def by blast
qed

lemma index_scan:
  assumes "length (b_transactions b) \<le> 2 ^ 32"
    and "view s (Named_tree ''tx_by_block'') = m ++ map_of (rev (index_entries L b))"
    and "\<And>k. prefix (block_tx_prefix L (b_hash b)) k \<Longrightarrow> m k = None"
  shows "\<exists>kvs. sled_scan_prefix S (Named_tree ''tx_by_block'') (block_tx_prefix L (b_hash b)) s = map Ok kvs \<and>
    map snd kvs = map arr32_bytes (hash_order b)"
proof -
  let ?es = "index_entries L b"
  obtain kvs where kvs: "sled_scan_prefix S (Named_tree ''tx_by_block'') (block_tx_prefix L (b_hash b)) s = map Ok kvs"
      "sorted_wrt (<) (map fst kvs)"
      "set kvs = {(k, v). view s (Named_tree ''tx_by_block'') k = Some v \<and> prefix (block_tx_prefix L (b_hash b)) k}"
    by (rule scan_items)
  have distinct: "distinct (map fst ?es)"
    by (rule index_entries_distinct [OF hex assms(1)])
  have own: "prefix (block_tx_prefix L (b_hash b)) k" if "(k, v) \<in> set ?es" for k v
    using that by (auto simp: index_entries_def block_tx_prefix_key [OF hex])
  have "map_of (rev ?es) k = Some v \<longleftrightarrow> (k, v) \<in> set ?es" for k v
    using distinct by (subst map_of_eq_Some_iff) (simp_all add: rev_map [symmetric])
  then have same: "set kvs = set ?es"
    unfolding kvs(3) assms(2) using own assms(3) by (auto simp: map_add_Some_iff)
  have "mset kvs = mset ?es"
    using same kvs(2) distinct by (intro set_eq_iff_mset_eq_distinct [THEN iffD1]) (auto simp: strict_sorted_iff distinct_map)
  then have "mset (map snd kvs) = mset (map (arr32_bytes \<circ> t_hash) (b_transactions b))"
    by (metis index_entries_values mset_map)
  moreover have "sorted (map snd kvs)"
    using hex same kvs(2) by (rule index_entries_order)
  ultimately have "sort (map (arr32_bytes \<circ> t_hash) (b_transactions b)) = map snd kvs"
    by (rule properties_for_sort)
  moreover have "sort (map (arr32_bytes \<circ> t_hash) (b_transactions b)) = map arr32_bytes (hash_order b)"
    by (rule hash_order_sorts)
  ultimately show ?thesis
    using kvs(1) by metis
qed

end

section \<open>Property\<close>

text \<open>
  C21: the index of a block lists exactly its transactions, in the order of their hashes. When the
  transactions of a new block are indexed, \<^verbatim>\<open>get_transactions_by_block\<close> is the list of what
  \<^verbatim>\<open>get_transaction\<close> finds for their hashes, each as often as it occurs, sorted by hash and not in
  block order, or the first error of those lookups.
\<close>

theorem block_index_in_hash_order:
  assumes "sled_node S view L" "length (b_transactions b) \<le> 2 ^ 32"
    and "\<forall>k. prefix (block_tx_prefix L (b_hash b)) k \<longrightarrow> view s (Named_tree ''tx_by_block'') k = None"
  defines "node \<equiv> SledStorage L S std_handles"
  shows "\<exists>s'. index_transactions node b s = (Ok (), s') \<and>
    get_transactions_by_block node (b_hash b) s' =
      bind_o (map_o (\<lambda>h. get_transaction node h s') (hash_order b)) (\<lambda>found. Ok (List.map_filter id found))"
proof -
  obtain s' where s': "index_transactions node b s = (Ok (), s')"
      "view s' (Named_tree ''tx_by_block'') = view s (Named_tree ''tx_by_block'') ++ map_of (rev (index_entries L b))"
    using sled_node.index_entries_written [OF assms(1)] unfolding node_def by blast
  have "\<exists>kvs. sled_scan_prefix S (Named_tree ''tx_by_block'') (block_tx_prefix L (b_hash b)) s' = map Ok kvs \<and>
      map snd kvs = map arr32_bytes (hash_order b)"
    using assms(1,2) s'(2) by (rule sled_node.index_scan) (simp add: assms(3))
  then obtain kvs where "sled_scan_prefix S (Named_tree ''tx_by_block'') (block_tx_prefix L (b_hash b)) s' = map Ok kvs"
      and hashes: "map snd kvs = map arr32_bytes (hash_order b)"
    by blast
  with by_block_loop_reads [OF hashes, of L S std_handles s' "[]"] s'(1) show ?thesis
    by (simp add: node_def SledStorage_get_transactions_by_block_def)
qed

theorem block_index_in_hash_order_witness:
  "\<exists>s'. index_transactions (SledStorage ref_lib mem_sled std_handles)
      (block_of [sample_tx\<lparr>t_hash := 9\<rparr>, sample_tx\<lparr>t_hash := 4\<rparr>]) empty_mem = (Ok (), s') \<and>
    get_transactions_by_block (SledStorage ref_lib mem_sled std_handles)
      (b_hash (block_of [sample_tx\<lparr>t_hash := 9\<rparr>, sample_tx\<lparr>t_hash := 4\<rparr>])) s' =
      bind_o (map_o (\<lambda>h. get_transaction (SledStorage ref_lib mem_sled std_handles) h s') [4, 9])
        (\<lambda>found. Ok (List.map_filter id found))"
proof -
  let ?b = "block_of [sample_tx\<lparr>t_hash := 9\<rparr>, sample_tx\<lparr>t_hash := 4\<rparr>]"
  have "arr32_bytes 4 < arr32_bytes 9"
    by code_simp
  then have "hash_order ?b = [4, 9]"
    by (simp add: hash_order_def)
  with block_index_in_hash_order [OF mem_node.sled_node_axioms, of ?b empty_mem] show ?thesis
    by (simp add: mem_view_def empty_mem_def)
qed

end
