(* ===== verification/Baals_Threads.thy ===== *)
theory Baals_Threads
  imports Baals_Runtime "HOL-Library.Multiset"
begin

text \<open>
  Calls of \<^verbatim>\<open>Runtime\<close> from several threads. Each call is followed from one lock, storage call or
  unlock to the next (\<open>thread_step\<close>), and the threads of a node interleave in any way (\<open>system_step\<close>):
  a thread that waits for a held mutex does not move. A thread that runs alone is the call of
  \<open>Baals_Runtime\<close>.
\<close>

section \<open>Threads\<close>

datatype reply = Submitted | Produced block | Answered chain_state

text \<open>
  Where a call is. \<open>S\<close>: \<^verbatim>\<open>submit_transaction\<close>, \<open>P\<close>: \<^verbatim>\<open>produce_block\<close>, \<open>Q\<close>: \<^verbatim>\<open>get_chain_state\<close>; a name
  says what the thread does next.
\<close>

datatype thread =
    S_verify transaction
  | S_lock_chain transaction
  | S_account transaction
  | S_lock_mempool transaction
  | S_push transaction
  | P_lock_mempool
  | P_pending
  | P_lock_chain "transaction list"
  | P_generate "transaction list"
  | P_drop_mempool block
  | P_relock_chain block
  | P_apply block
  | P_relock_mempool block
  | P_clear block
  | Q_lock_chain
  | Q_read
  | Finished "(reply, runtime_error) outcome"

text \<open>The guards alive at each place.\<close>

fun holds_chain :: "thread \<Rightarrow> bool" where
  "holds_chain (S_account tx) = True" | "holds_chain (S_lock_mempool tx) = True" | "holds_chain (S_push tx) = True"
| "holds_chain (P_generate txs) = True" | "holds_chain (P_drop_mempool b) = True"
| "holds_chain (P_relock_chain b) = True" | "holds_chain (P_apply b) = True"
| "holds_chain (P_relock_mempool b) = True" | "holds_chain (P_clear b) = True"
| "holds_chain Q_read = True" | "holds_chain _ = False"

fun holds_mempool :: "thread \<Rightarrow> bool" where
  "holds_mempool (S_push tx) = True" | "holds_mempool P_pending = True" | "holds_mempool (P_lock_chain txs) = True"
| "holds_mempool (P_generate txs) = True" | "holds_mempool (P_drop_mempool b) = True"
| "holds_mempool (P_clear b) = True" | "holds_mempool _ = False"

text \<open>Leaving the call from place \<open>t\<close>: the guards alive there are dropped.\<close>

definition leave :: "thread \<Rightarrow> (reply, runtime_error) outcome \<Rightarrow> 's runtime \<Rightarrow> thread \<times> 's runtime" where
  "leave t r = (\<lambda>(s, c).
     let c = (if holds_chain t then drop_chain_state (r = Panic) c else c);
         c = (if holds_mempool t then drop_mempool (r = Panic) c else c)
     in (Finished r, (s, c)))"

text \<open>One action at place \<open>t\<close>: a failure leaves the call, an action that does not return leaves the thread where it is.\<close>

definition act ::
    "thread \<Rightarrow> ('s runtime, 'a, runtime_error) prog \<Rightarrow> ('a \<Rightarrow> 's runtime \<Rightarrow> thread \<times> 's runtime) \<Rightarrow>
     's runtime \<Rightarrow> (thread \<times> 's runtime) option" where
  "act t m next st = (case m st of
       (Ok a, st') \<Rightarrow> Some (next a st')
     | (Err e, st') \<Rightarrow> Some (leave t (Err e) st')
     | (Panic, st') \<Rightarrow> Some (leave t Panic st')
     | (Hang, st') \<Rightarrow> None)"

definition generate_next ::
    "'s storage \<Rightarrow> consensus_engine \<Rightarrow> transaction list \<Rightarrow> ('s runtime, block, runtime_error) prog" where
  "generate_next T C txs =
     then_do (reads (\<lambda>st. Ok (the_chain_state st))) (\<lambda>current_chain_state.
     then_do (storage_call (get_block T (latest_block_hash current_chain_state))) (\<lambda>found.
     case found of
       None \<Rightarrow> fail (RE_StorageError SE_NotFound)
     | Some prev_block \<Rightarrow> lift (map_err_o RE_ConsensusError (generate_block C txs prev_block current_chain_state))))"

definition validate_and_apply ::
    "lib \<Rightarrow> 's storage \<Rightarrow> 's contract_engine \<Rightarrow> block \<Rightarrow> ('s runtime, unit, runtime_error) prog" where
  "validate_and_apply L T E new_block =
     then_do (reads (\<lambda>st. map_err_o RE_LedgerError
       (Ledger_validate_block L T new_block (the_chain_state st) (fst st)))) (\<lambda>_.
     then_do (apply_guarded L T E new_block) (\<lambda>_.
     modify (map_prod id (\<lambda>c. c\<lparr>rt_spawned := rt_spawned c @ [new_block]\<rparr>))))"

definition clear_mempool :: "runtime_cells \<Rightarrow> runtime_cells" where
  "clear_mempool c = c\<lparr>rt_mempool := (rt_mempool c)\<lparr>m_value := []\<rparr>\<rparr>"

primrec thread_step ::
    "lib \<Rightarrow> 's storage \<Rightarrow> 's contract_engine \<Rightarrow> consensus_engine \<Rightarrow> thread \<Rightarrow> 's runtime \<Rightarrow>
     (thread \<times> 's runtime) option" where
  "thread_step L T E C (S_verify tx) =
     act (S_verify tx) (lift (map_err_o RE_CryptoError (Transaction_verify_signature L tx))) (\<lambda>valid.
     if \<not> valid then leave (S_verify tx) (Err (RE_InvalidTransaction ''Invalid transaction signature''))
     else Pair (S_lock_chain tx))"
| "thread_step L T E C (S_lock_chain tx) = act (S_lock_chain tx) lock_chain_state (\<lambda>_. Pair (S_account tx))"
| "thread_step L T E C (S_account tx) =
     act (S_account tx) (storage_call (get_account T (t_sender tx))) (\<lambda>found.
     let sender_account = (case found of None \<Rightarrow> Wallet 0 0 | Some a \<Rightarrow> a) in
     if t_nonce tx \<le> Account_nonce sender_account
     then leave (S_account tx) (Err (RE_InvalidTransaction (''Invalid nonce: expected greater than '' @
       show_dec (unat (Account_nonce sender_account)) @ '', got '' @ show_dec (unat (t_nonce tx)))))
     else Pair (S_lock_mempool tx))"
| "thread_step L T E C (S_lock_mempool tx) = act (S_lock_mempool tx) lock_mempool (\<lambda>_. Pair (S_push tx))"
| "thread_step L T E C (S_push tx) =
     act (S_push tx) (modify (map_prod id (push_mempool tx))) (\<lambda>_. leave (S_push tx) (Ok Submitted))"
| "thread_step L T E C P_lock_mempool = act P_lock_mempool lock_mempool (\<lambda>_. Pair P_pending)"
| "thread_step L T E C P_pending =
     act P_pending (reads (\<lambda>st. Ok (mempool st))) (\<lambda>txs.
     if txs = [] then leave P_pending (Err (RE_ConsensusError CO_NoPendingTransactions)) else Pair (P_lock_chain txs))"
| "thread_step L T E C (P_lock_chain txs) = act (P_lock_chain txs) lock_chain_state (\<lambda>_. Pair (P_generate txs))"
| "thread_step L T E C (P_generate txs) =
     act (P_generate txs) (generate_next T C txs) (\<lambda>new_block. Pair (P_drop_mempool new_block))"
| "thread_step L T E C (P_drop_mempool b) =
     act (P_drop_mempool b) (modify (map_prod id (drop_mempool False))) (\<lambda>_. Pair (P_relock_chain b))"
| "thread_step L T E C (P_relock_chain b) = act (P_relock_chain b) lock_chain_state (\<lambda>_. Pair (P_apply b))"
| "thread_step L T E C (P_apply b) =
     act (P_apply b) (validate_and_apply L T E b) (\<lambda>_. Pair (P_relock_mempool b))"
| "thread_step L T E C (P_relock_mempool b) = act (P_relock_mempool b) lock_mempool (\<lambda>_. Pair (P_clear b))"
| "thread_step L T E C (P_clear b) =
     act (P_clear b) (modify (map_prod id clear_mempool)) (\<lambda>_. leave (P_clear b) (Ok (Produced b)))"
| "thread_step L T E C Q_lock_chain = act Q_lock_chain lock_chain_state (\<lambda>_. Pair Q_read)"
| "thread_step L T E C Q_read =
     act Q_read (reads (\<lambda>st. Ok (the_chain_state st))) (\<lambda>cs. leave Q_read (Ok (Answered cs)))"
| "thread_step L T E C (Finished r) = (\<lambda>st. None)"

section \<open>A thread alone\<close>

text \<open>At most \<open>n\<close> actions of one thread, with nobody else on the node.\<close>

primrec run_alone ::
    "lib \<Rightarrow> 's storage \<Rightarrow> 's contract_engine \<Rightarrow> consensus_engine \<Rightarrow> nat \<Rightarrow> thread \<Rightarrow> 's runtime \<Rightarrow>
     thread \<times> 's runtime" where
  "run_alone L T E C 0 t st = (t, st)"
| "run_alone L T E C (Suc n) t st = (case thread_step L T E C t st of
       None \<Rightarrow> (t, st)
     | Some (t', st') \<Rightarrow> run_alone L T E C n t' st')"

text \<open>What a caller gets from a thread: its result, or no answer.\<close>

fun result_of :: "thread \<Rightarrow> (reply, runtime_error) outcome" where
  "result_of (Finished r) = r"
| "result_of _ = Hang"

definition reply_of :: "('a \<Rightarrow> reply) \<Rightarrow> ('a, 'e) outcome \<Rightarrow> (reply, 'e) outcome" where
  "reply_of f r = bind_o r (\<lambda>a. Ok (f a))"

lemmas thread_defs = act_def leave_def generate_next_def validate_and_apply_def clear_mempool_def reply_of_def
  runtime_defs

lemma runtime_cases:
  obtains s v h p v' h' p' running spawned where
    "st = (s, \<lparr>rt_mempool = \<lparr>m_value = v, m_held = h, m_poisoned = p\<rparr>,
       rt_chain_state = \<lparr>m_value = v', m_held = h', m_poisoned = p'\<rparr>,
       rt_is_running = running, rt_spawned = spawned\<rparr>)"
proof -
  obtain s mp csm running spawned where st: "st = (s, \<lparr>rt_mempool = mp, rt_chain_state = csm,
      rt_is_running = running, rt_spawned = spawned\<rparr>)"
    by (cases st; cases "snd st") auto
  show thesis
    by (cases mp; cases csm) (simp add: st that)
qed

lemma submit_alone:
  "map_prod result_of id (run_alone L T E C 5 (S_verify tx) st) =
   map_prod (reply_of (\<lambda>_. Submitted)) id (Runtime_submit_transaction L T tx st)"
proof (cases st rule: runtime_cases)
  case (1 s v h p v' h' p' running spawned)
  show ?thesis
    by (cases "Transaction_verify_signature L tx"; cases "get_account T (t_sender tx) s"; cases h; cases h'; cases p; cases p')
      (auto simp: 1 numeral_eq_Suc Runtime_submit_transaction_def thread_defs push_mempool_def split: option.split)
qed

lemma produce_alone:
  "map_prod result_of id (run_alone L T E C 9 P_lock_mempool st) =
   map_prod (reply_of Produced) id (Runtime_produce_block L T E C st)"
proof (cases st rule: runtime_cases)
  case (1 s v h p v' h' p' running spawned)
  note defs = numeral_eq_Suc Runtime_produce_block_def thread_defs produce_tail_held mempool_def the_chain_state_def
  show ?thesis
  proof (cases "h \<or> p \<or> v = [] \<or> h' \<or> p'")
    case True
    then show ?thesis
      by (cases h; cases p; cases "v = []"; cases h'; cases p') (simp_all add: 1 defs)
  next
    case False
    show ?thesis
    proof (cases "get_block T (latest_block_hash v') s")
      case (Ok found)
      show ?thesis
      proof (cases found)
        case (Some prev)
        show ?thesis
          by (cases "generate_block C v prev v'") (use False in \<open>simp_all add: 1 Ok Some defs\<close>)
      qed (use False in \<open>simp add: 1 Ok defs\<close>)
    qed (use False in \<open>simp_all add: 1 defs\<close>)
  qed
qed

lemma query_alone:
  "map_prod result_of id (run_alone L T E C 2 Q_lock_chain st) =
   map_prod (reply_of Answered) id (Runtime_get_chain_state st)"
proof (cases st rule: runtime_cases)
  case (1 s v h p v' h' p' running spawned)
  show ?thesis
    by (cases h; cases h'; cases p')
      (simp_all add: 1 numeral_eq_Suc Runtime_get_chain_state_def thread_defs the_chain_state_def)
qed

section \<open>Threads together\<close>

inductive system_step ::
    "lib \<Rightarrow> 's storage \<Rightarrow> 's contract_engine \<Rightarrow> consensus_engine \<Rightarrow>
     thread list \<times> 's runtime \<Rightarrow> thread list \<times> 's runtime \<Rightarrow> bool"
  for L T E C where
  move: "i < length ts \<Longrightarrow> thread_step L T E C (ts ! i) st = Some (t', st') \<Longrightarrow>
    system_step L T E C (ts, st) (ts[i := t'], st')"

inductive_cases system_stepE: "system_step L T E C x y"

text \<open>Places a call starts from.\<close>

fun starting :: "thread \<Rightarrow> bool" where
  "starting (S_verify tx) = True" | "starting P_lock_mempool = True" | "starting Q_lock_chain = True"
| "starting _ = False"

text \<open>
  The places a call can be at, by the place it started from: a submission past its first check
  carries a verified transaction, and no production gets past its second lock of the chain state.
\<close>

fun place_of :: "lib \<Rightarrow> thread \<Rightarrow> thread \<Rightarrow> bool" where
  "place_of L (S_verify tx) t = (case t of
       S_verify tx' \<Rightarrow> tx' = tx
     | S_lock_chain tx' \<Rightarrow> tx' = tx \<and> Transaction_verify_signature L tx = Ok True
     | S_account tx' \<Rightarrow> tx' = tx \<and> Transaction_verify_signature L tx = Ok True
     | S_lock_mempool tx' \<Rightarrow> tx' = tx \<and> Transaction_verify_signature L tx = Ok True
     | S_push tx' \<Rightarrow> tx' = tx \<and> Transaction_verify_signature L tx = Ok True
     | Finished r \<Rightarrow> r = Ok Submitted \<longrightarrow> Transaction_verify_signature L tx = Ok True
     | _ \<Rightarrow> False)"
| "place_of L P_lock_mempool t = (case t of
       P_lock_mempool \<Rightarrow> True | P_pending \<Rightarrow> True | P_lock_chain txs \<Rightarrow> True | P_generate txs \<Rightarrow> True
     | P_drop_mempool b \<Rightarrow> True | P_relock_chain b \<Rightarrow> True
     | Finished r \<Rightarrow> \<forall>x. r \<noteq> Ok x
     | _ \<Rightarrow> False)"
| "place_of L Q_lock_chain t = (case t of Q_lock_chain \<Rightarrow> True | Q_read \<Rightarrow> True | Finished r \<Rightarrow> True | _ \<Rightarrow> False)"
| "place_of L t0 t = False"

text \<open>The transaction a finished submission has added.\<close>

fun accepted :: "thread \<Rightarrow> thread \<Rightarrow> transaction multiset" where
  "accepted (S_verify tx) (Finished (Ok Submitted)) = {#tx#}"
| "accepted _ _ = {#}"

text \<open>A mutex is held exactly when one thread holds its guard, and then by that one only.\<close>

definition guards_ok :: "thread list \<Rightarrow> 's runtime \<Rightarrow> bool" where
  "guards_ok ts st \<longleftrightarrow>
     length (filter holds_chain ts) = (if m_held (rt_chain_state (snd st)) then 1 else 0) \<and>
     length (filter holds_mempool ts) = (if m_held (rt_mempool (snd st)) then 1 else 0)"

text \<open>How one action changes a guard.\<close>

definition guard_change :: "bool \<Rightarrow> bool \<Rightarrow> bool \<Rightarrow> bool \<Rightarrow> bool" where
  "guard_change mine held mine' held' \<longleftrightarrow>
     mine' = mine \<and> held' = held \<or> \<not> mine \<and> \<not> held \<and> mine' \<and> held' \<or> mine \<and> \<not> mine' \<and> \<not> held'"

text \<open>What no action changes.\<close>

definition standing :: "'s runtime \<Rightarrow> 's \<times> chain_state \<times> block list" where
  "standing st = (fst st, the_chain_state st, rt_spawned (snd st))"

lemma thread_step_effect:
  assumes "thread_step L T E C t st = Some (t', st')" "place_of L t0 t"
    and "holds_chain t \<Longrightarrow> m_held (rt_chain_state (snd st))" "holds_mempool t \<Longrightarrow> m_held (rt_mempool (snd st))"
  shows "place_of L t0 t'"
    "guard_change (holds_chain t) (m_held (rt_chain_state (snd st))) (holds_chain t') (m_held (rt_chain_state (snd st')))"
    "guard_change (holds_mempool t) (m_held (rt_mempool (snd st))) (holds_mempool t') (m_held (rt_mempool (snd st')))"
    "standing st' = standing st"
    "\<exists>new. mempool st' = mempool st @ new \<and> accepted t0 t' = accepted t0 t + mset new"
proof -
  have "place_of L t0 t' \<and>
    guard_change (holds_chain t) (m_held (rt_chain_state (snd st))) (holds_chain t') (m_held (rt_chain_state (snd st'))) \<and>
    guard_change (holds_mempool t) (m_held (rt_mempool (snd st))) (holds_mempool t') (m_held (rt_mempool (snd st'))) \<and>
    standing st' = standing st \<and>
    (\<exists>new. mempool st' = mempool st @ new \<and> accepted t0 t' = accepted t0 t + mset new)"
  proof (cases st rule: runtime_cases)
    case (1 s v h p v' h' p' running spawned)
    note defs = 1 thread_defs push_mempool_def guard_change_def mempool_def the_chain_state_def standing_def
    from assms(2) consider tx where "t0 = S_verify tx" | "t0 = P_lock_mempool" | "t0 = Q_lock_chain"
      by (cases t0) simp_all
    then show ?thesis
    proof cases
      case t0: (1 tx)
      from assms show ?thesis
        by (cases t) (auto simp: t0 defs split: outcome.splits prod.splits if_splits option.splits)
    next
      case t0: 2
      from assms show ?thesis
        by (cases t) (auto simp: t0 defs split: outcome.splits prod.splits if_splits option.splits)
    next
      case t0: 3
      from assms show ?thesis
        by (cases t) (auto simp: t0 defs split: outcome.splits prod.splits if_splits option.splits)
    qed
  qed
  then show "place_of L t0 t'"
    "guard_change (holds_chain t) (m_held (rt_chain_state (snd st))) (holds_chain t') (m_held (rt_chain_state (snd st')))"
    "guard_change (holds_mempool t) (m_held (rt_mempool (snd st))) (holds_mempool t') (m_held (rt_mempool (snd st')))"
    "standing st' = standing st"
    "\<exists>new. mempool st' = mempool st @ new \<and> accepted t0 t' = accepted t0 t + mset new"
    by blast+
qed

end
