(* ===== verification/Baals_Interleaving.thy ===== *)
theory Baals_Interleaving
  imports Baals_Threads Baals_Returns
begin

text \<open>
  What holds of every interleaving of the calls of \<open>Baals_Threads\<close>: mutual exclusion and the mempool by
  induction over \<open>system_step\<close>, an upper bound on the number of actions, and which sets of calls can and which
  cannot reach a deadlock.
\<close>

section \<open>The invariant\<close>

text \<open>The threads \<open>ts\<close>, started as \<open>ts0\<close> on the node \<open>st0\<close>, and the node they have made of it.\<close>

definition system_inv :: "lib \<Rightarrow> thread list \<Rightarrow> 's runtime \<Rightarrow> thread list \<Rightarrow> 's runtime \<Rightarrow> bool" where
  "system_inv L ts0 st0 ts st \<longleftrightarrow>
     list_all2 (place_of L) ts0 ts \<and> guards_ok ts st \<and> standing st = standing st0 \<and>
     (\<exists>new. mempool st = mempool st0 @ new \<and> mset new = sum_list (map2 accepted ts0 ts))"

lemma count_update:
  assumes "i < length ts" "guard_change (P (ts ! i)) h (P t) h'" "length (filter P ts) = (if h then 1 else 0)"
  shows "length (filter P (ts[i := t])) = (if h' then 1 else 0)"
proof -
  have "length (filter P (ts[i := t])) + (if P (ts ! i) then 1 else 0) =
      length (filter P ts) + (if P t then 1 else 0)"
    using assms(1)
  proof (induction ts arbitrary: i)
    case (Cons x ts)
    from Cons.prems Cons.IH [of "i - 1"] show ?case
      by (cases i) auto
  qed simp
  then show ?thesis
    using assms(2, 3) by (auto simp: guard_change_def split: if_splits)
qed

lemma held_by:
  assumes "i < length ts" "P (ts ! i)" "length (filter P ts) = (if h then 1 else 0)"
  shows h
proof -
  have "filter P ts \<noteq> []"
    using assms(1, 2) by (auto simp: filter_empty_conv)
  with assms(3) show ?thesis
    by (cases h) simp_all
qed

lemma held_by_someone:
  assumes "length (filter P ts) = (if h then 1 else 0)" h
  shows "\<exists>i < length ts. P (ts ! i)"
proof -
  have "filter P ts \<noteq> []"
    using assms by auto
  then show ?thesis
    by (auto simp: filter_empty_conv in_set_conv_nth)
qed

lemma sum_map2_update:
  fixes f :: "'a \<Rightarrow> 'a \<Rightarrow> 'b multiset"
  assumes "i < length ts" "length ts0 = length ts" "f (ts0 ! i) t = f (ts0 ! i) (ts ! i) + d"
  shows "sum_list (map2 f ts0 (ts[i := t])) = sum_list (map2 f ts0 ts) + d"
  using assms
proof (induction ts arbitrary: i ts0)
  case (Cons x ts)
  from Cons.prems show ?case
    by (cases ts0; cases i) (simp_all add: Cons.IH ac_simps)
qed simp

lemma system_step_inv:
  assumes "system_step L T E C (ts, st) (ts', st')" "system_inv L ts0 st0 ts st"
  shows "system_inv L ts0 st0 ts' st'"
  using assms(1)
proof (cases rule: system_step.cases)
  case (move i t')
  from assms(2) obtain new where inv: "list_all2 (place_of L) ts0 ts" "guards_ok ts st" "standing st = standing st0"
    and new: "mempool st = mempool st0 @ new" "mset new = sum_list (map2 accepted ts0 ts)"
    by (auto simp: system_inv_def)
  have len: "length ts0 = length ts"
    using inv(1) by (rule list_all2_lengthD)
  have here: "place_of L (ts0 ! i) (ts ! i)"
    using inv(1) move len by (simp add: list_all2_nthD)
  have guards: "length (filter holds_chain ts) = (if m_held (rt_chain_state (snd st)) then 1 else 0)"
    "length (filter holds_mempool ts) = (if m_held (rt_mempool (snd st)) then 1 else 0)"
    using inv(2) by (simp_all add: guards_ok_def)
  note effect = thread_step_effect [OF move(3) here held_by [OF move(2) _ guards(1)] held_by [OF move(2) _ guards(2)]]
  obtain more where more: "mempool st' = mempool st @ more"
    "accepted (ts0 ! i) t' = accepted (ts0 ! i) (ts ! i) + mset more"
    using effect(5) by blast
  have "list_all2 (place_of L) (ts0[i := ts0 ! i]) (ts[i := t'])"
    using inv(1) effect(1) by (rule list_all2_update_cong)
  moreover have "guards_ok ts' st'"
    using move(2) effect(2, 3) guards by (simp add: move(1) guards_ok_def count_update)
  moreover have "mset (new @ more) = sum_list (map2 accepted ts0 (ts[i := t']))"
    using sum_map2_update [of i ts ts0 accepted t' "mset more"] move(2) len more(2) new(2) by simp
  ultimately show ?thesis
    using inv(3) effect(4) new(1) more(1) unfolding system_inv_def move(1)
    by (intro conjI exI [of _ "new @ more"]) simp_all
qed

lemma accepted_verified: "tx \<in># accepted t0 t \<Longrightarrow> place_of L t0 t \<Longrightarrow> Transaction_verify_signature L tx = Ok True"
  by (cases "(t0, t)" rule: accepted.cases) auto

lemma system_start_inv:
  assumes "list_all starting ts" "at_rest st"
  shows "system_inv L ts st ts st"
proof -
  have place: "place_of L t t" if "starting t" for t
    using that by (cases t) simp_all
  have none: "accepted t t = {#}" for t
    by (cases t) simp_all
  have free: "\<not> holds_chain t \<and> \<not> holds_mempool t" if "starting t" for t
    using that by (cases t) simp_all
  have "sum_list (map2 accepted ts ts) = {#}"
    by (induction ts) (simp_all add: none)
  moreover have "list_all2 (place_of L) ts ts"
    using assms(1) place by (simp add: list_all2_same list_all_iff)
  moreover have "filter holds_chain ts = []" "filter holds_mempool ts = []"
    using assms(1) free by (auto simp: filter_empty_conv list_all_iff)
  ultimately show ?thesis
    using assms(2) by (simp add: system_inv_def guards_ok_def at_rest_def unlocked_def)
qed

lemma system_run_inv:
  assumes "(system_step L T E C)\<^sup>*\<^sup>* (ts0, st0) x" "list_all starting ts0" "at_rest st0"
  shows "system_inv L ts0 st0 (fst x) (snd x)"
  using assms(1)
proof (induction rule: rtranclp_induct)
  case base
  then show ?case
    using system_start_inv [OF assms(2, 3)] by simp
next
  case (step y z)
  then show ?case
    using system_step_inv [of L T E C "fst y" "snd y" "fst z" "snd z"] by simp
qed

section \<open>Every interleaving ends\<close>

text \<open>The actions a thread has left, at most.\<close>

primrec actions_left :: "thread \<Rightarrow> nat" where
  "actions_left (S_verify tx) = 5" | "actions_left (S_lock_chain tx) = 4" | "actions_left (S_account tx) = 3"
| "actions_left (S_lock_mempool tx) = 2" | "actions_left (S_push tx) = 1"
| "actions_left P_lock_mempool = 9" | "actions_left P_pending = 8" | "actions_left (P_lock_chain txs) = 7"
| "actions_left (P_generate txs) = 6" | "actions_left (P_drop_mempool b) = 5" | "actions_left (P_relock_chain b) = 4"
| "actions_left (P_apply b) = 3" | "actions_left (P_relock_mempool b) = 2" | "actions_left (P_clear b) = 1"
| "actions_left Q_lock_chain = 2" | "actions_left Q_read = 1" | "actions_left (Finished r) = 0"

lemma leave_finished: "leave t r st = (t', st') \<Longrightarrow> t' = Finished r"
  by (cases st) (simp add: leave_def Let_def)

lemma thread_step_advances:
  assumes "thread_step L T E C t st = Some (t', st')"
  shows "actions_left t' < actions_left t"
  using assms
  by (cases t)
    (auto simp: act_def Let_def split: prod.splits outcome.splits if_splits dest!: leave_finished)

lemma sum_list_update_less:
  fixes f :: "'a \<Rightarrow> nat"
  assumes "i < length ts" "f t < f (ts ! i)"
  shows "sum_list (map f (ts[i := t])) < sum_list (map f ts)"
  using assms by (induction ts arbitrary: i) (auto split: nat.split)

lemma system_step_advances:
  "system_step L T E C x y \<Longrightarrow> sum_list (map actions_left (fst y)) < sum_list (map actions_left (fst x))"
  by (elim system_stepE) (simp add: sum_list_update_less thread_step_advances)

lemma system_run_bounded:
  "(system_step L T E C ^^ k) x y \<Longrightarrow> k + sum_list (map actions_left (fst y)) \<le> sum_list (map actions_left (fst x))"
proof (induction k arbitrary: y)
  case (Suc k)
  then obtain z where "(system_step L T E C ^^ k) x z" "system_step L T E C z y"
    by auto
  with Suc.IH [of z] system_step_advances [of L T E C z y] show ?case
    by simp
qed simp

text \<open>Every system runs to a state in which nothing moves.\<close>

lemma maximal_run: "\<exists>y. (system_step L T E C)\<^sup>*\<^sup>* x y \<and> (\<forall>z. \<not> system_step L T E C y z)"
proof (induction x rule: measure_induct_rule [of "\<lambda>x. sum_list (map actions_left (fst x))"])
  case (less x)
  show ?case
  proof (cases "\<exists>z. system_step L T E C x z")
    case True
    then obtain z where z: "system_step L T E C x z"
      by blast
    with less [OF system_step_advances [OF z]] show ?thesis
      by (meson converse_rtranclp_into_rtranclp)
  qed blast
qed

section \<open>Schedules\<close>

text \<open>The threads move in the order of the list, a thread that waits or has finished being passed over.\<close>

primrec schedule ::
    "lib \<Rightarrow> 's storage \<Rightarrow> 's contract_engine \<Rightarrow> consensus_engine \<Rightarrow> nat list \<Rightarrow>
     thread list \<times> 's runtime \<Rightarrow> thread list \<times> 's runtime" where
  "schedule L T E C [] x = x"
| "schedule L T E C (i # is) x = schedule L T E C is (
     if i < length (fst x)
     then case thread_step L T E C (fst x ! i) (snd x) of Some (t', st') \<Rightarrow> ((fst x)[i := t'], st') | None \<Rightarrow> x
     else x)"

lemma schedule_run: "(system_step L T E C)\<^sup>*\<^sup>* x (schedule L T E C is x)"
proof (induction "is" arbitrary: x)
  case (Cons i "is")
  obtain ts st where x: "x = (ts, st)"
    by (rule prod.exhaust)
  show ?case
  proof (cases "i < length ts \<and> thread_step L T E C (ts ! i) st \<noteq> None")
    case True
    then obtain t' st' where step: "thread_step L T E C (ts ! i) st = Some (t', st')"
      by auto
    then have "system_step L T E C x (ts[i := t'], st')"
      using True unfolding x by (intro system_step.move) simp_all
    with Cons [of "(ts[i := t'], st')"] show ?thesis
      using True by (simp add: x step converse_rtranclp_into_rtranclp)
  next
    case False
    with Cons [of x] show ?thesis
      by (cases "thread_step L T E C (ts ! i) st") (auto simp: x)
  qed
qed simp

text \<open>Two threads, each holding the mutex the other waits for.\<close>

lemma opposite_order_stuck:
  assumes "m_held (rt_chain_state (snd st))" "m_held (rt_mempool (snd st))"
  shows "\<not> system_step L T E C ([S_lock_mempool tx, P_lock_chain txs], st) y"
proof
  assume "system_step L T E C ([S_lock_mempool tx, P_lock_chain txs], st) y"
  then show False
  proof (cases rule: system_step.cases)
    case (move i t' st')
    then have "i = 0 \<or> i = 1"
      by auto
    with move(3) assms show False
      by (cases st) (auto simp: act_def lock_mempool_def lock_chain_state_def mutex_lock_def)
  qed
qed

lemma opposite_order_schedule:
  assumes "at_rest st" "mempool st \<noteq> []" "admissible L T (fst st) tx"
  shows "\<exists>c. schedule L T E C [0, 0, 0, 1, 1] ([S_verify tx, P_lock_mempool], st) =
      ([S_lock_mempool tx, P_lock_chain (mempool st)], (fst st, c)) \<and>
    m_held (rt_chain_state c) \<and> m_held (rt_mempool c)"
  using assms(1)
proof (cases rule: rest_cases)
  case (1 s txs cs running spawned)
  from assms(3) obtain found where "Transaction_verify_signature L tx = Ok True" "get_account T (t_sender tx) s = Ok found"
    "\<not> t_nonce tx \<le> Account_nonce (case found of None \<Rightarrow> Wallet 0 0 | Some a \<Rightarrow> a)"
    by (auto simp: 1 admissible_def not_le split: option.splits)
  with assms(2) show ?thesis
    by (simp add: 1 act_def runtime_defs mempool_def)
qed

section \<open>Submissions and queries\<close>

definition finished :: "thread \<Rightarrow> bool" where
  "finished t \<longleftrightarrow> (\<exists>r. t = Finished r)"

text \<open>The answer of a call that has the node \<open>st0\<close> to itself.\<close>

fun answer :: "lib \<Rightarrow> 's storage \<Rightarrow> 's runtime \<Rightarrow> thread \<Rightarrow> (reply, runtime_error) outcome" where
  "answer L T st0 (S_verify tx) = reply_of (\<lambda>_. Submitted) (fst (Runtime_submit_transaction L T tx st0))"
| "answer L T st0 Q_lock_chain = reply_of Answered (fst (Runtime_get_chain_state st0))"
| "answer L T st0 _ = Hang"

text \<open>A call is on its way to that answer.\<close>

definition fate :: "lib \<Rightarrow> 's storage \<Rightarrow> 's runtime \<Rightarrow> thread \<Rightarrow> thread \<Rightarrow> bool" where
  "fate L T st0 t0 t \<longleftrightarrow> (case t of
       S_lock_mempool tx \<Rightarrow> answer L T st0 t0 = Ok Submitted
     | S_push tx \<Rightarrow> answer L T st0 t0 = Ok Submitted
     | Finished r \<Rightarrow> r = answer L T st0 t0
     | _ \<Rightarrow> True)"

definition unpoisoned :: "'s runtime \<Rightarrow> bool" where
  "unpoisoned st \<longleftrightarrow> \<not> m_poisoned (rt_mempool (snd st)) \<and> \<not> m_poisoned (rt_chain_state (snd st))"

lemma act_ready: "act t m k st = None \<longleftrightarrow> fst (m st) = Hang"
  by (cases "m st"; cases "fst (m st)") (auto simp: act_def)

text \<open>The interface the calls rely on: verification and account lookups return.\<close>

locale answering =
  fixes L :: lib and T :: "'s storage" and E :: "'s contract_engine" and C :: consensus_engine
  assumes verify_returns: "returns (Transaction_verify_signature L tx)"
    and account_returns: "returns (get_account T a s)"
begin

lemma answer_submit:
  assumes "at_rest st0"
  shows "answer L T st0 (S_verify tx) = (case Transaction_verify_signature L tx of
       Err e \<Rightarrow> Err (RE_CryptoError e)
     | Ok valid \<Rightarrow> if \<not> valid then Err (RE_InvalidTransaction ''Invalid transaction signature'')
         else (case get_account T (t_sender tx) (fst st0) of
           Err e \<Rightarrow> Err (RE_StorageError e)
         | Ok found \<Rightarrow> let sender_account = (case found of None \<Rightarrow> Wallet 0 0 | Some a \<Rightarrow> a) in
             if t_nonce tx \<le> Account_nonce sender_account
             then Err (RE_InvalidTransaction (''Invalid nonce: expected greater than '' @
               show_dec (unat (Account_nonce sender_account)) @ '', got '' @ show_dec (unat (t_nonce tx))))
             else Ok Submitted))"
  using assms
proof (cases rule: rest_cases)
  case (1 s txs cs running spawned)
  show ?thesis
    using verify_returns [of tx] account_returns [of "t_sender tx" s]
    by (cases "Transaction_verify_signature L tx"; cases "get_account T (t_sender tx) s")
      (simp_all add: 1 returns_def reply_of_def Runtime_submit_transaction_def runtime_defs bind_o_def map_err_o_def)
qed

lemma answer_query: "at_rest st0 \<Longrightarrow> answer L T st0 Q_lock_chain = Ok (Answered (the_chain_state st0))"
  by (erule rest_cases) (simp add: reply_of_def Runtime_get_chain_state_def runtime_defs the_chain_state_def)

lemma submit_step_fate:
  assumes "thread_step L T E C t st = Some (t', st')" "place_of L (S_verify tx) t"
    and "fate L T st0 (S_verify tx) t" "unpoisoned st" "fst st = fst st0" "at_rest st0"
  shows "fate L T st0 (S_verify tx) t' \<and> unpoisoned st'"
proof (cases st rule: runtime_cases)
  case (1 s v h p v' h' p' running spawned)
  note defs = 1 thread_defs push_mempool_def fate_def unpoisoned_def
  note ans = answer_submit [OF assms(6), of tx]
  from assms(2) consider "t = S_verify tx" | "t = S_lock_chain tx" | "t = S_account tx" "Transaction_verify_signature L tx = Ok True"
    | "t = S_lock_mempool tx" | "t = S_push tx" | r where "t = Finished r"
    by (cases t) simp_all
  then show ?thesis
  proof cases
    case 1
    with assms(1, 4, 5) verify_returns [of tx] show ?thesis
      by (cases "Transaction_verify_signature L tx") (auto simp: ans defs returns_def simp del: answer.simps split: if_splits)
  next
    case 2
    with assms(1, 4) show ?thesis
      by (cases h'; cases p') (auto simp: defs simp del: answer.simps)
  next
    case 3
    with assms(1, 4, 5) account_returns [of "t_sender tx" s] show ?thesis
      by (cases "get_account T (t_sender tx) s") (auto simp: ans defs returns_def simp del: answer.simps split: if_splits)
  next
    case 4
    with assms(1, 3, 4) show ?thesis
      by (cases h; cases p) (auto simp: defs simp del: answer.simps)
  next
    case 5
    with assms(1, 3, 4) show ?thesis
      by (cases h; cases h') (auto simp: defs simp del: answer.simps)
  next
    case 6
    with assms(1) show ?thesis
      by simp
  qed
qed

lemma query_step_fate:
  assumes "thread_step L T E C t st = Some (t', st')" "place_of L Q_lock_chain t"
    and "unpoisoned st" "the_chain_state st = the_chain_state st0" "at_rest st0"
  shows "fate L T st0 Q_lock_chain t' \<and> unpoisoned st'"
proof (cases st rule: runtime_cases)
  case (1 s v h p v' h' p' running spawned)
  note defs = 1 thread_defs fate_def unpoisoned_def the_chain_state_def
  from assms show ?thesis
    by (cases t; cases h'; cases p') (auto simp: defs answer_query simp del: answer.simps)
qed

lemma thread_step_fate:
  assumes "thread_step L T E C t st = Some (t', st')" "place_of L t0 t" "t0 \<noteq> P_lock_mempool"
    and "fate L T st0 t0 t" "unpoisoned st" "standing st = standing st0" "at_rest st0"
  shows "fate L T st0 t0 t' \<and> unpoisoned st'"
proof -
  from assms(2, 3) consider tx where "t0 = S_verify tx" | "t0 = Q_lock_chain"
    by (cases t0) simp_all
  then show ?thesis
    by cases (use assms submit_step_fate query_step_fate in \<open>auto simp: standing_def\<close>)
qed

text \<open>A thread that does not wait for a held mutex can move.\<close>

lemma thread_ready:
  assumes "place_of L t0 t" "t0 \<noteq> P_lock_mempool" "\<not> finished t"
    and "\<And>tx. t = S_lock_mempool tx \<Longrightarrow> \<not> m_held (rt_mempool (snd st))"
    and "\<not> holds_chain t \<Longrightarrow> \<not> m_held (rt_chain_state (snd st))"
  shows "thread_step L T E C t st \<noteq> None"
proof -
  obtain s c where st: "st = (s, c)"
    by (rule prod.exhaust)
  have calls: "map_err_o f (Transaction_verify_signature L tx) \<noteq> Hang" "map_err_o g (get_account T a s) \<noteq> Hang" for f g tx a
    using verify_returns [of tx] account_returns [of a s]
    by (auto simp: returns_def map_err_o_def split: outcome.splits)
  from assms(1, 2) consider tx where "t0 = S_verify tx" | "t0 = Q_lock_chain"
    by (cases t0) simp_all
  then show ?thesis
    by cases (use assms in \<open>cases t; auto simp: st act_ready finished_def runtime_defs calls simp del: not_None_eq\<close>)+
qed

text \<open>While a call is not finished, some call can move.\<close>

lemma progress:
  assumes "system_inv L ts0 st0 ts st" "P_lock_mempool \<notin> set ts0" "\<not> list_all finished ts"
  shows "\<exists>y. system_step L T E C (ts, st) y"
proof -
  have inv: "list_all2 (place_of L) ts0 ts" "guards_ok ts st"
    using assms(1) by (simp_all add: system_inv_def)
  have "\<exists>i < length ts. thread_step L T E C (ts ! i) st \<noteq> None" if "i < length ts" "\<not> finished (ts ! i)"
    "\<And>tx. ts ! i = S_lock_mempool tx \<Longrightarrow> \<not> m_held (rt_mempool (snd st))"
    "\<not> holds_chain (ts ! i) \<Longrightarrow> \<not> m_held (rt_chain_state (snd st))" for i
    using that thread_ready [of "ts0 ! i" "ts ! i" st] inv(1) assms(2)
    by (metis list_all2_conv_all_nth nth_mem)
  note ready = this
  have "\<exists>i < length ts. thread_step L T E C (ts ! i) st \<noteq> None"
  proof (cases "m_held (rt_mempool (snd st))")
    case True
    then obtain i where i: "i < length ts" "holds_mempool (ts ! i)"
      using inv(2) held_by_someone [of holds_mempool ts] unfolding guards_ok_def by blast
    have "place_of L (ts0 ! i) (ts ! i)" "ts0 ! i \<noteq> P_lock_mempool"
      using i inv(1) assms(2) by (metis list_all2_conv_all_nth nth_mem)+
    then obtain tx where "ts ! i = S_push tx"
      using i(2) by (cases "ts0 ! i"; cases "ts ! i") auto
    with ready [OF i(1)] show ?thesis
      by (simp add: finished_def)
  next
    case mp: False
    show ?thesis
    proof (cases "m_held (rt_chain_state (snd st))")
      case True
      then obtain i where i: "i < length ts" "holds_chain (ts ! i)"
        using inv(2) held_by_someone [of holds_chain ts] unfolding guards_ok_def by blast
      moreover from i(2) have "\<not> finished (ts ! i)"
        by (auto simp: finished_def)
      ultimately show ?thesis
        using ready [of i] mp by blast
    next
      case False
      obtain i where "i < length ts" "\<not> finished (ts ! i)"
        using assms(3) by (auto simp: list_all_iff in_set_conv_nth)
      with ready [of i] mp False show ?thesis
        by blast
    qed
  qed
  then show ?thesis
    by (auto intro: system_step.move)
qed

text \<open>Along a run, every call keeps to its answer.\<close>

lemma run_fate:
  assumes "(system_step L T E C)\<^sup>*\<^sup>* (ts0, st0) x" "list_all starting ts0" "at_rest st0" "P_lock_mempool \<notin> set ts0"
  shows "list_all2 (fate L T st0) ts0 (fst x) \<and> unpoisoned (snd x)"
  using assms(1)
proof (induction rule: rtranclp_induct)
  case base
  have "fate L T st0 t t" if "starting t" for t
    using that by (cases t) (simp_all add: fate_def)
  then show ?case
    using assms(2, 3) by (simp add: list_all2_same list_all_iff at_rest_def unlocked_def unpoisoned_def)
next
  case (step y z)
  have inv: "system_inv L ts0 st0 (fst y) (snd y)"
    using step.hyps(1) assms(2, 3) by (rule system_run_inv)
  from step.hyps(2) show ?case
  proof (cases rule: system_step.cases)
    case (move i ts st t' st')
    have at: "place_of L (ts0 ! i) (ts ! i)" "fate L T st0 (ts0 ! i) (ts ! i)" "ts0 ! i \<noteq> P_lock_mempool"
      using inv step.IH assms(4) move(1, 3) unfolding system_inv_def list_all2_conv_all_nth by (simp, simp, metis nth_mem fst_conv)
    have "fate L T st0 (ts0 ! i) t' \<and> unpoisoned st'"
      using move(4) at(1, 3, 2) by (rule thread_step_fate) (use inv step.IH move(1) assms(3) in \<open>simp_all add: system_inv_def\<close>)
    moreover have "list_all2 (fate L T st0) (ts0[i := ts0 ! i]) (ts[i := t'])"
      using step.IH move(1) calculation by (intro list_all2_update_cong) simp_all
    ultimately show ?thesis
      by (simp add: move(2))
  qed
qed

lemma finished_run:
  assumes "(system_step L T E C)\<^sup>*\<^sup>* (ts0, st0) (ts, st)" "list_all starting ts0" "at_rest st0" "P_lock_mempool \<notin> set ts0"
    and "\<And>y. \<not> system_step L T E C (ts, st) y"
  shows "ts = map (\<lambda>t. Finished (answer L T st0 t)) ts0 \<and> at_rest st \<and>
    (\<exists>new. mempool st = mempool st0 @ new \<and> mset new = sum_list (map (\<lambda>t. accepted t (Finished (answer L T st0 t))) ts0))"
proof -
  have inv: "system_inv L ts0 st0 ts st"
    using system_run_inv [OF assms(1-3)] by simp
  have "list_all finished ts"
    using progress [OF inv assms(4)] assms(5) by blast
  moreover have fate: "list_all2 (fate L T st0) ts0 ts" "unpoisoned st"
    using run_fate [OF assms(1-4)] by simp_all
  moreover have "t = Finished (answer L T st0 t0)" if "fate L T st0 t0 t" "finished t" for t0 t
    using that by (auto simp: finished_def fate_def)
  ultimately have ts: "ts = map (\<lambda>t. Finished (answer L T st0 t)) ts0"
    by (intro nth_equalityI) (simp_all add: list_all2_conv_all_nth list_all_length)
  moreover have "at_rest st"
    using inv fate(2) by (auto simp: ts system_inv_def guards_ok_def at_rest_def unlocked_def unpoisoned_def
        filter_map o_def split: if_splits)
  moreover have "map2 accepted ts0 ts = map (\<lambda>t. accepted t (Finished (answer L T st0 t))) ts0"
    unfolding ts by (induction ts0) simp_all
  ultimately show ?thesis
    using inv by (simp add: system_inv_def)
qed

end

text \<open>The storage of a node is such an interface.\<close>

sublocale sled_node \<subseteq> calls: answering L "SledStorage L S std_handles" E C for E C
proof
  show "returns (Transaction_verify_signature L tx)" for tx
    using hashes_return(3) [OF bincode, of False tx] by (simp add: comes_back_False)
  show "returns (get_account (SledStorage L S std_handles) a s)" for a s
    using get_account_returns [of a s] by simp
qed

context sled_node
begin

lemmas calls_end = calls.finished_run
lemmas query_answer = calls.answer_query

end

section \<open>Properties\<close>

text \<open>
  C10: calls from several threads, interleaved in any way, on a node at rest. At every moment each
  mutex is held exactly if one thread holds its guard, and then by one thread only; no storage entry, chain
  state or broadcast has changed; and the mempool is what it was, extended by the transactions of the
  submissions that have returned \<^verbatim>\<open>Ok\<close>, each once, all of them verified. Nothing is lost and no
  production ever clears it.
\<close>

theorem interleaved_calls_are_safe:
  assumes "(system_step L T E C)\<^sup>*\<^sup>* (ts, st) (ts', st')" "list_all starting ts" "at_rest st"
  shows "guards_ok ts' st' \<and>
    fst st' = fst st \<and> the_chain_state st' = the_chain_state st \<and> rt_spawned (snd st') = rt_spawned (snd st) \<and>
    (\<exists>new. mempool st' = mempool st @ new \<and> mset new = sum_list (map2 accepted ts ts') \<and>
      (\<forall>tx \<in> set new. Transaction_verify_signature L tx = Ok True))"
proof -
  have inv: "system_inv L ts st ts' st'"
    using system_run_inv [OF assms] by simp
  then obtain new where new: "mempool st' = mempool st @ new" "mset new = sum_list (map2 accepted ts ts')"
    by (auto simp: system_inv_def)
  have "Transaction_verify_signature L tx = Ok True" if "tx \<in># sum_list (map2 accepted us us')" "list_all2 (place_of L) us us'"
    for tx us us'
    using that accepted_verified by (auto simp: list_all2_iff)
  then have "\<forall>tx \<in> set new. Transaction_verify_signature L tx = Ok True"
    using inv new(2) by (metis set_mset_mset system_inv_def)
  with inv new show ?thesis
    by (auto simp: system_inv_def standing_def)
qed

theorem interleaved_calls_are_safe_witness:
  "let (ts', st') = schedule ref_lib (SledStorage ref_lib mem_sled std_handles) (BaaLSContractEngine ref_lib)
      (PoAConsensus ref_lib (PoAConsensus_new (PublicKey 7) 1000)) [0, 1, 0, 1, 0, 0]
      ([S_verify signed_tx, P_lock_mempool], (mem_with [] [block_at 1], cells_with [] (state_at 1)))
   in guards_ok ts' st' \<and> the_chain_state st' = state_at 1"
proof -
  let ?T = "SledStorage ref_lib mem_sled std_handles" and ?E = "BaaLSContractEngine ref_lib"
  let ?C = "PoAConsensus ref_lib (PoAConsensus_new (PublicKey 7) 1000)"
  let ?ts = "[S_verify signed_tx, P_lock_mempool]" and ?st = "(mem_with [] [block_at 1], cells_with [] (state_at 1))"
  obtain ts' st' where run: "schedule ref_lib ?T ?E ?C [0, 1, 0, 1, 0, 0] (?ts, ?st) = (ts', st')"
    by (rule prod.exhaust)
  then have "(system_step ref_lib ?T ?E ?C)\<^sup>*\<^sup>* (?ts, ?st) (ts', st')"
    using schedule_run [of ref_lib ?T ?E ?C "(?ts, ?st)" "[0, 1, 0, 1, 0, 0]"] by (simp only:)
  from interleaved_calls_are_safe [OF this] have "guards_ok ts' st' \<and> the_chain_state st' = state_at 1"
    by simp
  then show ?thesis
    unfolding run by simp
qed

text \<open>
  C14: two calls can deadlock. \<^verbatim>\<open>submit_transaction\<close> locks the chain state and then the mempool,
  \<^verbatim>\<open>produce_block\<close> the mempool and then the chain state: on a node at rest with a pending transaction, the
  submission of an admissible transaction and a block production can reach a state in which each holds
  the mutex the other waits for. Neither moves any more, and \<^verbatim>\<open>get_chain_state\<close> does not return either.
\<close>

theorem lock_order_deadlocks:
  assumes "at_rest st" "mempool st \<noteq> []" "admissible L T (fst st) tx"
  shows "\<exists>st'. (system_step L T E C)\<^sup>*\<^sup>* ([S_verify tx, P_lock_mempool], st)
      ([S_lock_mempool tx, P_lock_chain (mempool st)], st') \<and>
    (\<forall>y. \<not> system_step L T E C ([S_lock_mempool tx, P_lock_chain (mempool st)], st') y) \<and>
    fst (Runtime_get_chain_state st') = Hang"
proof -
  obtain c where c: "schedule L T E C [0, 0, 0, 1, 1] ([S_verify tx, P_lock_mempool], st) =
      ([S_lock_mempool tx, P_lock_chain (mempool st)], (fst st, c))" "m_held (rt_chain_state c)" "m_held (rt_mempool c)"
    using opposite_order_schedule [OF assms] by blast
  have "fst (Runtime_get_chain_state (fst st, c)) = Hang"
    by (rule wedged_hangs) (simp add: wedged_def c(2))
  with c opposite_order_stuck [of "(fst st, c)"] schedule_run [of L T E C "([S_verify tx, P_lock_mempool], st)" "[0, 0, 0, 1, 1]"]
  show ?thesis
    by (metis snd_conv)
qed

theorem lock_order_deadlocks_witness:
  "\<exists>st'. (system_step ref_lib (SledStorage ref_lib mem_sled std_handles) (BaaLSContractEngine ref_lib)
      (PoAConsensus ref_lib (PoAConsensus_new (PublicKey 7) 1000)))\<^sup>*\<^sup>*
      ([S_verify signed_tx, P_lock_mempool], (mem_with [] [block_at 1], cells_with [signed_tx] (state_at 1)))
      ([S_lock_mempool signed_tx, P_lock_chain [signed_tx]], st') \<and> fst (Runtime_get_chain_state st') = Hang"
  using lock_order_deadlocks [of "(mem_with [] [block_at 1], cells_with [signed_tx] (state_at 1))" ref_lib
      "SledStorage ref_lib mem_sled std_handles" signed_tx "BaaLSContractEngine ref_lib"
      "PoAConsensus ref_lib (PoAConsensus_new (PublicKey 7) 1000)"]
  by (auto simp: signed_tx_admissible)

text \<open>
  C11: submissions and queries alone never deadlock. However many there are and however they interleave, the
  threads together take at most five actions each; when no thread can move, every call has returned what it
  returns on the node as it was before all of them, no mutex is held, and the mempool has grown by
  exactly the transactions of the submissions that returned \<^verbatim>\<open>Ok\<close>.
\<close>

theorem submissions_and_queries_finish:
  assumes "sled_node S view L" "list_all starting ts" "P_lock_mempool \<notin> set ts" "at_rest st"
    and "(system_step L (SledStorage L S std_handles) E C ^^ k) (ts, st) (ts', st')"
  shows "k \<le> 5 * length ts \<and>
    ((\<forall>y. \<not> system_step L (SledStorage L S std_handles) E C (ts', st') y) \<longrightarrow>
      ts' = map (\<lambda>t. Finished (answer L (SledStorage L S std_handles) st t)) ts \<and> at_rest st' \<and>
      (\<exists>new. mempool st' = mempool st @ new \<and>
        mset new = sum_list (map (\<lambda>t. accepted t (Finished (answer L (SledStorage L S std_handles) st t))) ts)))"
proof (intro conjI impI)
  have few: "actions_left t \<le> 5" if "starting t" "t \<noteq> P_lock_mempool" for t
    using that by (cases t) simp_all
  have "sum_list (map actions_left ts) \<le> 5 * length ts"
    using assms(2, 3) few by (induction ts) force+
  with system_run_bounded [OF assms(5)] show "k \<le> 5 * length ts"
    by simp
next
  let ?T = "SledStorage L S std_handles"
  assume stop: "\<forall>y. \<not> system_step L ?T E C (ts', st') y"
  have run: "(system_step L ?T E C)\<^sup>*\<^sup>* (ts, st) (ts', st')"
    using assms(5) by (rule relpowp_imp_rtranclp)
  have "ts' = map (\<lambda>t. Finished (answer L ?T st t)) ts \<and> at_rest st' \<and>
      (\<exists>new. mempool st' = mempool st @ new \<and>
        mset new = sum_list (map (\<lambda>t. accepted t (Finished (answer L ?T st t))) ts))"
    using assms(1) run assms(2, 4, 3) by (rule sled_node.calls_end) (use stop in blast)
  then show "ts' = map (\<lambda>t. Finished (answer L ?T st t)) ts" "at_rest st'"
    "\<exists>new. mempool st' = mempool st @ new \<and>
        mset new = sum_list (map (\<lambda>t. accepted t (Finished (answer L ?T st t))) ts)"
    by blast+
qed

theorem submissions_and_queries_finish_witness:
  "\<exists>st'. (system_step ref_lib (SledStorage ref_lib mem_sled std_handles) (BaaLSContractEngine ref_lib)
      (PoAConsensus ref_lib (PoAConsensus_new (PublicKey 7) 1000)))\<^sup>*\<^sup>*
      ([S_verify signed_tx, Q_lock_chain], (mem_with [] [], cells_with [] (state_at 1)))
      ([Finished (Ok Submitted), Finished (Ok (Answered (state_at 1)))], st') \<and> mempool st' = [signed_tx]"
proof -
  let ?T = "SledStorage ref_lib mem_sled std_handles" and ?st = "(mem_with [] [], cells_with [] (state_at 1))"
  let ?step = "system_step ref_lib ?T (BaaLSContractEngine ref_lib) (PoAConsensus ref_lib (PoAConsensus_new (PublicKey 7) 1000))"
  let ?ts = "[S_verify signed_tx, Q_lock_chain]"
  have "Runtime_submit_transaction ref_lib ?T signed_tx ?st = (Ok (), (mem_with [] [], cells_with [signed_tx] (state_at 1)))"
    using submit_at_rest [of ?st ?T signed_tx ref_lib] by (simp add: signed_tx_admissible returns_def)
  then have ans: "answer ref_lib ?T ?st (S_verify signed_tx) = Ok Submitted" "answer ref_lib ?T ?st Q_lock_chain = Ok (Answered (state_at 1))"
    using mem_node.query_answer [of ?st] by (simp_all add: reply_of_def)
  obtain ts' st' where run: "?step\<^sup>*\<^sup>* (?ts, ?st) (ts', st')" and stop: "\<forall>z. \<not> ?step (ts', st') z"
    using maximal_run [of ref_lib ?T "BaaLSContractEngine ref_lib" "PoAConsensus ref_lib (PoAConsensus_new (PublicKey 7) 1000)" "(?ts, ?st)"]
    by auto
  then obtain k where "(?step ^^ k) (?ts, ?st) (ts', st')"
    using rtranclp_imp_relpowp [OF run] by blast
  from submissions_and_queries_finish [OF mem_node.sled_node_axioms _ _ _ this] stop
  have "ts' = [Finished (Ok Submitted), Finished (Ok (Answered (state_at 1)))]" "mset (mempool st') = {#signed_tx#}"
    by (auto simp: ans simp del: answer.simps)
  with run show ?thesis
    by (intro exI [of _ st']) simp
qed

end
