(* ===== verification/Spec2Isabelle.thy ===== *)
theory Spec2Isabelle
  imports Baals_Sync Baals_Cli Baals_Returns Baals_Sequential Baals_Index Baals_Interleaving
begin

text \<open>
  BaaLS (\<^verbatim>\<open>src/src\<close>) is a blockchain engine in Rust that runs inside one process: typed data with
  hashes and signatures (\<^verbatim>\<open>types.rs\<close>), a storage trait over the embedded database sled
  (\<^verbatim>\<open>storage.rs\<close>), a ledger that validates blocks and applies their transactions (\<^verbatim>\<open>ledger.rs\<close>) with the
  help of a contract engine (\<^verbatim>\<open>contracts.rs\<close>), a consensus engine that makes blocks (\<^verbatim>\<open>consensus.rs\<close>),
  a runtime that owns mempool and chain state (\<^verbatim>\<open>runtime.rs\<close>), a peer-to-peer layer (\<^verbatim>\<open>sync.rs\<close>) and
  a command line (\<^verbatim>\<open>main.rs\<close>). This development models all of them and proves what they do.

  Modelling conventions. A call that can fail returns an \<open>outcome\<close> (\<open>Ok\<close>, \<open>Err\<close>, \<open>Panic\<close>, or \<open>Hang\<close>
  for one that does not return); a call with effects is a \<open>prog\<close>, a function from the state to an
  outcome and the new state; \<open>then_do\<close> is the sequencing of \<^verbatim>\<open>?\<close>. Rust integers are words of
  their width, \<^verbatim>\<open>+\<close> is \<open>add_checked\<close>: a panic on overflow with overflow checks, a wrap without.
  A trait is a record of operations; an implementation is a value of that record. Byte arrays
  of 32 and 64 bytes are words of 256 and 512 bits. Recursion is structural throughout; the one
  loop without an end, the accept loop of \<^verbatim>\<open>start_server\<close>, is followed for a number of
  connections given as an argument (\<open>serve\<close>), and no theorem depends on that number.

  Code that is not in the repository is a parameter: the record \<open>lib\<close> (SHA-256, hex, Ed25519,
  bincode, the overflow-check switch of the build), the record \<open>sled\<close> (the database), the record
  \<open>net\<close> (sockets) and the record \<open>cli_env\<close> (files, clock, randomness). What the code relies on is
  stated by \<open>bincode_documented\<close>, \<open>dalek_documented\<close>, \<open>hex_documented\<close> and by the locales
  \<open>sled_store\<close> and \<open>reliable_sled\<close>; \<open>ref_lib\<close> and \<open>mem_sled\<close> are instances on which every witness
  evaluates. No property assumes that hashes do not collide or that signatures cannot be forged.

  Theories, in the order they build on each other.
  \<^item> \<open>Baals_Prelude\<close>: outcomes, programs, frames (\<open>keeps\<close>), checked addition.
  \<^item> \<open>Baals_Std\<close>: little-endian integers, UTF-8, decimal formatting, \<^verbatim>\<open>BTreeMap\<close>.
  \<^item> \<open>Baals_Wire\<close>: the data model of serde and the wire format of bincode, with its round trip
    (\<open>wire_de_ser\<close>) and prefix-freedom; the record \<open>lib\<close>.
  \<^item> \<open>Baals_Types\<close>, \<open>Baals_Codec\<close> (\<^verbatim>\<open>types.rs\<close>): the chain's data, the hand-written and derived
    serde impls, hashes, signing. Which values read back, that a \<^verbatim>\<open>PublicKey\<close> and therefore a
    transaction does not, what hashes commit to.
  \<^item> \<open>Baals_Storage\<close>, \<open>Baals_Sled\<close>, \<open>Baals_Storage_Facts\<close> (\<^verbatim>\<open>storage.rs\<close>): every operation of
    \<^verbatim>\<open>SledStorage\<close>; the contract of the database; the typed tables as maps (locale \<open>keyed_table\<close>),
    the height index, and that batches never reach the trees the getters read. The locale
    \<open>sled_node\<close> is \<^verbatim>\<open>SledStorage\<close> over a database without I/O failures.
  \<^item> \<open>Baals_Contracts\<close> (\<^verbatim>\<open>contracts.rs\<close>) and \<open>Baals_Consensus\<close> (\<^verbatim>\<open>consensus.rs\<close>), with the
    interfaces the ledger relies on: \<open>kept_engine\<close>, \<open>framed_engine\<close> and \<open>block_producer\<close>.
  \<^item> \<open>Baals_Ledger\<close>, \<open>Baals_Ledger_Facts\<close>, \<open>Baals_Ledger_Props\<close>, \<open>Baals_Ledger_Claims\<close>
    (\<^verbatim>\<open>ledger.rs\<close>): \<^verbatim>\<open>initialize_chain\<close>, \<^verbatim>\<open>validate_block\<close>, \<^verbatim>\<open>apply_block\<close>; the abstract transition
    \<open>spec_txs\<close> over the accounts stored before a block and the refinement of \<^verbatim>\<open>apply_block\<close> to it
    (locale \<open>working_backend\<close>); conservation of balances and its exceptions, atomicity, what an
    applied block leaves behind.
  \<^item> \<open>Baals_Index\<close>: the transaction index of a block, its keys and their order.
  \<^item> \<open>Baals_Faults\<close>: storage and ledger over a database that may fail at any call: a block is
    written as a whole or not at all, \<^verbatim>\<open>put_block\<close> in up to three ways.
  \<^item> \<open>Baals_Typed\<close>: what each tree may hold (\<open>entry_ok\<close>), kept by every storage call
    (\<open>storage_step\<close>), failed ones included; lookup of blocks by hash and by height.
  \<^item> \<open>Baals_Returns\<close>: which calls return (locales \<open>returning_sled\<close> and \<open>returning_backend\<close>).
  \<^item> \<open>Baals_Sequential\<close>: a sequential account ledger as a reference (\<open>seq_txs\<close>), and the blocks on
    which \<^verbatim>\<open>apply_block\<close> agrees with it.
  \<^item> \<open>Baals_Runtime\<close> (\<^verbatim>\<open>runtime.rs\<close>): mutexes and guards, the runtime's operations, its runs as a step
    relation (\<open>node_step\<close>) and the invariant of the mempool; \<^verbatim>\<open>produce_block\<close> locks a mutex it holds,
    so in a run in which every call returns (\<open>live_step\<close>) the chain never advances.
  \<^item> \<open>Baals_Threads\<close>, \<open>Baals_Interleaving\<close>: the calls of \<^verbatim>\<open>Runtime\<close> that take locks, followed from one lock,
    storage call or unlock to the next (\<open>thread_step\<close>), alone and interleaved (\<open>system_step\<close>): a thread
    alone is the call of \<open>Baals_Runtime\<close> (and never gets past the second lock of the chain state),
    mutual exclusion, the mempool under concurrency, the deadlock of
    a submission with a production, and that submissions and queries always end (locale \<open>answering\<close>).
  \<^item> \<open>Baals_Sync\<close> (\<^verbatim>\<open>sync.rs\<close>): messages, frames, \<^verbatim>\<open>CustomSync\<close>, \<^verbatim>\<open>NoopSync\<close> and their shared
    contract (\<open>sync_contract\<close>).
  \<^item> \<open>Baals_Cli\<close> (\<^verbatim>\<open>main.rs\<close>): the commands, the lines they print and sequences of commands.

  Not modelled: what is printed outside the command line (\<^verbatim>\<open>println!\<close> of the other modules),
  interleaving finer than \<open>thread_step\<close> (a storage call and the application of a block are one action
  each, and a call that leaves drops its guards in one action), the interleaving of the tasks of
  \<^verbatim>\<open>sync.rs\<close>, allocation failure, and clap's argument parsing.
\<close>

end
